(* ===== verification/Prelude.thy ===== *)
theory Prelude
  imports Main "HOL-Library.Word" "HOL-Library.Char_ord" "HOL-Library.List_Lexorder"
begin

text \<open>
  The prelude of the development: the machine integers and identifiers of the indexer, the
  saturating arithmetic of Rust's unsigned integers, the parts of Rust's string library the
  indexer calls (decimal numbers, prefixes, splitting, lines, trimming), the result type and its
  case rules, and the named collections the component theories add to.
\<close>

named_theorems result_iff "when a fallible computation succeeds"
named_theorems metric_simps "unfolding of the telemetry functions"

section \<open>Integers and identifiers\<close>

text \<open>
  A slot is a u64. A public key is 32 bytes and a signature 64 bytes; read as big-endian numbers
  the byte-wise order of the Rust types is the order of the words.
\<close>

type_synonym u8 = "8 word"
type_synonym u32 = "32 word"
type_synonym u64 = "64 word"
type_synonym slot = u64
type_synonym pubkey = "256 word"
type_synonym signature = "512 word"

text \<open>Instants and durations of the monotonic clock, in nanoseconds.\<close>

type_synonym instant = nat
type_synonym duration = nat

abbreviation seconds :: "nat \<Rightarrow> duration" where
  "seconds n \<equiv> n * 1000000000"

text \<open>Rust's \<open>saturating_sub\<close> and \<open>saturating_add\<close>.\<close>

definition sat_sub :: "'a::len word \<Rightarrow> 'a word \<Rightarrow> 'a word" where
  "sat_sub a b = (if b \<le> a then a - b else 0)"

definition sat_add :: "'a::len word \<Rightarrow> 'a word \<Rightarrow> 'a word" where
  "sat_add a b = (if unat a + unat b < 2 ^ LENGTH('a) then a + b else - 1)"

lemma unat_sat_sub [simp]: "unat (sat_sub a b) = unat a - unat b"
  by (auto simp: sat_sub_def unat_sub word_le_nat_alt)

lemma unat_max_word: "unat (- 1 :: 'a::len word) = 2 ^ LENGTH('a) - 1"
  by (simp add: unsigned_minus_1_eq_mask mask_eq_exp_minus_1)

lemma unat_sat_add: "unat (sat_add a b) = min (unat a + unat b) (2 ^ LENGTH('a) - 1)"
  for a b :: "'a::len word"
  by (auto simp: sat_add_def unat_max_word unat_word_ariths min_def)

lemma unat_u64_less [simp]: "unat (a :: u64) < 18446744073709551616"
  using unsigned_less [of a] by simp

lemma sat_add_u64: "unat (sat_add a b) = min (unat a + unat b) 18446744073709551615"
  for a b :: u64
  by (simp add: unat_sat_add)

lemmas slot_less = word_less_nat_alt
lemmas slot_le = word_le_nat_alt

lemma unat_max_le: "unat (max a b) = max (unat a) (unat b)"
  for a b :: "'a::len word"
  by (auto simp: max_def word_le_nat_alt)

lemma unat_min_le: "unat (min a b) = min (unat a) (unat b)"
  for a b :: "'a::len word"
  by (auto simp: min_def word_le_nat_alt)

lemma sat_sub_le: "sat_sub a b \<le> a"
  by (simp add: slot_le)

lemma sat_sub_mono: "a \<le> c \<Longrightarrow> sat_sub a b \<le> sat_sub c b"
  by (simp add: slot_le)

lemma sat_sub_antimono: "b \<le> c \<Longrightarrow> sat_sub a c \<le> sat_sub a b"
  by (simp add: slot_le)

section \<open>Results\<close>

text \<open>
  A fallible operation returns \<open>Inl\<close> of the error or \<open>Inr\<close> of the value; \<open>bind_r\<close> is the
  question-mark operator.
\<close>

definition bind_r :: "'e + 'a \<Rightarrow> ('a \<Rightarrow> 'e + 'b) \<Rightarrow> 'e + 'b" where
  "bind_r m f = (case m of Inl e \<Rightarrow> Inl e | Inr x \<Rightarrow> f x)"

lemma bind_r_simps [simp]:
  "bind_r (Inl e) f = Inl e"
  "bind_r (Inr x) f = f x"
  by (simp_all add: bind_r_def)

lemma bind_r_Inr [result_iff]: "bind_r m f = Inr y \<longleftrightarrow> (\<exists>x. m = Inr x \<and> f x = Inr y)"
  by (cases m) auto

definition ensure :: "bool \<Rightarrow> 'e \<Rightarrow> 'e + unit" where
  "ensure c e = (if c then Inr () else Inl e)"

lemma ensure_Inr [result_iff]: "ensure c e = Inr u \<longleftrightarrow> c"
  by (simp add: ensure_def)

lemma ensure_simps [simp]: "ensure True e = Inr ()" "ensure False e = Inl e"
  by (simp_all add: ensure_def)

text \<open>Rust's \<open>collect::<Result<Vec<_>, _>>\<close>: the first error in order wins.\<close>

fun traverse_r :: "('a \<Rightarrow> 'e + 'b) \<Rightarrow> 'a list \<Rightarrow> 'e + 'b list" where
  "traverse_r f [] = Inr []"
| "traverse_r f (x # xs) =
     bind_r (f x) (\<lambda>y. bind_r (traverse_r f xs) (\<lambda>ys. Inr (y # ys)))"

lemma traverse_r_map:
  "(\<And>x. x \<in> set xs \<Longrightarrow> f x = Inr (g x)) \<Longrightarrow> traverse_r f xs = Inr (map g xs)"
  by (induction xs) auto

lemma traverse_r_Inr: "traverse_r f xs = Inr ys \<Longrightarrow> list_all2 (\<lambda>x y. f x = Inr y) xs ys"
  by (induction xs arbitrary: ys) (auto simp: result_iff)

lemma traverse_r_all:
  "traverse_r f xs = Inr ys \<Longrightarrow> x \<in> set xs \<Longrightarrow> \<exists>y \<in> set ys. f x = Inr y"
  by (induction xs arbitrary: ys) (auto simp: result_iff)

lemma traverse_r_length: "traverse_r f xs = Inr ys \<Longrightarrow> length ys = length xs"
  using traverse_r_Inr list_all2_lengthD by fastforce

section \<open>Decimal numbers\<close>

definition digit_char :: "nat \<Rightarrow> char" where
  "digit_char d = char_of (48 + d)"

definition is_digit :: "char \<Rightarrow> bool" where
  "is_digit c \<longleftrightarrow> 48 \<le> (of_char c :: nat) \<and> (of_char c :: nat) \<le> 57"

definition digit_value :: "char \<Rightarrow> nat" where
  "digit_value c = of_char c - 48"

text \<open>The \<open>Display\<close> of an unsigned integer.\<close>

fun show_nat :: "nat \<Rightarrow> string" where
  "show_nat n = (if n < 10 then [digit_char n] else show_nat (n div 10) @ [digit_char (n mod 10)])"

declare show_nat.simps [simp del]

definition show_u64 :: "'a::len word \<Rightarrow> string" where
  "show_u64 n = show_nat (unat n)"

definition show_int :: "int \<Rightarrow> string" where
  "show_int i = (if i < 0 then CHR ''-'' # show_nat (nat (- i)) else show_nat (nat i))"

definition digits_value :: "string \<Rightarrow> nat" where
  "digits_value = foldl (\<lambda>n c. 10 * n + digit_value c) 0"

text \<open>
  \<open>str::parse::<u64>\<close>: an optional plus sign, at least one digit, digits only, and no value above
  the maximum.
\<close>

definition parse_u64 :: "string \<Rightarrow> u64 option" where
  "parse_u64 s =
     (let ds = (case s of [] \<Rightarrow> [] | c # r \<Rightarrow> if c = CHR ''+'' then r else s)
      in if ds = [] \<or> \<not> list_all is_digit ds then None
         else if digits_value ds < 2 ^ 64 then Some (of_nat (digits_value ds)) else None)"

lemma of_char_digit [simp]: "d < 10 \<Longrightarrow> (of_char (digit_char d) :: nat) = 48 + d"
  by (simp add: digit_char_def)

lemma is_digit_digit [simp]: "d < 10 \<Longrightarrow> is_digit (digit_char d)"
  by (simp add: is_digit_def)

lemma digit_value_digit [simp]: "d < 10 \<Longrightarrow> digit_value (digit_char d) = d"
  by (simp add: digit_value_def)

lemma digits_value_simps [simp]:
  "digits_value [] = 0"
  "digits_value (s @ [c]) = 10 * digits_value s + digit_value c"
  by (simp_all add: digits_value_def)

lemma digits_value_single: "digits_value [c] = digit_value c"
  using digits_value_simps(2) [of "[]" c] by simp

lemma show_nat_not_Nil [simp]: "show_nat n \<noteq> []"
  by (subst show_nat.simps) simp

lemma show_nat_digits: "list_all is_digit (show_nat n)"
proof (induction n rule: show_nat.induct)
  case (1 n)
  then show ?case by (subst show_nat.simps) auto
qed

lemma digits_value_show_nat [simp]: "digits_value (show_nat n) = n"
proof (induction n rule: show_nat.induct)
  case (1 n)
  show ?case
  proof (cases "n < 10")
    case True
    then show ?thesis by (subst show_nat.simps) (simp add: digits_value_single)
  next
    case False
    with 1 show ?thesis by (subst show_nat.simps) simp
  qed
qed

lemma show_nat_inject [simp]: "show_nat m = show_nat n \<longleftrightarrow> m = n"
  by (metis digits_value_show_nat)

lemma not_digit_plus [simp]: "\<not> is_digit (CHR ''+'')"
  by (simp add: is_digit_def)

lemma not_digit_space [simp]: "\<not> is_digit (CHR '' '')"
  by (simp add: is_digit_def)

lemma digit_not_plus: "is_digit c \<Longrightarrow> c \<noteq> CHR ''+''"
  by auto

lemma parse_show_u64 [simp]: "parse_u64 (show_u64 n) = Some n" for n :: u64
proof -
  obtain c r where s: "show_nat (unat n) = c # r"
    by (cases "show_nat (unat n)") auto
  moreover have "is_digit c"
    using show_nat_digits [of "unat n"] s by simp
  ultimately show ?thesis
    using show_nat_digits [of "unat n"] digits_value_show_nat [of "unat n"] digit_not_plus [of c]
    by (simp add: parse_u64_def show_u64_def Let_def)
qed

lemma show_u64_inject [simp]: "show_u64 a = show_u64 b \<longleftrightarrow> a = b" for a b :: "'a::len word"
  by (simp add: show_u64_def unsigned_word_eqI word_unat_eq_iff)

lemma show_nat_no_space [simp]: "CHR '' '' \<notin> set (show_nat n)"
  using show_nat_digits [of n] by (auto simp: list_all_iff)

lemma not_digit_newline [simp]: "\<not> is_digit (CHR 0x0A)"
  by (simp add: is_digit_def)

lemma show_nat_no_newline [simp]: "CHR 0x0A \<notin> set (show_nat n)"
  using show_nat_digits [of n] by (auto simp: list_all_iff)

section \<open>Strings\<close>

text \<open>\<open>str::strip_prefix\<close> and \<open>str::starts_with\<close>.\<close>

fun strip_prefix :: "'a list \<Rightarrow> 'a list \<Rightarrow> 'a list option" where
  "strip_prefix [] s = Some s"
| "strip_prefix (p # ps) [] = None"
| "strip_prefix (p # ps) (c # cs) = (if p = c then strip_prefix ps cs else None)"

definition starts_with :: "'a list \<Rightarrow> 'a list \<Rightarrow> bool" where
  "starts_with p s \<longleftrightarrow> strip_prefix p s \<noteq> None"

lemma strip_prefix_append [simp]: "strip_prefix p (p @ s) = Some s"
  by (induction p) auto

lemma strip_prefix_Some: "strip_prefix p s = Some r \<longleftrightarrow> s = p @ r"
  by (induction p s rule: strip_prefix.induct) auto

text \<open>\<open>str::split_once\<close> on one character.\<close>

fun split_once :: "'a \<Rightarrow> 'a list \<Rightarrow> ('a list \<times> 'a list) option" where
  "split_once d [] = None"
| "split_once d (c # cs) =
     (if c = d then Some ([], cs)
      else map_option (\<lambda>(a, b). (c # a, b)) (split_once d cs))"

lemma split_once_append: "d \<notin> set a \<Longrightarrow> split_once d (a @ d # b) = Some (a, b)"
  by (induction a) auto

lemma split_once_None: "split_once d s = None \<longleftrightarrow> d \<notin> set s"
  by (induction s) auto

text \<open>The text before the first occurrence of a pattern, and the text after it.\<close>

fun split_at_first :: "string \<Rightarrow> string \<Rightarrow> (string \<times> string) option" where
  "split_at_first p [] = (if p = [] then Some ([], []) else None)"
| "split_at_first p (c # cs) =
     (case strip_prefix p (c # cs) of
        Some rest \<Rightarrow> Some ([], rest)
      | None \<Rightarrow> map_option (\<lambda>(before, after). (c # before, after)) (split_at_first p cs))"

lemma split_at_first_Some:
  "split_at_first p s = Some (b, a) \<Longrightarrow> s = b @ p @ a"
  by (induction p s arbitrary: b a rule: split_at_first.induct)
    (auto simp: strip_prefix_Some split: option.splits if_splits)

lemma strip_prefix_longer:
  "length p \<le> length s \<Longrightarrow> strip_prefix p (s @ y) = map_option (\<lambda>r. r @ y) (strip_prefix p s)"
  by (induction p s rule: strip_prefix.induct) auto

lemma split_at_first_append:
  "split_at_first p s = Some (b, a) \<Longrightarrow> split_at_first p (s @ y) = Some (b, a @ y)"
proof (induction p s arbitrary: b a rule: split_at_first.induct)
  case (1 p)
  then show ?case by (cases y) (auto split: if_splits)
next
  case (2 p c cs)
  have "length p \<le> length (c # cs)"
    using split_at_first_Some [OF 2(2)] by simp
  then have prefix: "strip_prefix p (c # cs @ y) = map_option (\<lambda>r. r @ y) (strip_prefix p (c # cs))"
    using strip_prefix_longer [of p "c # cs" y] by simp
  show ?case
    using 2 by (cases "strip_prefix p (c # cs)") (auto simp: prefix simp del: strip_prefix.simps)
qed

text \<open>\<open>str::replace\<close> of a pattern that is not empty.\<close>

function str_replace :: "string \<Rightarrow> string \<Rightarrow> string \<Rightarrow> string" where
  "str_replace p new s =
     (if p = [] then s
      else case split_at_first p s of
        None \<Rightarrow> s
      | Some (before, after) \<Rightarrow> before @ new @ str_replace p new after)"
  by pat_completeness auto

termination
proof (relation "measure (\<lambda>(p, new, s). length s)")
  fix p new s :: string and x before after
  assume "p \<noteq> []" "split_at_first p s = Some x" "(before, after) = x"
  then have "s = before @ p @ after" using split_at_first_Some by metis
  then show "((p, new, after), p, new, s) \<in> measure (\<lambda>(p, new, s). length s)"
    using \<open>p \<noteq> []\<close> by simp
qed simp

declare str_replace.simps [simp del]

text \<open>\<open>str::split\<close> on one character: always at least one piece.\<close>

fun split_on :: "'a \<Rightarrow> 'a list \<Rightarrow> 'a list list" where
  "split_on d [] = [[]]"
| "split_on d (c # cs) =
     (if c = d then [] # split_on d cs
      else case split_on d cs of [] \<Rightarrow> [[c]] | p # ps \<Rightarrow> (c # p) # ps)"

text \<open>
  \<open>str::lines\<close>: the pieces between newlines, without a last empty one and without a carriage
  return before the newline.
\<close>

definition strip_cr :: "string \<Rightarrow> string" where
  "strip_cr l = (if l \<noteq> [] \<and> last l = CHR 0x0D then butlast l else l)"

fun lines_of :: "string \<Rightarrow> string \<Rightarrow> string list" where
  "lines_of acc [] = (if acc = [] then [] else [rev acc])"
| "lines_of acc (c # cs) =
     (if c = CHR 0x0A then strip_cr (rev acc) # lines_of [] cs else lines_of (c # acc) cs)"

definition str_lines :: "string \<Rightarrow> string list" where
  "str_lines s = lines_of [] s"

lemma lines_of_append_line:
  "CHR 0x0A \<notin> set l \<Longrightarrow> lines_of acc (l @ CHR 0x0A # s) = strip_cr (rev acc @ l) # lines_of [] s"
  by (induction l arbitrary: acc) auto

lemma lines_of_no_newline:
  "CHR 0x0A \<notin> set l \<Longrightarrow> lines_of acc l = (if acc = [] \<and> l = [] then [] else [rev acc @ l])"
  by (induction l arbitrary: acc) auto

lemma str_lines_line:
  "CHR 0x0A \<notin> set l \<Longrightarrow> str_lines (l @ CHR 0x0A # s) = strip_cr l # str_lines s"
  by (simp add: str_lines_def lines_of_append_line)

lemma str_lines_partial:
  "CHR 0x0A \<notin> set l \<Longrightarrow> str_lines l = (if l = [] then [] else [l])"
  by (simp add: str_lines_def lines_of_no_newline)

lemma str_lines_Nil [simp]: "str_lines [] = []"
  by (simp add: str_lines_def)

text \<open>ASCII white space, as \<open>str::trim\<close> removes it.\<close>

definition is_space :: "char \<Rightarrow> bool" where
  "is_space c \<longleftrightarrow> (let n = (of_char c :: nat) in (9 \<le> n \<and> n \<le> 13) \<or> n = 32)"

definition trim :: "string \<Rightarrow> string" where
  "trim s = rev (dropWhile is_space (rev (dropWhile is_space s)))"

text \<open>\<open>[String]::join\<close>.\<close>

fun join_with :: "string \<Rightarrow> string list \<Rightarrow> string" where
  "join_with sep [] = []"
| "join_with sep [x] = x"
| "join_with sep (x # y # xs) = x @ sep @ join_with sep (y # xs)"

lemma split_on_not_Nil [simp]: "split_on d s \<noteq> []"
  by (cases s) (auto split: list.splits)

lemma join_with_Cons: "xs \<noteq> [] \<Longrightarrow> join_with sep (x # xs) = x @ sep @ join_with sep xs"
  by (cases xs) simp_all

lemma join_split: "join_with [d] (split_on d s) = s"
proof (induction d s rule: split_on.induct)
  case (2 d c cs)
  show ?case
  proof (cases "c = d")
    case True
    then show ?thesis using 2 by (simp add: join_with_Cons)
  next
    case False
    obtain p ps where p: "split_on d cs = p # ps"
      by (cases "split_on d cs") auto
    show ?thesis using False 2 p by (cases ps) simp_all
  qed
qed simp

lemma split_on_single: "d \<notin> set x \<Longrightarrow> split_on d x = [x]"
  by (induction x) auto

lemma split_on_append: "d \<notin> set x \<Longrightarrow> split_on d (x @ d # s) = x # split_on d s"
  by (induction x) auto

lemma split_join:
  "xs \<noteq> [] \<Longrightarrow> list_all (\<lambda>x. d \<notin> set x) xs \<Longrightarrow> split_on d (join_with [d] xs) = xs"
proof (induction xs)
  case (Cons x xs)
  then show ?case
    by (cases xs) (simp_all add: split_on_single split_on_append)
qed simp

lemma split_on_pieces: "list_all (\<lambda>x. d \<notin> set x) (split_on d s)"
proof (induction d s rule: split_on.induct)
  case (2 d c cs)
  then show ?case by (cases "split_on d cs") auto
qed simp

section \<open>Lists\<close>

text \<open>\<open>Iterator::min\<close>, \<open>None\<close> on an empty iterator.\<close>

definition minimum_opt :: "'a::linorder list \<Rightarrow> 'a option" where
  "minimum_opt xs = (case xs of [] \<Rightarrow> None | y # ys \<Rightarrow> Some (foldl min y ys))"

lemma foldl_min_le:
  fixes a :: "'a::linorder"
  shows "foldl min a xs \<le> a" "x \<in> set xs \<Longrightarrow> foldl min a xs \<le> x"
proof (induction xs arbitrary: a)
  case (Cons y ys)
  {
    case 1
    show ?case using Cons.IH(1) [of "min a y"] by simp
  next
    case 2
    then show ?case
      using Cons.IH(1) [of "min a y"] Cons.IH(2) [of "min a y"]
      by (auto intro: order_trans [OF _ min.cobounded2])
  }
qed simp_all

lemma foldl_min_in: "foldl min (a::'a::linorder) xs \<in> insert a (set xs)"
proof (induction xs arbitrary: a)
  case (Cons y ys)
  then show ?case using Cons.IH [of "min a y"] by (auto simp: min_def split: if_splits)
qed simp

lemma minimum_opt_le: "minimum_opt xs = Some m \<Longrightarrow> x \<in> set xs \<Longrightarrow> m \<le> x"
  by (auto simp: minimum_opt_def foldl_min_le split: list.splits)

lemma minimum_opt_in: "minimum_opt xs = Some m \<Longrightarrow> m \<in> set xs"
  using foldl_min_in by (fastforce simp: minimum_opt_def split: list.splits)

lemma minimum_opt_None [simp]: "minimum_opt xs = None \<longleftrightarrow> xs = []"
  by (auto simp: minimum_opt_def split: list.splits)

lemma distinct_map_eq:
  "distinct (map f xs) \<Longrightarrow> x \<in> set xs \<Longrightarrow> y \<in> set xs \<Longrightarrow> f x = f y \<Longrightarrow> x = y"
  by (auto simp: distinct_map inj_on_def)

lemma distinct_map_inj:
  assumes "inj f" "distinct (map g xs)"
  shows "distinct (map (\<lambda>x. f (g x)) xs)"
proof -
  have "distinct (map f (map g xs))"
    using assms inj_on_subset [OF assms(1)] by (simp only: distinct_map [of f]) blast
  then show ?thesis by (simp add: comp_def)
qed

lemma option_eqI: "(\<And>v. a = Some v \<longleftrightarrow> b = Some v) \<Longrightarrow> a = b"
  by (metis not_Some_eq)

text \<open>\<open>slice::chunks\<close>.\<close>

function chunks :: "nat \<Rightarrow> 'a list \<Rightarrow> 'a list list" where
  "chunks n xs = (if xs = [] \<or> n = 0 then [] else take n xs # chunks n (drop n xs))"
  by pat_completeness auto
termination by (relation "measure (\<lambda>(n, xs). length xs)") auto

declare chunks.simps [simp del]

lemma concat_chunks: "0 < n \<Longrightarrow> concat (chunks n xs) = xs"
proof (induction n xs rule: chunks.induct)
  case (1 n xs)
  then show ?case by (subst chunks.simps) auto
qed

lemma chunks_length: "b \<in> set (chunks n xs) \<Longrightarrow> 0 < length b \<and> length b \<le> n"
proof (induction n xs rule: chunks.induct)
  case (1 n xs)
  then show ?case by (subst (asm) chunks.simps) (auto split: if_splits)
qed

end
