(* ===== verification/Health.thy ===== *)
theory Health
  imports Prelude
begin

text \<open>
  The probe endpoints (\<open>health.rs\<close>): the process-wide atomics as one record, the operations that
  store to them, and the readiness verdict of \<open>/readyz\<close>.
\<close>

record health_state =
  started :: bool
  poll_stale_after_seconds :: u64
  last_poll_success_unix :: u64
  stream_stale_after_seconds :: u64
  last_stream_probe_success_unix :: u64

definition initial_health :: health_state where
  "initial_health = \<lparr>started = False, poll_stale_after_seconds = 0, last_poll_success_unix = 0,
     stream_stale_after_seconds = 0, last_stream_probe_success_unix = 0\<rparr>"

definition expect_poll_heartbeat :: "u64 \<Rightarrow> u64 \<Rightarrow> health_state \<Rightarrow> health_state" where
  "expect_poll_heartbeat stale_after now h =
     h\<lparr>poll_stale_after_seconds := stale_after, last_poll_success_unix := now\<rparr>"

definition record_poll_success :: "u64 \<Rightarrow> health_state \<Rightarrow> health_state" where
  "record_poll_success now h = h\<lparr>last_poll_success_unix := now\<rparr>"

definition expect_stream_probe :: "u64 \<Rightarrow> u64 \<Rightarrow> health_state \<Rightarrow> health_state" where
  "expect_stream_probe stale_after now h =
     h\<lparr>stream_stale_after_seconds := stale_after, last_stream_probe_success_unix := now\<rparr>"

definition record_stream_probe_success :: "u64 \<Rightarrow> health_state \<Rightarrow> health_state" where
  "record_stream_probe_success now h = h\<lparr>last_stream_probe_success_unix := now\<rparr>"

definition mark_started :: "health_state \<Rightarrow> health_state" where
  "mark_started h = h\<lparr>started := True\<rparr>"

record heartbeat =
  stale_after_seconds :: u64
  last_unix :: u64

definition heartbeat_check :: "heartbeat \<Rightarrow> u64 \<Rightarrow> string \<Rightarrow> string + unit" where
  "heartbeat_check hb now subject =
     (if stale_after_seconds hb = 0 then Inr ()
      else let age = sat_sub now (last_unix hb)
           in if stale_after_seconds hb < age
              then Inl (subject @ '' in '' @ show_u64 age @ ''s, over the ''
                        @ show_u64 (stale_after_seconds hb) @ ''s threshold'')
              else Inr ())"

definition evaluate :: "bool \<Rightarrow> heartbeat \<Rightarrow> heartbeat \<Rightarrow> u64 \<Rightarrow> string + unit" where
  "evaluate is_started poll stream now =
     (if \<not> is_started then Inl ''the indexer has not finished starting''
      else bind_r (heartbeat_check poll now ''no RPC poll has succeeded'')
             (\<lambda>_. heartbeat_check stream now ''no Yellowstone endpoint probe has succeeded''))"

datatype probe_status = OK_200 | SERVICE_UNAVAILABLE_503 | NOT_FOUND_404

definition readyz :: "health_state \<Rightarrow> u64 \<Rightarrow> probe_status \<times> string" where
  "readyz h now =
     (case evaluate (started h)
             \<lparr>stale_after_seconds = poll_stale_after_seconds h, last_unix = last_poll_success_unix h\<rparr>
             \<lparr>stale_after_seconds = stream_stale_after_seconds h,
              last_unix = last_stream_probe_success_unix h\<rparr> now of
        Inr _ \<Rightarrow> (OK_200, ''ok'' @ [CHR 0x0A])
      | Inl reason \<Rightarrow> (SERVICE_UNAVAILABLE_503, reason @ [CHR 0x0A]))"

text \<open>The router of \<open>serve\<close>: two probes and a fallback.\<close>

definition probe_route :: "health_state \<Rightarrow> u64 \<Rightarrow> string \<Rightarrow> probe_status \<times> string" where
  "probe_route h now path =
     (if path = ''/healthz'' then (OK_200, ''ok'')
      else if path = ''/readyz'' then readyz h now
      else (NOT_FOUND_404, path @ '' is not a probe endpoint'' @ [CHR 0x0A]))"

text \<open>A heartbeat is fresh when its threshold is off or its age is within it.\<close>

definition fresh :: "u64 \<Rightarrow> u64 \<Rightarrow> u64 \<Rightarrow> bool" where
  "fresh threshold at now \<longleftrightarrow> threshold = 0 \<or> unat now - unat at \<le> unat threshold"

lemma heartbeat_check_Inr:
  "heartbeat_check hb now s = Inr u \<longleftrightarrow> fresh (stale_after_seconds hb) (last_unix hb) now"
  by (auto simp: heartbeat_check_def fresh_def Let_def slot_less not_less)

lemma readyz_fresh:
  "fst (readyz h now) = OK_200 \<longleftrightarrow>
     started h
     \<and> fresh (poll_stale_after_seconds h) (last_poll_success_unix h) now
     \<and> fresh (stream_stale_after_seconds h) (last_stream_probe_success_unix h) now"
proof -
  let ?p = "\<lparr>stale_after_seconds = poll_stale_after_seconds h, last_unix = last_poll_success_unix h\<rparr>"
  let ?s = "\<lparr>stale_after_seconds = stream_stale_after_seconds h,
    last_unix = last_stream_probe_success_unix h\<rparr>"
  have "evaluate (started h) ?p ?s now = Inr () \<longleftrightarrow>
      started h \<and> fresh (stale_after_seconds ?p) (last_unix ?p) now
      \<and> fresh (stale_after_seconds ?s) (last_unix ?s) now"
    by (auto simp: evaluate_def result_iff heartbeat_check_Inr)
  then show ?thesis
    by (cases "evaluate (started h) ?p ?s now") (simp_all add: readyz_def)
qed

end
