(* ===== verification/Telemetry.thy ===== *)
theory Telemetry
  imports Health
begin

text \<open>
  The metrics the indexer publishes (\<open>telemetry.rs\<close>). A call of the metrics macros is a value of
  \<open>metric\<close>; a telemetry function returns the calls it makes in order. A gauge carries the integer
  the code converts to \<open>f64\<close>; the boolean gauges carry 1 or 0.
\<close>

type_synonym labels = "(string \<times> string) list"

datatype metric =
    CounterAdd string labels u64
  | GaugeSet string labels u64

definition bool_label :: "bool \<Rightarrow> string" where
  "bool_label b = (if b then ''true'' else ''false'')"

definition initialize_transactions :: "metric list" where
  "initialize_transactions =
     [CounterAdd ''microscope_transactions_total'' [] 0, CounterAdd ''microscope_errors_total'' [] 0]"

definition record_instruction :: "string \<Rightarrow> metric list" where
  "record_instruction name = [CounterAdd ''microscope_instructions_total'' [(''instruction'', name)] 1]"

definition record_program_event :: "string \<Rightarrow> string \<Rightarrow> bool \<Rightarrow> metric list" where
  "record_program_event name source failed =
     [CounterAdd ''microscope_program_events_total''
        [(''event'', name), (''source'', source), (''failed'', bool_label failed)] 1]"

definition record_event_decode_failures :: "string \<Rightarrow> u64 \<Rightarrow> metric list" where
  "record_event_decode_failures source rejected =
     [CounterAdd ''microscope_event_decode_failures_total'' [(''source'', source)] rejected]"

definition record_multisig_activity :: "string \<Rightarrow> string \<Rightarrow> bool \<Rightarrow> metric list" where
  "record_multisig_activity version action failed =
     [CounterAdd ''microscope_multisig_activity_total''
        [(''provider'', ''squads''), (''version'', version), (''action'', action),
         (''failed'', bool_label failed)] 1]"

definition record_multisig_unmatched_state :: "string \<Rightarrow> metric list" where
  "record_multisig_unmatched_state version =
     [CounterAdd ''microscope_multisig_unmatched_state_total''
        [(''provider'', ''squads''), (''version'', version)] 1]"

definition record_transaction :: "bool \<Rightarrow> metric list" where
  "record_transaction failed =
     CounterAdd ''microscope_transactions_total'' [] 1
     # (if failed then [CounterAdd ''microscope_errors_total'' [] 1] else [])"

definition record_event :: "u64 \<Rightarrow> metric list" where
  "record_event now = [GaugeSet ''microscope_last_event_unixtime'' [] now]"

text \<open>\<open>install\<close> seeds the liveness gauge and the transaction counters.\<close>

definition install :: "u64 \<Rightarrow> metric list" where
  "install now = record_event now @ initialize_transactions"

definition record_yellowstone_disconnects :: "u64 \<Rightarrow> u64 \<Rightarrow> metric list" where
  "record_yellowstone_disconnects disconnects missed_slots =
     [CounterAdd ''microscope_yellowstone_disconnects_total'' [] disconnects,
      CounterAdd ''microscope_yellowstone_missed_slots_total'' [] missed_slots]"

definition initialize_yellowstone :: "metric list" where
  "initialize_yellowstone = record_yellowstone_disconnects 0 0"

definition record_yellowstone_disconnect :: "u64 \<Rightarrow> metric list" where
  "record_yellowstone_disconnect missed_slots = record_yellowstone_disconnects 1 missed_slots"

definition set_yellowstone_probe_healthy :: "bool \<Rightarrow> metric list" where
  "set_yellowstone_probe_healthy healthy =
     [GaugeSet ''microscope_yellowstone_probe_healthy'' [] (if healthy then 1 else 0)]"

definition initialize_yellowstone_probe :: "metric list" where
  "initialize_yellowstone_probe =
     CounterAdd ''microscope_yellowstone_probe_failures_total'' [] 0
     # set_yellowstone_probe_healthy True"

definition record_yellowstone_probe_failure :: "metric list" where
  "record_yellowstone_probe_failure =
     CounterAdd ''microscope_yellowstone_probe_failures_total'' [] 1
     # set_yellowstone_probe_healthy False"

definition set_rpc_quarantined_transactions :: "u64 \<Rightarrow> metric list" where
  "set_rpc_quarantined_transactions n =
     [GaugeSet ''microscope_rpc_poll_quarantined_transactions'' [] n]"

definition initialize_rpc_polling :: "u64 \<Rightarrow> metric list" where
  "initialize_rpc_polling now =
     GaugeSet ''microscope_rpc_poll_started_unixtime'' [] now
     # set_rpc_quarantined_transactions 0
     @ [CounterAdd ''microscope_rpc_poll_transactions_total'' [] 0,
        CounterAdd ''microscope_rpc_poll_failures_total'' [] 0,
        CounterAdd ''microscope_rpc_poll_transaction_failures_total'' [] 0,
        CounterAdd ''microscope_rpc_poll_quarantined_transactions_total'' [] 0]"

text \<open>The one telemetry call that also stores to the health state; the clock is read for each.\<close>

definition record_rpc_poll_success ::
  "u64 \<Rightarrow> u64 \<Rightarrow> slot \<Rightarrow> slot \<Rightarrow> u64 \<Rightarrow> health_state \<Rightarrow> health_state \<times> metric list" where
  "record_rpc_poll_success health_now now head scanned transactions h =
     (record_poll_success health_now h,
      [GaugeSet ''microscope_rpc_poll_last_success_unixtime'' [] now,
       GaugeSet ''microscope_rpc_poll_head_slot'' [] head,
       GaugeSet ''microscope_rpc_poll_lag_slots'' [] (sat_sub head scanned),
       CounterAdd ''microscope_rpc_poll_transactions_total'' [] transactions])"

definition record_rpc_poll_failure :: "metric list" where
  "record_rpc_poll_failure = [CounterAdd ''microscope_rpc_poll_failures_total'' [] 1]"

definition set_rpc_recovery_enabled :: "bool \<Rightarrow> metric list" where
  "set_rpc_recovery_enabled enabled =
     [GaugeSet ''microscope_rpc_recovery_enabled'' [] (if enabled then 1 else 0)]"

definition record_rpc_recovery_disabled :: "string \<Rightarrow> metric list" where
  "record_rpc_recovery_disabled reason =
     set_rpc_recovery_enabled False
     @ [GaugeSet ''microscope_rpc_recovery_degraded'' [(''reason'', reason)] 1,
        CounterAdd ''microscope_rpc_recovery_disabled_total'' [(''reason'', reason)] 1]"

definition record_rpc_checkpoint_success :: "u64 \<Rightarrow> slot \<Rightarrow> metric list" where
  "record_rpc_checkpoint_success now scanned =
     [GaugeSet ''microscope_rpc_checkpoint_last_success_unixtime'' [] now,
      GaugeSet ''microscope_rpc_checkpoint_slot'' [] scanned]"

definition record_rpc_checkpoint_failure :: "metric list" where
  "record_rpc_checkpoint_failure = [CounterAdd ''microscope_rpc_checkpoint_failures_total'' [] 1]"

definition set_rpc_checkpoint_quarantined_files :: "u64 \<Rightarrow> metric list" where
  "set_rpc_checkpoint_quarantined_files n =
     [GaugeSet ''microscope_rpc_checkpoint_quarantined_files'' [] n]"

definition record_rpc_checkpoint_corrupt :: "metric list" where
  "record_rpc_checkpoint_corrupt = [CounterAdd ''microscope_rpc_checkpoint_corrupt_total'' [] 1]"

definition record_rpc_history_unavailable :: "metric list" where
  "record_rpc_history_unavailable = [CounterAdd ''microscope_rpc_history_unavailable_total'' [] 1]"

definition record_rpc_transaction_failure :: "metric list" where
  "record_rpc_transaction_failure =
     [CounterAdd ''microscope_rpc_poll_transaction_failures_total'' [] 1]"

definition record_rpc_transaction_quarantine :: "metric list" where
  "record_rpc_transaction_quarantine =
     [CounterAdd ''microscope_rpc_poll_quarantined_transactions_total'' [] 1]"

definition record_rpc_yellowstone_deliveries :: "u64 \<Rightarrow> metric list" where
  "record_rpc_yellowstone_deliveries n =
     [CounterAdd ''microscope_rpc_poll_yellowstone_deliveries_total'' [] n]"

definition set_rpc_recent_signatures :: "u64 \<Rightarrow> metric list" where
  "set_rpc_recent_signatures n = [GaugeSet ''microscope_rpc_poll_recent_signatures'' [] n]"

text \<open>\<open>carbon_counter\<close>: the first counter of a metrics snapshot with the name.\<close>

type_synonym metrics_snapshot = "(string \<times> string \<times> u64) list"

definition carbon_counter :: "metrics_snapshot \<Rightarrow> string \<Rightarrow> u64 option" where
  "carbon_counter counters name =
     map_option (\<lambda>(_, _, v). v) (List.find (\<lambda>(n, _, _). n = name) counters)"

text \<open>The total a list of calls adds to a counter (over all its labels).\<close>

fun counter_total :: "string \<Rightarrow> metric list \<Rightarrow> nat" where
  "counter_total name [] = 0"
| "counter_total name (CounterAdd n l v # ms) =
     (if n = name then unat v else 0) + counter_total name ms"
| "counter_total name (GaugeSet n l v # ms) = counter_total name ms"

lemma counter_total_append [simp]:
  "counter_total name (a @ b) = counter_total name a + counter_total name b"
  by (induction name a rule: counter_total.induct) auto

end
