(* ===== verification/Ordered_Map.thy ===== *)
theory Ordered_Map
  imports Prelude
begin

text \<open>
  Rust's \<open>BTreeMap\<close> and \<open>BTreeSet\<close> as association lists and lists in strictly ascending key
  order, so that iteration order and \<open>find\<close> are those of the code. The locale \<open>ordered_map\<close> is
  the interface the indexer relies on (insert, remove, get, retain, keys); its lemmas are the
  facts about runs of insertions that the polling state, the checkpoint and the journal use.
\<close>

type_synonym ('k, 'v) omap = "('k \<times> 'v) list"

fun om_insert :: "'k::linorder \<Rightarrow> 'v \<Rightarrow> ('k, 'v) omap \<Rightarrow> ('k, 'v) omap" where
  "om_insert k v [] = [(k, v)]"
| "om_insert k v (e # m) =
     (if k < fst e then (k, v) # e # m
      else if fst e < k then e # om_insert k v m
      else (k, v) # m)"

definition om_remove :: "'k \<Rightarrow> ('k, 'v) omap \<Rightarrow> ('k, 'v) omap" where
  "om_remove k m = filter (\<lambda>e. fst e \<noteq> k) m"

definition om_get :: "('k, 'v) omap \<Rightarrow> 'k \<Rightarrow> 'v option" where
  "om_get m k = map_of m k"

definition om_contains :: "('k, 'v) omap \<Rightarrow> 'k \<Rightarrow> bool" where
  "om_contains m k \<longleftrightarrow> om_get m k \<noteq> None"

definition om_retain :: "('k \<Rightarrow> 'v \<Rightarrow> bool) \<Rightarrow> ('k, 'v) omap \<Rightarrow> ('k, 'v) omap" where
  "om_retain p m = filter (\<lambda>e. p (fst e) (snd e)) m"

definition om_keys :: "('k, 'v) omap \<Rightarrow> 'k list" where
  "om_keys m = map fst m"

definition om_values :: "('k, 'v) omap \<Rightarrow> 'v list" where
  "om_values m = map snd m"

definition om_insert_all :: "('k::linorder \<times> 'v) list \<Rightarrow> ('k, 'v) omap \<Rightarrow> ('k, 'v) omap" where
  "om_insert_all es m = fold (\<lambda>e. om_insert (fst e) (snd e)) es m"

text \<open>\<open>collect::<BTreeMap<_, _>>\<close>.\<close>

definition om_of_list :: "('k::linorder \<times> 'v) list \<Rightarrow> ('k, 'v) omap" where
  "om_of_list es = om_insert_all es []"

text \<open>The invariant of the representation: strictly ascending keys.\<close>

definition om_wf :: "('k::linorder, 'v) omap \<Rightarrow> bool" where
  "om_wf m \<longleftrightarrow> sorted_wrt (<) (om_keys m)"

text \<open>\<open>BTreeSet\<close>: an ascending list without duplicates.\<close>

definition oset_insert :: "'a::linorder \<Rightarrow> 'a list \<Rightarrow> 'a list" where
  "oset_insert x xs = (if x \<in> set xs then xs else insort x xs)"

definition oset_of_list :: "'a::linorder list \<Rightarrow> 'a list" where
  "oset_of_list xs = remdups_adj (sort xs)"

section \<open>The interface\<close>

locale ordered_map =
  fixes empty :: "'m"
    and insert :: "'k \<Rightarrow> 'v \<Rightarrow> 'm \<Rightarrow> 'm"
    and remove :: "'k \<Rightarrow> 'm \<Rightarrow> 'm"
    and get :: "'m \<Rightarrow> 'k \<Rightarrow> 'v option"
    and retain :: "('k \<Rightarrow> 'v \<Rightarrow> bool) \<Rightarrow> 'm \<Rightarrow> 'm"
    and keys :: "'m \<Rightarrow> 'k list"
    and wf :: "'m \<Rightarrow> bool"
  assumes law_get_empty: "get empty k = None"
    and law_wf_empty: "wf empty"
    and law_get_insert: "wf m \<Longrightarrow> get (insert k v m) = (get m)(k \<mapsto> v)"
    and law_wf_insert: "wf m \<Longrightarrow> wf (insert k v m)"
    and law_get_remove: "wf m \<Longrightarrow> get (remove k m) = (get m)(k := None)"
    and law_wf_remove: "wf m \<Longrightarrow> wf (remove k m)"
    and law_get_retain: "wf m \<Longrightarrow>
      get (retain p m) k = (case get m k of None \<Rightarrow> None | Some v \<Rightarrow> if p k v then Some v else None)"
    and law_wf_retain: "wf m \<Longrightarrow> wf (retain p m)"
    and law_keys: "wf m \<Longrightarrow> set (keys m) = dom (get m)"
begin

lemma wf_fold_insert: "wf m \<Longrightarrow> wf (fold (\<lambda>e. insert (fst e) (snd e)) es m)"
  by (induction es arbitrary: m) (auto simp: law_wf_insert)

lemma get_fold_insert:
  "wf m \<Longrightarrow> get (fold (\<lambda>e. insert (fst e) (snd e)) es m) = get m ++ map_of (rev es)"
proof (induction es arbitrary: m)
  case (Cons e es)
  then show ?case
    by (simp add: law_wf_insert law_get_insert map_add_upd_left map_of_append [symmetric]
        map_add_def fun_eq_iff split: option.splits)
qed simp

lemma get_retain_Some:
  "wf m \<Longrightarrow> get (retain p m) k = Some v \<longleftrightarrow> get m k = Some v \<and> p k v"
  by (auto simp: law_get_retain split: option.splits)

lemma keys_insert: "wf m \<Longrightarrow> set (keys (insert k v m)) = Set.insert k (set (keys m))"
  by (simp add: law_keys law_wf_insert law_get_insert)

lemma keys_retain: "wf m \<Longrightarrow> set (keys (retain p m)) \<subseteq> set (keys m)"
  by (auto simp: law_keys law_wf_retain law_get_retain split: option.splits)

lemma keys_fold_insert:
  "wf m \<Longrightarrow> set (keys (fold (\<lambda>e. insert (fst e) (snd e)) es m)) = set (keys m) \<union> fst ` set es"
  by (induction es arbitrary: m) (auto simp: law_wf_insert keys_insert)

end

section \<open>The association list satisfies it\<close>

lemma om_get_eq: "om_get m = map_of m"
  by (simp add: om_get_def fun_eq_iff)

lemma set_om_keys: "set (om_keys m) = dom (om_get m)"
  by (simp add: om_keys_def om_get_eq dom_map_of_conv_image_fst)

lemma om_wf_Nil [simp]: "om_wf []"
  by (simp add: om_wf_def om_keys_def)

lemma om_wf_Cons: "om_wf (e # m) \<longleftrightarrow> (\<forall>k \<in> set (om_keys m). fst e < k) \<and> om_wf m"
  by (simp add: om_wf_def om_keys_def)

lemma om_keys_om_insert: "set (om_keys (om_insert k v m)) = insert k (set (om_keys m))"
  by (induction m) (auto simp: om_keys_def)

lemma om_wf_om_insert: "om_wf m \<Longrightarrow> om_wf (om_insert k v m)"
  by (induction m) (auto simp: om_wf_Cons om_keys_om_insert, auto simp: om_keys_def)

lemma om_get_om_insert: "om_wf m \<Longrightarrow> om_get (om_insert k v m) = (om_get m)(k \<mapsto> v)"
  by (induction m) (auto simp: om_wf_Cons om_get_def fun_eq_iff)

lemma om_wf_distinct: "om_wf m \<Longrightarrow> distinct (map fst m)"
  by (auto simp: om_wf_def om_keys_def strict_sorted_iff)

lemma om_wf_filter: "om_wf m \<Longrightarrow> om_wf (filter p m)"
  unfolding om_wf_def om_keys_def
  by (simp add: sorted_wrt_filter sorted_wrt_map)

lemma om_get_Some: "om_wf m \<Longrightarrow> om_get m k = Some v \<longleftrightarrow> (k, v) \<in> set m"
  by (simp add: om_get_def om_wf_distinct)

lemma om_get_filter:
  assumes "om_wf m"
  shows "om_get (filter p m) k = Some v \<longleftrightarrow> om_get m k = Some v \<and> p (k, v)"
  using assms by (auto simp: om_get_Some om_wf_filter)

lemma om_get_om_remove: "om_wf m \<Longrightarrow> om_get (om_remove k m) = (om_get m)(k := None)"
  by (rule ext, rule option_eqI) (simp add: om_remove_def om_get_filter)

lemma om_get_om_retain:
  assumes "om_wf m"
  shows "om_get (om_retain p m) k =
    (case om_get m k of None \<Rightarrow> None | Some v \<Rightarrow> if p k v then Some v else None)"
  by (rule option_eqI) (auto simp: om_retain_def om_get_filter [OF assms] split: option.splits)

lemma om_wf_om_remove: "om_wf m \<Longrightarrow> om_wf (om_remove k m)"
  by (simp add: om_remove_def om_wf_filter)

lemma om_wf_om_retain: "om_wf m \<Longrightarrow> om_wf (om_retain p m)"
  by (simp add: om_retain_def om_wf_filter)

interpretation om: ordered_map "[]" om_insert om_remove om_get om_retain om_keys om_wf
proof
  show "om_get [] k = None" for k :: 'a by (simp add: om_get_def)
qed (simp_all add: om_get_om_insert om_wf_om_insert om_get_om_remove om_get_om_retain set_om_keys
    om_wf_om_remove om_wf_om_retain)

lemma om_wf_insert_all [simp]: "om_wf m \<Longrightarrow> om_wf (om_insert_all es m)"
  by (simp add: om_insert_all_def om.wf_fold_insert)

lemma om_get_insert_all: "om_wf m \<Longrightarrow> om_get (om_insert_all es m) = om_get m ++ map_of (rev es)"
  by (simp add: om_insert_all_def om.get_fold_insert)

lemma om_wf_of_list [simp]: "om_wf (om_of_list es)"
  by (simp add: om_of_list_def)

lemma map_of_rev_distinct: "distinct (map fst es) \<Longrightarrow> map_of (rev es) = map_of es"
  by (rule map_of_eqI) (auto simp: rev_map [symmetric] intro!: map_of_is_SomeI [THEN sym] dest: map_of_SomeD)

lemma om_get_of_list: "distinct (map fst es) \<Longrightarrow> om_get (om_of_list es) = map_of es"
  by (simp add: om_of_list_def om_get_insert_all map_of_rev_distinct) (simp add: om_get_eq)

lemma om_contains_iff: "om_contains m k \<longleftrightarrow> k \<in> set (om_keys m)"
  by (auto simp: om_contains_def set_om_keys)

lemma om_keys_map [simp]: "om_keys (map (\<lambda>e. (fst e, f e)) m) = om_keys m"
  by (simp add: om_keys_def comp_def)

lemma om_wf_map_values [simp]: "om_wf (map (\<lambda>e. (fst e, f e)) m) = om_wf m"
  by (simp add: om_wf_def)

lemma om_get_map_values: "om_get (map (\<lambda>e. (fst e, f (snd e))) m) k = map_option f (om_get m k)"
  by (induction m) (auto simp: om_get_def)

text \<open>Two ordered maps with the same contents are the same list.\<close>

lemma om_eqI:
  assumes "om_wf a" "om_wf b" "om_get a = om_get b"
  shows "a = b"
proof -
  have eq: "set a = set b"
    using assms by (auto simp: om_get_Some [symmetric])
  show ?thesis
    using eq assms(1,2)
    by (intro map_sorted_distinct_set_unique [of fst])
      (auto simp: om_wf_def om_keys_def strict_sorted_iff distinct_map)
qed

lemma om_of_list_id: "om_wf m \<Longrightarrow> om_of_list m = m"
  by (rule om_eqI) (simp_all add: om_get_of_list om_wf_distinct, simp add: om_get_eq)

lemma set_oset_insert [simp]: "set (oset_insert x xs) = insert x (set xs)"
  by (auto simp: oset_insert_def set_insort_key)

lemma set_oset_of_list [simp]: "set (oset_of_list xs) = set xs"
  by (simp add: oset_of_list_def)

lemma remdups_adj_sorted_distinct: "sorted xs \<Longrightarrow> distinct (remdups_adj xs)"
  by (induction xs rule: remdups_adj.induct) (auto split: if_splits)

lemma oset_of_list_sorted: "sorted (oset_of_list xs)" "distinct (oset_of_list xs)"
  by (simp_all add: oset_of_list_def sorted_remdups_adj remdups_adj_sorted_distinct)

lemma oset_of_list_id: "sorted xs \<Longrightarrow> distinct xs \<Longrightarrow> oset_of_list xs = xs"
  by (simp add: oset_of_list_def sorted_sort_id remdups_adj_distinct)

end
