(* ===== verification/Solana.thy ===== *)
theory Solana
  imports Ordered_Map
begin

text \<open>
  What the indexer calls of the Solana crates, as parameters of the model: the base58 text of
  public keys and signatures. The predicate \<open>codec_ok\<close> states the documented behaviour the
  indexer relies on (parsing what was displayed gives the value back; the text is not empty and
  holds no white space); \<open>decimal_codec\<close> is a concrete instance of it.
\<close>

record codec =
  key_str :: "pubkey \<Rightarrow> string"
  parse_key :: "string \<Rightarrow> pubkey option"
  sig_str :: "signature \<Rightarrow> string"
  parse_sig :: "string \<Rightarrow> signature option"

definition plain_text :: "string \<Rightarrow> bool" where
  "plain_text s \<longleftrightarrow> s \<noteq> [] \<and> (\<forall>c \<in> set s. c \<noteq> CHR '' '' \<and> c \<noteq> CHR 0x0A \<and> c \<noteq> CHR 0x0D)"

definition codec_ok :: "codec \<Rightarrow> bool" where
  "codec_ok C \<longleftrightarrow>
     (\<forall>k. parse_key C (key_str C k) = Some k) \<and> (\<forall>s. parse_sig C (sig_str C s) = Some s)
     \<and> (\<forall>s. plain_text (sig_str C s))"

lemma codec_key: "codec_ok C \<Longrightarrow> parse_key C (key_str C k) = Some k"
  by (simp add: codec_ok_def)

lemma codec_sig: "codec_ok C \<Longrightarrow> parse_sig C (sig_str C s) = Some s"
  by (simp add: codec_ok_def)

lemma codec_plain: "codec_ok C \<Longrightarrow> plain_text (sig_str C s)"
  by (simp add: codec_ok_def)

lemma codec_key_inj: "codec_ok C \<Longrightarrow> inj (key_str C)"
  by (metis codec_key injI option.inject)

lemma codec_sig_inj: "codec_ok C \<Longrightarrow> inj (sig_str C)"
  by (metis codec_sig injI option.inject)

text \<open>Decimal text, a codec for the witnesses.\<close>

definition parse_decimal :: "string \<Rightarrow> 'a::len word option" where
  "parse_decimal s =
     (if s \<noteq> [] \<and> list_all is_digit s \<and> digits_value s < 2 ^ LENGTH('a)
      then Some (of_nat (digits_value s)) else None)"

definition decimal_codec :: codec where
  "decimal_codec = \<lparr>key_str = show_u64, parse_key = parse_decimal,
     sig_str = show_u64, parse_sig = parse_decimal\<rparr>"

lemma parse_decimal_show [simp]: "parse_decimal (show_u64 w) = Some w"
  by (simp add: parse_decimal_def show_u64_def show_nat_digits)

lemma not_digit_cr [simp]: "\<not> is_digit (CHR 0x0D)"
  by (simp add: is_digit_def)

lemma plain_show_u64 [simp]: "plain_text (show_u64 w)"
  using show_nat_digits [of "unat w"] by (auto simp: plain_text_def show_u64_def list_all_iff)

lemma decimal_codec_ok [simp]: "codec_ok decimal_codec"
  by (simp add: codec_ok_def decimal_codec_def)

section \<open>Transactions\<close>

text \<open>
  The parts of a transaction the indexer reads. The decoded message and the rest of the status
  meta are opaque text.
\<close>

datatype 'a option_serializer = SerSome 'a | SerNone | SerSkip

record ui_meta =
  um_inner_instructions :: "string option_serializer"
  um_log_messages :: "string list option_serializer"
  um_rest :: string

record encoded_transaction =
  et_slot :: slot
  et_block_time :: "int option"
  et_meta :: "ui_meta option"
  et_transaction :: string

record tx_meta =
  tm_failed :: bool
  tm_log_messages :: "string list option"
  tm_rest :: string

record transaction_data =
  tu_signature :: signature
  tu_transaction :: string
  tu_meta :: tx_meta
  tu_is_vote :: bool
  tu_slot :: slot
  tu_index :: "u64 option"
  tu_block_time :: "int option"
  tu_block_hash :: "string option"

datatype update = TransactionUpdate transaction_data | OtherUpdate string

text \<open>
  The client of the RPC endpoint: an error response with its code, or any other error. Decoding
  a transaction and converting its meta are the libraries' functions, and the code an endpoint
  answers for an unsupported transaction version is their constant.
\<close>

datatype client_error = RpcResponseError int string | OtherClientError string

record rpc_library =
  decode_transaction :: "string \<Rightarrow> string option"
  convert_meta :: "ui_meta \<Rightarrow> string + tx_meta"
  unsupported_version :: int

section \<open>Errors of the poller\<close>

text \<open>
  An \<open>anyhow::Error\<close> with the two types the runtime downcasts to: a cursor beyond the confirmed
  head and a history that no longer reaches the checkpoint. Any other error keeps its text.
\<close>

datatype poll_error =
    Anyhow string
  | CursorAheadOfHead string slot slot   \<comment> \<open>address, cursor slot, head slot\<close>
  | HistoryUnavailable slot slot         \<comment> \<open>first available slot, checkpoint slot\<close>

end
