(* ===== verification/Progress.thy ===== *)
theory Progress
  imports Ordered_Map
begin

text \<open>
  The in-memory polling progress (\<open>rpc_polling/progress.rs\<close>): one cursor per monitored address,
  the signatures already recorded with their slots, and the transactions that failed to convert,
  up to their quarantine. The address cursor and the discovered batches (\<open>signatures.rs\<close>) are
  declared here because the progress operations read them.
\<close>

record address_cursor =
  scanned_slot :: slot

record discovered_signature =
  ds_signature :: signature
  ds_slot :: slot

record address_batch =
  batch_address :: pubkey
  batch_signatures :: "discovered_signature list"
  next_cursor :: address_cursor
  reached_replay_floor :: bool

record poison_failure =
  pf_attempts :: u32
  pf_quarantined :: bool

record polling_state =
  cursors :: "(string, address_cursor) omap"
  recent_signatures :: "(signature, slot) omap"
  poison_failures :: "(signature, poison_failure) omap"
  last_history_boundary_check :: "instant option"

record failure_disposition =
  fd_attempts :: u32
  fd_quarantined :: bool
  fd_newly_quarantined :: bool

record signature_context =
  ctx_slot :: slot
  ctx_addresses :: "string list"

definition polling_state_default :: polling_state where
  "polling_state_default = \<lparr>cursors = [], recent_signatures = [], poison_failures = [],
     last_history_boundary_check = None\<rparr>"

definition has_recent_signature :: "polling_state \<Rightarrow> signature \<Rightarrow> bool" where
  "has_recent_signature st s \<longleftrightarrow> om_contains (recent_signatures st) s"

definition record_recent_signature :: "signature \<Rightarrow> slot \<Rightarrow> polling_state \<Rightarrow> polling_state" where
  "record_recent_signature s sl st =
     st\<lparr>recent_signatures := om_insert s sl (recent_signatures st)\<rparr>"

definition recent_signature_count :: "polling_state \<Rightarrow> nat" where
  "recent_signature_count st = length (recent_signatures st)"

definition retain_signatures_after :: "slot \<Rightarrow> polling_state \<Rightarrow> polling_state" where
  "retain_signatures_after minimum st =
     st\<lparr>recent_signatures := om_retain (\<lambda>_ sl. minimum < sl) (recent_signatures st)\<rparr>"

definition history_boundary_check_due :: "polling_state \<Rightarrow> instant \<Rightarrow> duration \<Rightarrow> bool" where
  "history_boundary_check_due st now interval =
     (case last_history_boundary_check st of None \<Rightarrow> True | Some l \<Rightarrow> interval \<le> now - l)"

definition record_history_boundary_check :: "instant \<Rightarrow> polling_state \<Rightarrow> polling_state" where
  "record_history_boundary_check at st = st\<lparr>last_history_boundary_check := Some at\<rparr>"

definition record_poison_failure ::
  "signature \<Rightarrow> u32 \<Rightarrow> polling_state \<Rightarrow> failure_disposition \<times> polling_state" where
  "record_poison_failure s maximum st =
     (let failure = (case om_get (poison_failures st) s of
                       Some f \<Rightarrow> f | None \<Rightarrow> \<lparr>pf_attempts = 0, pf_quarantined = False\<rparr>);
          attempts = sat_add (pf_attempts failure) 1;
          failure' = (if pf_quarantined failure then failure
                      else \<lparr>pf_attempts = attempts, pf_quarantined = (maximum \<le> attempts)\<rparr>)
      in (\<lparr>fd_attempts = pf_attempts failure', fd_quarantined = pf_quarantined failure',
           fd_newly_quarantined = (\<not> pf_quarantined failure \<and> pf_quarantined failure')\<rparr>,
          st\<lparr>poison_failures := om_insert s failure' (poison_failures st)\<rparr>))"

definition clear_poison_failure :: "signature \<Rightarrow> polling_state \<Rightarrow> polling_state" where
  "clear_poison_failure s st = st\<lparr>poison_failures := om_remove s (poison_failures st)\<rparr>"

definition quarantined_signatures :: "polling_state \<Rightarrow> signature list" where
  "quarantined_signatures st = map fst (filter (\<lambda>e. pf_quarantined (snd e)) (poison_failures st))"

definition quarantined_transaction_count :: "polling_state \<Rightarrow> nat" where
  "quarantined_transaction_count st = length (quarantined_signatures st)"

definition restore_quarantined :: "signature list \<Rightarrow> polling_state \<Rightarrow> polling_state" where
  "restore_quarantined ss st =
     st\<lparr>poison_failures :=
          om_insert_all (map (\<lambda>s. (s, \<lparr>pf_attempts = - 1, pf_quarantined = True\<rparr>)) ss)
            (poison_failures st)\<rparr>"

text \<open>A \<open>HashMap\<close> of contexts as an association list; only lookups are made in it here.\<close>

type_synonym contexts = "(signature \<times> signature_context) list"

definition signature_is_ready :: "signature \<Rightarrow> contexts \<Rightarrow> string list \<Rightarrow> bool" where
  "signature_is_ready s ctxs blocked =
     (case map_of ctxs s of
        None \<Rightarrow> False
      | Some c \<Rightarrow> set (ctx_addresses c) \<inter> set blocked = {})"

definition batch_blocked :: "address_batch \<Rightarrow> signature list \<Rightarrow> bool" where
  "batch_blocked b retrying \<longleftrightarrow>
     list_ex (\<lambda>d. ds_signature d \<in> set retrying) (batch_signatures b)"

fun advance_ready_cursors ::
  "(pubkey \<Rightarrow> string) \<Rightarrow> address_batch list \<Rightarrow> signature list \<Rightarrow> polling_state \<Rightarrow> bool \<times> polling_state"
where
  "advance_ready_cursors key_str [] retrying st = (False, st)"
| "advance_ready_cursors key_str (b # bs) retrying st =
     (if batch_blocked b retrying then advance_ready_cursors key_str bs retrying st
      else let st' = st\<lparr>cursors := om_insert (key_str (batch_address b)) (next_cursor b) (cursors st)\<rparr>;
               r = advance_ready_cursors key_str bs retrying st'
           in (batch_signatures b \<noteq> [] \<or> fst r, snd r))"

section \<open>The representation invariant\<close>

definition state_wf :: "polling_state \<Rightarrow> bool" where
  "state_wf st \<longleftrightarrow>
     om_wf (cursors st) \<and> om_wf (recent_signatures st) \<and> om_wf (poison_failures st)"

lemma state_wf_default [simp]: "state_wf polling_state_default"
  by (simp add: state_wf_def polling_state_default_def)

lemma state_wf_record_recent [simp]: "state_wf st \<Longrightarrow> state_wf (record_recent_signature s sl st)"
  by (simp add: state_wf_def record_recent_signature_def om_wf_om_insert)

lemma state_wf_retain [simp]: "state_wf st \<Longrightarrow> state_wf (retain_signatures_after m st)"
  by (simp add: state_wf_def retain_signatures_after_def om_wf_om_retain)

lemma state_wf_boundary [simp]: "state_wf (record_history_boundary_check at st) = state_wf st"
  by (simp add: state_wf_def record_history_boundary_check_def)

lemma state_wf_poison [simp]: "state_wf st \<Longrightarrow> state_wf (snd (record_poison_failure s m st))"
  by (simp add: state_wf_def record_poison_failure_def Let_def om_wf_om_insert)

lemma state_wf_clear [simp]: "state_wf st \<Longrightarrow> state_wf (clear_poison_failure s st)"
  by (simp add: state_wf_def clear_poison_failure_def om_wf_om_remove)

lemma state_wf_restore [simp]: "state_wf st \<Longrightarrow> state_wf (restore_quarantined ss st)"
  by (simp add: state_wf_def restore_quarantined_def)

lemma state_wf_set_cursors: "state_wf st \<Longrightarrow> om_wf c \<Longrightarrow> state_wf (st\<lparr>cursors := c\<rparr>)"
  by (simp add: state_wf_def)

section \<open>Frames\<close>

lemma record_recent_frame [simp]:
  "cursors (record_recent_signature s sl st) = cursors st"
  "poison_failures (record_recent_signature s sl st) = poison_failures st"
  "last_history_boundary_check (record_recent_signature s sl st) = last_history_boundary_check st"
  by (simp_all add: record_recent_signature_def)

lemma retain_frame [simp]:
  "cursors (retain_signatures_after m st) = cursors st"
  "poison_failures (retain_signatures_after m st) = poison_failures st"
  by (simp_all add: retain_signatures_after_def)

lemma boundary_frame [simp]:
  "cursors (record_history_boundary_check at st) = cursors st"
  "recent_signatures (record_history_boundary_check at st) = recent_signatures st"
  "poison_failures (record_history_boundary_check at st) = poison_failures st"
  by (simp_all add: record_history_boundary_check_def)

lemma poison_frame [simp]:
  "cursors (snd (record_poison_failure s m st)) = cursors st"
  "recent_signatures (snd (record_poison_failure s m st)) = recent_signatures st"
  by (simp_all add: record_poison_failure_def Let_def)

lemma clear_frame [simp]:
  "cursors (clear_poison_failure s st) = cursors st"
  "recent_signatures (clear_poison_failure s st) = recent_signatures st"
  by (simp_all add: clear_poison_failure_def)

lemma restore_frame [simp]:
  "cursors (restore_quarantined ss st) = cursors st"
  "recent_signatures (restore_quarantined ss st) = recent_signatures st"
  by (simp_all add: restore_quarantined_def)

lemma advance_frame [simp]:
  "recent_signatures (snd (advance_ready_cursors ks bs r st)) = recent_signatures st"
  "poison_failures (snd (advance_ready_cursors ks bs r st)) = poison_failures st"
  by (induction ks bs r st rule: advance_ready_cursors.induct) (auto simp: Let_def)

lemma state_wf_advance [simp]: "state_wf st \<Longrightarrow> state_wf (snd (advance_ready_cursors ks bs r st))"
  by (induction ks bs r st rule: advance_ready_cursors.induct)
    (auto simp: Let_def state_wf_def om_wf_om_insert)

section \<open>Recorded signatures\<close>

lemma has_recent_record [simp]:
  "state_wf st \<Longrightarrow>
    has_recent_signature (record_recent_signature s sl st) t \<longleftrightarrow> t = s \<or> has_recent_signature st t"
  by (auto simp: has_recent_signature_def om_contains_def record_recent_signature_def state_wf_def
      om_get_om_insert)

lemma has_recent_poison [simp]:
  "has_recent_signature (snd (record_poison_failure s m st)) t = has_recent_signature st t"
  "has_recent_signature (clear_poison_failure s st) t = has_recent_signature st t"
  "has_recent_signature (record_history_boundary_check at st) t = has_recent_signature st t"
  "has_recent_signature (snd (advance_ready_cursors ks bs r st)) t = has_recent_signature st t"
  by (simp_all add: has_recent_signature_def)

lemma recent_retain:
  "state_wf st \<Longrightarrow>
    om_get (recent_signatures (retain_signatures_after m st)) s = Some sl \<longleftrightarrow>
    om_get (recent_signatures st) s = Some sl \<and> m < sl"
  by (simp add: retain_signatures_after_def state_wf_def om.get_retain_Some)

section \<open>Cursors\<close>

text \<open>
  An address advances exactly when none of its batches holds a signature still being retried; a
  blocked address keeps its cursor.
\<close>

lemma advance_cursor_get:
  assumes "om_wf (cursors st)" "distinct (map (\<lambda>b. key_str (batch_address b)) bs)"
  shows "om_get (cursors (snd (advance_ready_cursors key_str bs retrying st))) a =
    (case List.find (\<lambda>b. key_str (batch_address b) = a \<and> \<not> batch_blocked b retrying) bs of
       Some b \<Rightarrow> Some (next_cursor b)
     | None \<Rightarrow> om_get (cursors st) a)"
  using assms
proof (induction key_str bs retrying st rule: advance_ready_cursors.induct)
  case (2 key_str b bs retrying st)
  show ?case
  proof (cases "batch_blocked b retrying")
    case True
    with 2 show ?thesis by simp
  next
    case False
    let ?st = "st\<lparr>cursors := om_insert (key_str (batch_address b)) (next_cursor b) (cursors st)\<rparr>"
    have "key_str (batch_address c) \<noteq> key_str (batch_address b)" if "c \<in> set bs" for c
    proof -
      have "key_str (batch_address c) \<in> set (map (\<lambda>b. key_str (batch_address b)) bs)"
        using that by auto
      then show ?thesis using "2.prems"(2) by auto
    qed
    then have none: "List.find (\<lambda>c. key_str (batch_address c) = key_str (batch_address b)
        \<and> \<not> batch_blocked c retrying) bs = None"
      by (auto simp: find_None_iff)
    have step: "om_get (cursors (snd (advance_ready_cursors key_str bs retrying ?st))) a =
      (case List.find (\<lambda>b. key_str (batch_address b) = a \<and> \<not> batch_blocked b retrying) bs of
         Some b \<Rightarrow> Some (next_cursor b)
       | None \<Rightarrow> om_get (cursors ?st) a)"
      using 2 False by (simp add: om_wf_om_insert)
    show ?thesis
      using False none step "2.prems"(1)
      by (cases "key_str (batch_address b) = a")
        (simp_all add: Let_def om_get_om_insert split: option.splits)
  qed
qed simp

lemma advance_blocked_cursor:
  assumes "om_wf (cursors st)" "inj key_str" "distinct (map batch_address bs)"
    and "b \<in> set bs" "batch_blocked b retrying"
  shows "om_get (cursors (snd (advance_ready_cursors key_str bs retrying st)))
           (key_str (batch_address b))
         = om_get (cursors st) (key_str (batch_address b))"
proof -
  have d: "distinct (map (\<lambda>b. key_str (batch_address b)) bs)"
    by (rule distinct_map_inj [OF assms(2,3)])
  have "List.find (\<lambda>c. key_str (batch_address c) = key_str (batch_address b)
      \<and> \<not> batch_blocked c retrying) bs = None"
    using distinct_map_eq [OF d _ assms(4)] assms(5) by (auto simp: find_None_iff)
  then show ?thesis
    using advance_cursor_get [OF assms(1) d] by simp
qed

lemma advance_ready_cursor:
  assumes "om_wf (cursors st)" "inj key_str" "distinct (map batch_address bs)"
    and "b \<in> set bs" "\<not> batch_blocked b retrying"
  shows "om_get (cursors (snd (advance_ready_cursors key_str bs retrying st)))
           (key_str (batch_address b))
         = Some (next_cursor b)"
proof -
  have d: "distinct (map (\<lambda>b. key_str (batch_address b)) bs)"
    by (rule distinct_map_inj [OF assms(2,3)])
  obtain c where c: "List.find (\<lambda>c. key_str (batch_address c) = key_str (batch_address b)
      \<and> \<not> batch_blocked c retrying) bs = Some c"
    using assms(4,5)
    by (cases "List.find (\<lambda>c. key_str (batch_address c) = key_str (batch_address b)
        \<and> \<not> batch_blocked c retrying) bs") (auto simp: find_None_iff)
  then have "c \<in> set bs" "key_str (batch_address c) = key_str (batch_address b)"
    by (auto simp: find_Some_iff)
  with assms(4) have "c = b"
    by (intro distinct_map_eq [OF d])
  with c show ?thesis
    using advance_cursor_get [OF assms(1) d] by simp
qed

section \<open>Quarantine\<close>

text \<open>The n-th confirmation of a permanent failure of one signature.\<close>

primrec poison_times :: "nat \<Rightarrow> signature \<Rightarrow> u32 \<Rightarrow> polling_state \<Rightarrow> polling_state" where
  "poison_times 0 s m st = st"
| "poison_times (Suc n) s m st = snd (record_poison_failure s m (poison_times n s m st))"

lemma poison_times_wf [simp]: "state_wf st \<Longrightarrow> state_wf (poison_times n s m st)"
  by (induction n) auto

definition next_failure :: "u32 \<Rightarrow> poison_failure \<Rightarrow> poison_failure" where
  "next_failure m f = (if pf_quarantined f then f
     else \<lparr>pf_attempts = sat_add (pf_attempts f) 1, pf_quarantined = (m \<le> sat_add (pf_attempts f) 1)\<rparr>)"

definition failure_of :: "signature \<Rightarrow> polling_state \<Rightarrow> poison_failure" where
  "failure_of s st = (case om_get (poison_failures st) s of
     Some f \<Rightarrow> f | None \<Rightarrow> \<lparr>pf_attempts = 0, pf_quarantined = False\<rparr>)"

lemma record_poison_self:
  "state_wf st \<Longrightarrow>
    failure_of s (snd (record_poison_failure s m st)) = next_failure m (failure_of s st)"
  "fst (record_poison_failure s m st) =
    \<lparr>fd_attempts = pf_attempts (next_failure m (failure_of s st)),
     fd_quarantined = pf_quarantined (next_failure m (failure_of s st)),
     fd_newly_quarantined =
       (\<not> pf_quarantined (failure_of s st) \<and> pf_quarantined (next_failure m (failure_of s st)))\<rparr>"
  by (simp_all add: record_poison_failure_def Let_def failure_of_def next_failure_def om_get_om_insert
      state_wf_def split: option.splits)

text \<open>The entry after \<open>n\<close> failures of a bound \<open>m\<close>.\<close>

definition failures_at :: "u32 \<Rightarrow> nat \<Rightarrow> poison_failure" where
  "failures_at m n = \<lparr>pf_attempts = of_nat (min n (unat m)), pf_quarantined = (unat m \<le> n)\<rparr>"

lemma next_failures_at: "0 < m \<Longrightarrow> next_failure m (failures_at m n) = failures_at m (Suc n)"
proof (cases "n < unat m")
  case True
  have "unat m < 4294967296" using unsigned_less [of m] by simp
  with True have s: "unat (of_nat (Suc n) :: u32) = Suc n" "unat (of_nat n :: u32) = n"
    by (simp_all add: unat_of_nat take_bit_nat_eq_self del: of_nat_Suc)
  then have "sat_add (of_nat n) (1 :: u32) = of_nat (Suc n)"
    using True \<open>unat m < _\<close> by (simp add: sat_add_def s(2))
  then show ?thesis
    using True s(1) by (simp add: next_failure_def failures_at_def min_def word_le_nat_alt del: of_nat_Suc)
qed (simp add: next_failure_def failures_at_def min_def)

lemma poison_times_failure:
  assumes "state_wf st" "om_get (poison_failures st) s = None" "0 < m"
  shows "failure_of s (poison_times n s m st) = failures_at m n"
proof (induction n)
  case 0
  have "0 < unat m" using assms(3) by (simp add: slot_less)
  then show ?case using assms(2) by (simp add: failure_of_def failures_at_def)
next
  case (Suc n)
  then show ?case
    by (simp add: record_poison_self(1) poison_times_wf [OF assms(1)] next_failures_at [OF assms(3)])
qed

text \<open>
  C10: A signature whose failures are permanent is quarantined at exactly the bounded number of
  confirmations, is reported as newly quarantined exactly then, and stays quarantined with its
  attempts no longer counted.
\<close>

theorem quarantine_after_bounded_attempts:
  assumes "state_wf st" "om_get (poison_failures st) s = None" "0 < m"
  shows "fst (record_poison_failure s m (poison_times n s m st)) =
    \<lparr>fd_attempts = of_nat (min (Suc n) (unat m)), fd_quarantined = (unat m \<le> Suc n),
     fd_newly_quarantined = (unat m = Suc n)\<rparr>"
  unfolding record_poison_self(2) poison_times_failure [OF assms] next_failures_at [OF assms(3)]
  by (auto simp: failures_at_def)

theorem quarantine_after_bounded_attempts_witness:
  "fd_newly_quarantined (fst (record_poison_failure 7 5 (poison_times 4 7 5 polling_state_default)))
   \<and> \<not> fd_quarantined (fst (record_poison_failure 7 5 (poison_times 3 7 5 polling_state_default)))"
  using quarantine_after_bounded_attempts [OF state_wf_default, of 7 5 4]
    quarantine_after_bounded_attempts [OF state_wf_default, of 7 5 3]
  by (simp add: polling_state_default_def om_get_def)

end
