(* ===== verification/Signatures.thy ===== *)
theory Signatures
  imports Solana Progress
begin

text \<open>
  Signature discovery (\<open>rpc_polling/signatures.rs\<close>): one address is paged backwards through
  \<open>getSignaturesForAddress\<close> down to the replay floor. The endpoint is a parameter: the answer to
  the n-th request of the crawl, given the \<open>before\<close> cursor. Nothing bounds the number of pages, so
  the loop is a partial function; \<open>discover_complete\<close> shows it returns, and what, for an endpoint
  that serves a fixed history.
\<close>

definition signature_page_limit :: nat where
  "signature_page_limit = 1000"

definition replica_skew_slots :: slot where
  "replica_skew_slots = 32"

definition min_context_slot :: "slot \<Rightarrow> slot \<Rightarrow> slot" where
  "min_context_slot head replay_window = sat_sub head (min replica_skew_slots replay_window)"

type_synonym signature_page = "(slot \<times> string) list"

fun append_signature_page ::
  "codec \<Rightarrow> signature_page \<Rightarrow> slot \<Rightarrow> discovered_signature list \<Rightarrow> slot option
   \<Rightarrow> poll_error + (bool \<times> discovered_signature list \<times> slot option)"
where
  "append_signature_page C [] floor sigs newest = Inr (False, sigs, newest)"
| "append_signature_page C ((sl, encoded) # page) floor sigs newest =
     (if sl \<le> floor then Inr (True, sigs, newest)
      else case parse_sig C encoded of
        None \<Rightarrow> Inl (Anyhow (''RPC returned invalid signature '' @ encoded))
      | Some s \<Rightarrow>
          append_signature_page C page floor (sigs @ [\<lparr>ds_signature = s, ds_slot = sl\<rparr>])
            (case newest of None \<Rightarrow> Some sl | Some _ \<Rightarrow> newest))"

text \<open>The page request of the crawl: request number, \<open>before\<close> and minimum context slot.\<close>

type_synonym page_request = "nat \<Rightarrow> string option \<Rightarrow> slot \<Rightarrow> string + signature_page"

partial_function (option) discover_loop ::
  "codec \<Rightarrow> page_request \<Rightarrow> string \<Rightarrow> slot \<Rightarrow> slot \<Rightarrow> nat \<Rightarrow> signature option
   \<Rightarrow> discovered_signature list \<Rightarrow> slot option
   \<Rightarrow> (poll_error + (discovered_signature list \<times> slot option \<times> bool)) option"
where
  "discover_loop C request address floor min_context n before sigs newest =
     (case request n (map_option (sig_str C) before) min_context of
        Inl e \<Rightarrow> Some (Inl (Anyhow (''failed to fetch signatures for '' @ address)))
      | Inr page \<Rightarrow>
          if page = [] then Some (Inr (sigs, newest, False))
          else case append_signature_page C page floor sigs newest of
            Inl e \<Rightarrow> Some (Inl e)
          | Inr r \<Rightarrow>
              if fst r then Some (Inr (fst (snd r), snd (snd r), True))
              else if length page < signature_page_limit
              then Some (Inr (fst (snd r), snd (snd r), False))
              else if fst (snd r) = [] then Some (Inr (fst (snd r), snd (snd r), False))
              else discover_loop C request address floor min_context (Suc n)
                     (Some (ds_signature (last (fst (snd r))))) (fst (snd r)) (snd (snd r)))"

definition replay_floor :: "address_cursor \<Rightarrow> slot \<Rightarrow> slot" where
  "replay_floor cursor replay_window = sat_sub (scanned_slot cursor) replay_window"

definition discover_signatures ::
  "codec \<Rightarrow> page_request \<Rightarrow> pubkey \<Rightarrow> address_cursor \<Rightarrow> slot \<Rightarrow> slot
   \<Rightarrow> (poll_error + address_batch) option"
where
  "discover_signatures C request address cursor head replay_window =
     map_option
       (\<lambda>r. case r of
          Inl e \<Rightarrow> Inl e
        | Inr (sigs, newest, reached) \<Rightarrow>
            Inr \<lparr>batch_address = address, batch_signatures = sigs,
                 next_cursor = \<lparr>scanned_slot = max head
                   (case newest of None \<Rightarrow> scanned_slot cursor | Some sl \<Rightarrow> sl)\<rparr>,
                 reached_replay_floor = reached\<rparr>)
       (discover_loop C request (key_str C address) (replay_floor cursor replay_window)
          (min_context_slot head replay_window) 0 None [] None)"

lemma discover_stop_empty:
  "request n (map_option (sig_str C) before) mc = Inr [] \<Longrightarrow>
   discover_loop C request address floor mc n before sigs newest = Some (Inr (sigs, newest, False))"
  by (subst discover_loop.simps) simp

lemma discover_stop:
  "request n (map_option (sig_str C) before) mc = Inr page \<Longrightarrow> page \<noteq> [] \<Longrightarrow>
   append_signature_page C page floor sigs newest = Inr (reached, ss, nw) \<Longrightarrow>
   reached \<or> length page < signature_page_limit \<or> ss = [] \<Longrightarrow>
   discover_loop C request address floor mc n before sigs newest = Some (Inr (ss, nw, reached))"
  by (subst discover_loop.simps) auto

lemma discover_continue:
  "request n (map_option (sig_str C) before) mc = Inr page \<Longrightarrow> page \<noteq> [] \<Longrightarrow>
   append_signature_page C page floor sigs newest = Inr (False, ss, nw) \<Longrightarrow>
   \<not> length page < signature_page_limit \<Longrightarrow> ss \<noteq> [] \<Longrightarrow>
   discover_loop C request address floor mc n before sigs newest =
     discover_loop C request address floor mc (Suc n) (Some (ds_signature (last ss))) ss nw"
  by (subst discover_loop.simps) simp

lemma discover_cases:
  assumes "discover_signatures C request address cursor head w = Some (Inr b)"
  obtains sigs newest reached where
    "discover_loop C request (key_str C address) (replay_floor cursor w)
       (min_context_slot head w) 0 None [] None = Some (Inr (sigs, newest, reached))"
    "b = \<lparr>batch_address = address, batch_signatures = sigs,
       next_cursor = \<lparr>scanned_slot = max head
         (case newest of None \<Rightarrow> scanned_slot cursor | Some sl \<Rightarrow> sl)\<rparr>,
       reached_replay_floor = reached\<rparr>"
proof -
  obtain r where r: "discover_loop C request (key_str C address) (replay_floor cursor w)
       (min_context_slot head w) 0 None [] None = Some r"
    using assms by (auto simp: discover_signatures_def)
  with assms obtain x where x: "r = Inr x"
    by (cases r) (auto simp: discover_signatures_def)
  obtain sigs newest reached where "x = (sigs, newest, reached)" by (cases x)
  with r x assms that show thesis by (auto simp: discover_signatures_def)
qed

section \<open>Any endpoint\<close>

text \<open>
  What holds of every entry above the floor that the endpoint's pages hold, holds of every
  signature the crawl keeps.
\<close>

definition pages_satisfy ::
  "codec \<Rightarrow> page_request \<Rightarrow> slot \<Rightarrow> (discovered_signature \<Rightarrow> bool) \<Rightarrow> bool" where
  "pages_satisfy C request floor P \<longleftrightarrow>
     (\<forall>n before mc page. request n before mc = Inr page \<longrightarrow>
        (\<forall>e \<in> set page. \<forall>s. parse_sig C (snd e) = Some s \<longrightarrow> floor < fst e \<longrightarrow>
           P \<lparr>ds_signature = s, ds_slot = fst e\<rparr>))"

lemma append_page_all:
  "append_signature_page C page floor sigs newest = Inr (reached, sigs', newest') \<Longrightarrow>
   (\<forall>d \<in> set sigs. P d) \<Longrightarrow>
   (\<forall>e \<in> set page. \<forall>s. parse_sig C (snd e) = Some s \<longrightarrow> floor < fst e \<longrightarrow>
      P \<lparr>ds_signature = s, ds_slot = fst e\<rparr>) \<Longrightarrow>
   (\<forall>d \<in> set sigs'. P d)"
  by (induction C page floor sigs newest rule: append_signature_page.induct)
    (auto simp: not_le split: if_splits option.splits)

lemma discover_loop_all:
  assumes "discover_loop C request address floor mc n before sigs newest = Some r"
  shows "pages_satisfy C request floor P \<longrightarrow> (\<forall>d \<in> set sigs. P d) \<longrightarrow>
    (\<forall>x. r = Inr x \<longrightarrow> (\<forall>d \<in> set (fst x). P d))"
proof (rule discover_loop.raw_induct [where P = "\<lambda>C request address floor mc n before sigs newest r.
    pages_satisfy C request floor P \<longrightarrow> (\<forall>d \<in> set sigs. P d) \<longrightarrow>
    (\<forall>x. r = Inr x \<longrightarrow> (\<forall>d \<in> set (fst x). P d))", OF _ assms], goal_cases)
  case (1 loop C request address floor mc n before sigs newest r)
  note IH = "1"(1) and eq = "1"(2)
  show ?case
  proof (intro impI)
    assume pages: "pages_satisfy C request floor P" and sigs: "\<forall>d \<in> set sigs. P d"
    show "\<forall>x. r = Inr x \<longrightarrow> (\<forall>d \<in> set (fst x). P d)"
    proof (cases "request n (map_option (sig_str C) before) mc")
      case (Inl e)
      with eq show ?thesis by auto
    next
      case page: (Inr page)
      show ?thesis
      proof (cases "append_signature_page C page floor sigs newest")
        case (Inl e)
        with eq page sigs show ?thesis by (auto split: if_splits)
      next
        case (Inr t)
        obtain b ss nw where t: "t = (b, ss, nw)" by (cases t)
        have "\<forall>d \<in> set ss. P d"
          using append_page_all [OF Inr [unfolded t] sigs] pages page
          unfolding pages_satisfy_def by blast
        with page Inr t eq sigs pages IH show ?thesis
          by (auto split: if_splits)
      qed
    qed
  qed
qed

section \<open>An endpoint that serves a history\<close>

text \<open>
  The documented behaviour of \<open>getSignaturesForAddress\<close>: the newest entries after \<open>before\<close> in the
  address's history, newest first, at most a page of them.
\<close>

fun after_signature :: "string \<Rightarrow> signature_page \<Rightarrow> signature_page" where
  "after_signature b [] = []"
| "after_signature b (e # es) = (if snd e = b then es else after_signature b es)"

definition encode_history :: "codec \<Rightarrow> discovered_signature list \<Rightarrow> signature_page" where
  "encode_history C h = map (\<lambda>d. (ds_slot d, sig_str C (ds_signature d))) h"

definition serve_page :: "codec \<Rightarrow> discovered_signature list \<Rightarrow> string option \<Rightarrow> signature_page" where
  "serve_page C h before =
     take signature_page_limit
       (case before of None \<Rightarrow> encode_history C h | Some b \<Rightarrow> after_signature b (encode_history C h))"

definition serves_history :: "codec \<Rightarrow> discovered_signature list \<Rightarrow> page_request \<Rightarrow> bool" where
  "serves_history C h request \<longleftrightarrow>
     distinct (map ds_signature h) \<and> (\<forall>n before mc. request n before mc = Inr (serve_page C h before))"

abbreviation above_floor :: "slot \<Rightarrow> discovered_signature list \<Rightarrow> discovered_signature list" where
  "above_floor floor h \<equiv> takeWhile (\<lambda>d. floor < ds_slot d) h"

definition newest_of :: "slot option \<Rightarrow> discovered_signature list \<Rightarrow> slot option" where
  "newest_of newest h =
     (case newest of Some sl \<Rightarrow> Some sl
      | None \<Rightarrow> (case h of [] \<Rightarrow> None | d # _ \<Rightarrow> Some (ds_slot d)))"

lemma append_encoded:
  assumes "codec_ok C"
  shows "append_signature_page C (encode_history C h) floor sigs newest =
    Inr (list_ex (\<lambda>d. ds_slot d \<le> floor) h, sigs @ above_floor floor h,
         newest_of newest (above_floor floor h))"
proof (induction h arbitrary: sigs newest)
  case Nil
  then show ?case by (simp add: encode_history_def newest_of_def split: option.splits)
next
  case (Cons d h)
  then show ?case
    using codec_sig [OF assms]
    by (auto simp: encode_history_def newest_of_def not_le split: option.splits)
qed

lemma after_signature_last:
  assumes "codec_ok C" "distinct (map ds_signature (p @ r))" "p \<noteq> []"
  shows "after_signature (sig_str C (ds_signature (last p))) (encode_history C (p @ r)) =
    encode_history C r"
  using assms(2,3)
proof (induction p)
  case (Cons d p)
  show ?case
  proof (cases "p = []")
    case True
    then show ?thesis by (simp add: encode_history_def)
  next
    case False
    then have "ds_signature (last p) \<noteq> ds_signature d"
      using Cons.prems(1) by (metis (no_types, lifting) append_Cons distinct.simps(2) image_eqI
          last_in_set list.set_map list.simps(9) map_append Un_iff set_append)
    then show ?thesis
      using Cons False codec_sig_inj [OF assms(1)] by (auto simp: encode_history_def inj_eq)
  qed
qed simp

lemma encode_take: "take n (encode_history C h) = encode_history C (take n h)"
  by (simp add: encode_history_def take_map)

lemma encode_simps [simp]:
  "encode_history C h = [] \<longleftrightarrow> h = []"
  "length (encode_history C h) = length h"
  by (simp_all add: encode_history_def)

lemma discover_loop_history:
  assumes ok: "codec_ok C" and serves: "serves_history C (p @ r) request"
    and above: "\<forall>d \<in> set p. floor < ds_slot d"
    and before: "before = (if p = [] then None else Some (ds_signature (last p)))"
    and newest: "newest = newest_of None p"
  shows "discover_loop C request address floor mc n before p newest =
    Some (Inr (above_floor floor (p @ r), newest_of None (above_floor floor (p @ r)),
      list_ex (\<lambda>d. ds_slot d \<le> floor) r))"
  using serves above before newest
proof (induction "length r" arbitrary: p r n before newest rule: less_induct)
  case less
  let ?page = "take signature_page_limit r"
  have dist: "distinct (map ds_signature (p @ r))"
    using less.prems(1) by (simp add: serves_history_def)
  have page: "request n (map_option (sig_str C) before) mc = Inr (encode_history C ?page)"
    using less.prems(1,3) after_signature_last [OF ok dist]
    by (auto simp: serves_history_def serve_page_def encode_take)
  have app: "append_signature_page C (encode_history C ?page) floor p newest =
      Inr (list_ex (\<lambda>d. ds_slot d \<le> floor) ?page, p @ above_floor floor ?page,
           newest_of newest (above_floor floor ?page))"
    by (rule append_encoded [OF ok])
  have whole: "above_floor floor (p @ r) = p @ above_floor floor r"
    using less.prems(2) by (simp add: takeWhile_append2)
  have nw: "newest_of newest x = newest_of None (p @ x)" for x
    using less.prems(4) by (cases p) (auto simp: newest_of_def)
  have limit: "0 < signature_page_limit" by (simp add: signature_page_limit_def)
  show ?case
  proof (cases "list_ex (\<lambda>d. ds_slot d \<le> floor) ?page")
    case True
    then obtain d where d: "d \<in> set ?page" "\<not> floor < ds_slot d"
      by (auto simp: list_ex_iff)
    have "above_floor floor (?page @ drop signature_page_limit r) = above_floor floor ?page"
      by (rule takeWhile_append1 [OF d(1)]) (rule d(2))
    then have "above_floor floor r = above_floor floor ?page"
      by (simp only: append_take_drop_id)
    moreover have "list_ex (\<lambda>d. ds_slot d \<le> floor) r"
      using True by (auto simp: list_ex_iff dest: in_set_takeD)
    moreover have "encode_history C ?page \<noteq> []"
      using True limit by (auto simp: list_ex_iff)
    ultimately show ?thesis
      using True whole nw
      by (subst discover_stop [of request n C before mc, OF page]) (auto simp: app)
  next
    case False
    then have all: "\<forall>d \<in> set ?page. floor < ds_slot d" by (auto simp: list_ex_iff not_le)
    then have pg: "above_floor floor ?page = ?page" by (simp add: takeWhile_eq_all_conv)
    show ?thesis
    proof (cases "length ?page < signature_page_limit")
      case True
      then have r: "?page = r" by (simp add: min_def split: if_splits)
      show ?thesis
      proof (cases "r = []")
        case True
        then have all: "above_floor floor (p @ r) = p"
          using less.prems(2) by (simp add: takeWhile_eq_all_conv)
        have "request n (map_option (sig_str C) before) mc = Inr []"
          using page True by (simp add: encode_history_def)
        note stop = discover_stop_empty [of request n C before mc, OF this]
        show ?thesis
          unfolding stop all using True less.prems(4) by simp
      next
        case nonempty: False
        show ?thesis
          using False True r nonempty whole nw pg app
          by (subst discover_stop [of request n C before mc, OF page]) auto
      qed
    next
      case full: False
      let ?p = "p @ ?page" and ?r = "drop signature_page_limit r"
      have ne: "?page \<noteq> []" using full limit by auto
      then have lt: "length ?r < length r" using limit by auto
      have split: "p @ r = ?p @ ?r" by simp
      have IH: "discover_loop C request address floor mc (Suc n)
          (Some (ds_signature (last ?p))) ?p (newest_of None ?p) =
        Some (Inr (above_floor floor (?p @ ?r), newest_of None (above_floor floor (?p @ ?r)),
          list_ex (\<lambda>d. ds_slot d \<le> floor) ?r))"
        by (rule less.hyps [OF lt]) (use less.prems(1,2) all ne in auto)
      have rest: "list_ex (\<lambda>d. ds_slot d \<le> floor) ?r = list_ex (\<lambda>d. ds_slot d \<le> floor) r"
        using False by (metis append_take_drop_id list_ex_append)
      have step: "discover_loop C request address floor mc n before p newest =
          discover_loop C request address floor mc (Suc n)
            (Some (ds_signature (last ?p))) ?p (newest_of None ?p)"
        by (rule discover_continue [of request n C before mc, OF page]) (use app False pg full ne nw in auto)
      show ?thesis
        unfolding step IH rest by simp
    qed
  qed
qed

lemma discover_history:
  assumes "codec_ok C" "serves_history C h request"
  shows "discover_signatures C request address cursor head w =
    Some (Inr \<lparr>batch_address = address,
      batch_signatures = above_floor (replay_floor cursor w) h,
      next_cursor = \<lparr>scanned_slot = max head
        (case newest_of None (above_floor (replay_floor cursor w) h) of
           None \<Rightarrow> scanned_slot cursor | Some sl \<Rightarrow> sl)\<rparr>,
      reached_replay_floor = list_ex (\<lambda>d. ds_slot d \<le> replay_floor cursor w) h\<rparr>)"
  using discover_loop_history [of C "[]" h request] assms
  by (simp add: discover_signatures_def newest_of_def)

lemma discover_batch_address:
  "discover_signatures C request address cursor head w = Some (Inr b) \<Longrightarrow> batch_address b = address"
  by (erule discover_cases) simp

lemma discover_next_cursor:
  "discover_signatures C request address cursor head w = Some (Inr b) \<Longrightarrow>
    head \<le> scanned_slot (next_cursor b)"
  by (erule discover_cases) simp

lemma discover_all_signatures:
  assumes "discover_signatures C request address cursor head w = Some (Inr b)"
    and "pages_satisfy C request (replay_floor cursor w) P" "d \<in> set (batch_signatures b)"
  shows "P d"
  using assms(1)
proof (rule discover_cases)
  fix sigs newest reached
  assume loop: "discover_loop C request (key_str C address) (replay_floor cursor w)
       (min_context_slot head w) 0 None [] None = Some (Inr (sigs, newest, reached))"
    and b: "b = \<lparr>batch_address = address, batch_signatures = sigs,
       next_cursor = \<lparr>scanned_slot = max head
         (case newest of None \<Rightarrow> scanned_slot cursor | Some sl \<Rightarrow> sl)\<rparr>,
       reached_replay_floor = reached\<rparr>"
  show ?thesis
    using discover_loop_all [OF loop, of P] assms(2,3) b by simp
qed

lemma discover_above:
  assumes "discover_signatures C request address cursor head w = Some (Inr b)"
    and "d \<in> set (batch_signatures b)"
  shows "replay_floor cursor w < ds_slot d"
  using discover_all_signatures [OF assms(1) _ assms(2), of "\<lambda>d. replay_floor cursor w < ds_slot d"]
  by (simp add: pages_satisfy_def)

section \<open>Properties\<close>

lemma takeWhile_filter_descending:
  "sorted_wrt (\<lambda>a b. ds_slot b \<le> ds_slot a) h \<Longrightarrow> above_floor floor h = filter (\<lambda>d. floor < ds_slot d) h"
proof (induction h)
  case (Cons d h)
  then have "\<not> floor < ds_slot d \<Longrightarrow> filter (\<lambda>d. floor < ds_slot d) h = []"
    by (auto simp: filter_empty_conv not_less intro: order_trans)
  with Cons show ?case by auto
qed simp

text \<open>
  C6: Against an endpoint that serves the history of an address, newest first and in pages, discovery
  returns, finds exactly the signatures above the replay floor whatever the number of pages, says
  whether the history reaches below the floor, and never puts the next cursor below the head.
\<close>

theorem discovery_finds_all:
  assumes "codec_ok C" "serves_history C h request" "sorted_wrt (\<lambda>a b. ds_slot b \<le> ds_slot a) h"
  shows "\<exists>b. discover_signatures C request address cursor head w = Some (Inr b)
    \<and> batch_address b = address
    \<and> batch_signatures b = filter (\<lambda>d. replay_floor cursor w < ds_slot d) h
    \<and> (reached_replay_floor b \<longleftrightarrow> (\<exists>d \<in> set h. ds_slot d \<le> replay_floor cursor w))
    \<and> head \<le> scanned_slot (next_cursor b)"
  using discover_history [OF assms(1,2), of address cursor head w] takeWhile_filter_descending [OF assms(3)]
  by (auto simp: list_ex_iff)

theorem discovery_finds_all_witness:
  "\<exists>b. discover_signatures decimal_codec
     (\<lambda>n before mc. Inr (serve_page decimal_codec
        [\<lparr>ds_signature = 9, ds_slot = 120\<rparr>, \<lparr>ds_signature = 7, ds_slot = 100\<rparr>] before))
     5 \<lparr>scanned_slot = 130\<rparr> 140 20 = Some (Inr b)
   \<and> batch_signatures b = [\<lparr>ds_signature = 9, ds_slot = 120\<rparr>]"
  using discovery_finds_all [OF decimal_codec_ok, of
      "[\<lparr>ds_signature = 9, ds_slot = 120\<rparr>, \<lparr>ds_signature = 7, ds_slot = 100\<rparr>]"
      "\<lambda>n before mc. Inr (serve_page decimal_codec
        [\<lparr>ds_signature = 9, ds_slot = 120\<rparr>, \<lparr>ds_signature = 7, ds_slot = 100\<rparr>] before)"
      5 "\<lparr>scanned_slot = 130\<rparr>" 140 20]
  by (auto simp: serves_history_def replay_floor_def sat_sub_def)

text \<open>
  What a lagging replica may omit stays discoverable: the bound on its context slot is never below
  the floor of the next poll, as long as the newest entry listed is not further ahead of the head
  than the part of the replay window not spent on skew.
\<close>

theorem skew_stays_above_next_floor:
  assumes "discover_signatures C request address cursor head w = Some (Inr b)"
    and "unat (scanned_slot (next_cursor b)) \<le> unat head + (unat w - 32)"
    and "min_context_slot head w < omitted"
  shows "replay_floor (next_cursor b) w < omitted"
proof -
  have "unat (scanned_slot (next_cursor b)) - unat w \<le> unat head - min 32 (unat w)"
    using assms(2) by auto
  then have "replay_floor (next_cursor b) w \<le> min_context_slot head w"
    by (simp add: replay_floor_def min_context_slot_def replica_skew_slots_def slot_le unat_min_le)
  then show ?thesis using assms(3) by simp
qed

theorem skew_stays_above_next_floor_witness:
  "replay_floor \<lparr>scanned_slot = 1000\<rparr> 600 < 970"
proof -
  have d: "discover_signatures decimal_codec (\<lambda>n before mc. Inr (serve_page decimal_codec [] before))
      5 \<lparr>scanned_slot = 900\<rparr> 1000 600 =
    Some (Inr \<lparr>batch_address = 5, batch_signatures = [], next_cursor = \<lparr>scanned_slot = 1000\<rparr>,
      reached_replay_floor = False\<rparr>)"
    by (subst discover_history [of _ "[]"])
      (simp_all add: serves_history_def newest_of_def max_def)
  show ?thesis
    using skew_stays_above_next_floor [OF d, of 970]
    by (simp add: min_context_slot_def replica_skew_slots_def sat_sub_def)
qed

end
