(* ===== verification/Json.thy ===== *)
theory Json
  imports Ordered_Map
begin

text \<open>
  JSON values as \<open>serde_json::Value\<close> has them: objects are ordered maps. Numbers are integers here;
  the indexer reads and writes no others in the values it builds itself. Log lines carry one.
\<close>

datatype json =
    JNull
  | JBool bool
  | JNumber int
  | JString string
  | JArray "json list"
  | JObject "(string \<times> json) list"

text \<open>\<open>json!({...})\<close>, the lookup of a key and its removal.\<close>

definition json_object :: "(string \<times> json) list \<Rightarrow> json" where
  "json_object fields = JObject (om_of_list fields)"

definition json_get :: "json \<Rightarrow> string \<Rightarrow> json option" where
  "json_get j k = (case j of JObject m \<Rightarrow> om_get m k | _ \<Rightarrow> None)"

text \<open>Indexing gives null for anything that is not there.\<close>

definition json_index :: "json \<Rightarrow> string \<Rightarrow> json" where
  "json_index j k = (case json_get j k of Some v \<Rightarrow> v | None \<Rightarrow> JNull)"

definition json_as_array :: "json \<Rightarrow> json list option" where
  "json_as_array j = (case j of JArray xs \<Rightarrow> Some xs | _ \<Rightarrow> None)"

definition json_as_str :: "json \<Rightarrow> string option" where
  "json_as_str j = (case j of JString s \<Rightarrow> Some s | _ \<Rightarrow> None)"

definition json_optional :: "int option \<Rightarrow> json" where
  "json_optional i = (case i of None \<Rightarrow> JNull | Some n \<Rightarrow> JNumber n)"

definition json_u64 :: "u64 \<Rightarrow> json" where
  "json_u64 n = JNumber (uint n)"

definition json_as_u64 :: "json \<Rightarrow> u64 option" where
  "json_as_u64 j = (case j of
     JNumber n \<Rightarrow> if 0 \<le> n \<and> n < 2 ^ 64 then Some (word_of_int n) else None | _ \<Rightarrow> None)"

definition json_as_i64 :: "json \<Rightarrow> int option" where
  "json_as_i64 j = (case j of
     JNumber n \<Rightarrow> if - (2 ^ 63) \<le> n \<and> n < 2 ^ 63 then Some n else None | _ \<Rightarrow> None)"

text \<open>
  Assignment through an index: a null becomes an object. Of the other values that are no objects
  the library panics; every value assigned to here is an object.
\<close>

definition json_set :: "json \<Rightarrow> string \<Rightarrow> json \<Rightarrow> json" where
  "json_set j k v = (case j of
     JObject m \<Rightarrow> JObject (om_insert k v m) | JNull \<Rightarrow> JObject [(k, v)] | _ \<Rightarrow> j)"

text \<open>\<open>value.as_array().into_iter().flatten()\<close>.\<close>

definition json_elements :: "json \<Rightarrow> json list" where
  "json_elements j = (case json_as_array j of None \<Rightarrow> [] | Some xs \<Rightarrow> xs)"

lemma json_as_u64_u64 [simp]: "json_as_u64 (json_u64 n) = Some n"
  using uint_lt2p [of n] by (simp add: json_as_u64_def json_u64_def)

lemma json_get_object:
  "distinct (map fst fields) \<Longrightarrow> json_get (json_object fields) k = map_of fields k"
  by (simp add: json_get_def json_object_def om_get_of_list)

named_theorems json_fields "fields of the objects the program builds"

definition is_object :: "json \<Rightarrow> bool" where
  "is_object j \<longleftrightarrow> (case j of JObject m \<Rightarrow> om_wf m | _ \<Rightarrow> False)"

lemma is_object_object [simp]: "is_object (json_object fs)"
  by (simp add: is_object_def json_object_def)

lemma is_object_set [simp]: "is_object j \<Longrightarrow> is_object (json_set j k v)"
  by (auto simp: is_object_def json_set_def om_wf_om_insert split: json.splits)

lemma json_get_set: "is_object j \<Longrightarrow> json_get (json_set j k v) = (json_get j)(k \<mapsto> v)"
  by (auto simp: is_object_def json_set_def json_get_def om_get_om_insert fun_eq_iff split: json.splits)

lemma json_index_object [json_fields]:
  "distinct (map fst fs) \<Longrightarrow>
    json_index (json_object fs) k = (case map_of fs k of Some v \<Rightarrow> v | None \<Rightarrow> JNull)"
  by (simp add: json_index_def json_get_object)

lemma json_index_set [json_fields]:
  "is_object j \<Longrightarrow> json_index (json_set j k v) k' = (if k' = k then v else json_index j k')"
  by (simp add: json_index_def json_get_set)

lemma json_elements_array [simp]: "json_elements (JArray xs) = xs" "json_elements JNull = []"
  by (simp_all add: json_elements_def json_as_array_def)

lemma json_as_str_string [simp]: "json_as_str (JString s) = Some s"
  by (simp add: json_as_str_def)

text \<open>A line of the log: its target and its record.\<close>

record log_line =
  ll_target :: string
  ll_record :: json

end
