(* ===== verification/Backfill.thy ===== *)
theory Backfill
  imports Solana Json
begin

text \<open>
  The backfill and the transaction fetches it shares with the poller (\<open>backfill.rs\<close>): duration
  arguments, the age limit read from Loki's configuration, the push of the captured records, the
  crawl of one account, and the fetch of one transaction with its conversion to an update.
\<close>

section \<open>Durations\<close>

datatype duration_error =
    ExpectedNumber char
  | UnsupportedUnit char
  | InvalidDuration
  | DurationOverflow   \<comment> \<open>the panic of \<open>Duration\<close> addition\<close>

definition unit_seconds :: "char \<Rightarrow> u64 option" where
  "unit_seconds c =
     (if c = CHR ''s'' then Some 1
      else if c = CHR ''m'' then Some 60
      else if c = CHR ''h'' then Some (60 * 60)
      else if c = CHR ''d'' then Some (24 * 60 * 60)
      else if c = CHR ''w'' then Some (7 * 24 * 60 * 60)
      else None)"

text \<open>
  The loop over the characters: the total in seconds, the pending digits and whether a unit was
  read. The product wraps at 64 bits, the sum of durations panics above the maximum.
\<close>

fun parse_duration_loop :: "string \<Rightarrow> nat \<Rightarrow> string \<Rightarrow> bool \<Rightarrow> duration_error + nat" where
  "parse_duration_loop [] secs digits parsed_any =
     (if digits \<noteq> [] \<or> \<not> parsed_any then Inl InvalidDuration else Inr secs)"
| "parse_duration_loop (c # cs) secs digits parsed_any =
     (if is_digit c then parse_duration_loop cs secs (digits @ [c]) parsed_any
      else case parse_u64 digits of
        None \<Rightarrow> Inl (ExpectedNumber c)
      | Some amount \<Rightarrow>
          (case unit_seconds c of
             None \<Rightarrow> Inl (UnsupportedUnit c)
           | Some u \<Rightarrow>
               if secs + unat (amount * u) < 2 ^ 64
               then parse_duration_loop cs (secs + unat (amount * u)) [] True
               else Inl DurationOverflow))"

definition parse_duration :: "string \<Rightarrow> duration_error + duration" where
  "parse_duration value =
     bind_r (parse_duration_loop (trim value) 0 [] False) (\<lambda>n. Inr (seconds n))"

section \<open>The limit in Loki's configuration\<close>

fun find_map :: "('a \<Rightarrow> 'b option) \<Rightarrow> 'a list \<Rightarrow> 'b option" where
  "find_map f [] = None"
| "find_map f (x # xs) = (case f x of None \<Rightarrow> find_map f xs | Some y \<Rightarrow> Some y)"

definition config_value :: "string \<Rightarrow> string \<Rightarrow> string option" where
  "config_value rendered key =
     map_option trim
       (find_map (\<lambda>line. strip_prefix (key @ '':'') line) (map trim (str_lines rendered)))"

definition parse_bool :: "string \<Rightarrow> bool option" where
  "parse_bool s = (if s = ''true'' then Some True else if s = ''false'' then Some False else None)"

definition config_flag :: "string \<Rightarrow> string \<Rightarrow> bool option" where
  "config_flag rendered key = Option.bind (config_value rendered key) parse_bool"

text \<open>
  A value that does not parse is no value, but the panic of the sum stays a panic: \<open>ok()\<close> drops errors
  only.
\<close>

definition config_duration :: "string \<Rightarrow> string \<Rightarrow> duration_error + duration option" where
  "config_duration rendered key =
     (case config_value rendered key of
        None \<Rightarrow> Inr None
      | Some value \<Rightarrow>
          if value = ''0'' \<or> value = ''0s'' then Inr (Some 0)
          else (case parse_duration value of
              Inl DurationOverflow \<Rightarrow> Inl DurationOverflow
            | Inl _ \<Rightarrow> Inr None
            | Inr d \<Rightarrow> Inr (Some d)))"

text \<open>\<open>Duration::MAX\<close>.\<close>

definition duration_max :: duration where
  "duration_max = 2 ^ 64 * 1000000000 - 1"

text \<open>The configuration page is the answer of Loki to one request.\<close>

datatype limit_error =
    LimitError string
  | LimitPanic duration_error

definition required_duration :: "string \<Rightarrow> string \<Rightarrow> limit_error + duration" where
  "required_duration rendered key =
     (case config_duration rendered key of
        Inl e \<Rightarrow> Inl (LimitPanic e)
      | Inr None \<Rightarrow> Inl (LimitError (key @ '' missing from Loki config''))
      | Inr (Some d) \<Rightarrow> Inr d)"

definition loki_backfill_limit :: "string + string \<Rightarrow> limit_error + duration" where
  "loki_backfill_limit page =
     (case page of
        Inl e \<Rightarrow> Inl (LimitError e)
      | Inr rendered \<Rightarrow>
          bind_r (required_duration rendered ''reject_old_samples_max_age'') (\<lambda>max_age.
          let limit = (if config_flag rendered ''reject_old_samples'' = Some False
                       then duration_max else max_age)
          in bind_r (required_duration rendered ''retention_period'') (\<lambda>retention.
             Inr (if retention \<noteq> 0 then min limit retention else limit))))"

section \<open>Pushing the records\<close>

definition push_batch_limit :: nat where "push_batch_limit = 500"
definition push_rate_limit_attempts :: nat where "push_rate_limit_attempts = 10"

record loki_payload =
  service_name :: string
  backfill_run :: string
  stream_values :: "(string \<times> string) list"

datatype http_outcome = SendError string | HttpResponse nat string

type_synonym push_endpoint = "nat \<Rightarrow> loki_payload \<Rightarrow> http_outcome"

definition http_success :: "nat \<Rightarrow> bool" where
  "http_success status \<longleftrightarrow> 200 \<le> status \<and> status < 300"

definition batch_payload :: "string \<Rightarrow> (int \<times> string) list \<Rightarrow> loki_payload" where
  "batch_payload run_label batch =
     \<lparr>service_name = ''microscope-indexer'', backfill_run = run_label,
      stream_values = map (\<lambda>(t, line). (show_int (t * 1000000000), line)) batch\<rparr>"

text \<open>
  One attempt after another until Loki takes the batch or answers anything but \<open>429\<close>. The result
  carries the number of requests made so far and the payloads Loki accepted.
\<close>

function flush_attempts ::
  "push_endpoint \<Rightarrow> loki_payload \<Rightarrow> nat \<Rightarrow> nat \<Rightarrow> nat \<Rightarrow> nat \<times> loki_payload list \<times> (string + nat)"
where
  "flush_attempts post payload len n attempt =
     (if push_rate_limit_attempts < attempt
      then (n, [], Inl ''push retry loop always returns or bails'')
      else case post n payload of
        SendError e \<Rightarrow>
          (Suc n, [], Inl (''failed to push '' @ show_nat len @ '' records''))
      | HttpResponse status body \<Rightarrow>
          if http_success status then (Suc n, [payload], Inr len)
          else if status \<noteq> 429 \<or> attempt = push_rate_limit_attempts
          then (Suc n, [], Inl (''Loki rejected a push of '' @ show_nat len @ '' records: ''
                  @ show_nat status @ '' '' @ body))
          else flush_attempts post payload len (Suc n) (Suc attempt))"
  by pat_completeness auto
termination
  by (relation "measure (\<lambda>(post, payload, len, n, attempt). Suc push_rate_limit_attempts - attempt)")
    auto

declare flush_attempts.simps [simp del]

definition flush ::
  "push_endpoint \<Rightarrow> string \<Rightarrow> nat \<Rightarrow> (int \<times> string) list \<Rightarrow> nat \<times> loki_payload list \<times> (string + nat)"
where
  "flush post run_label n batch = flush_attempts post (batch_payload run_label batch) (length batch) n 1"

fun flush_batches ::
  "push_endpoint \<Rightarrow> string \<Rightarrow> nat \<Rightarrow> (int \<times> string) list list \<Rightarrow> nat
   \<Rightarrow> nat \<times> loki_payload list \<times> (string + nat)"
where
  "flush_batches post run_label n [] pushed = (n, [], Inr pushed)"
| "flush_batches post run_label n (b # bs) pushed =
     (case flush post run_label n b of
        (n', acc, Inl e) \<Rightarrow> (n', acc, Inl e)
      | (n', acc, Inr k) \<Rightarrow>
          (case flush_batches post run_label n' bs (pushed + k) of
             (n'', acc', r) \<Rightarrow> (n'', acc @ acc', r)))"

text \<open>The records received before the end marker (or the close of the channel).\<close>

fun received_lines :: "string option list \<Rightarrow> string list" where
  "received_lines [] = []"
| "received_lines (None # rs) = []"
| "received_lines (Some l # rs) = l # received_lines rs"

text \<open>The block time of a record; reading the text of the JSON value is a library's.\<close>

definition block_time_of :: "(string \<Rightarrow> string + json) \<Rightarrow> string \<Rightarrow> int option" where
  "block_time_of parse_json line =
     (case parse_json line of
        Inl e \<Rightarrow> None
      | Inr j \<Rightarrow> Option.bind (json_get j ''block_time'') json_as_i64)"

fun buffer_records ::
  "(string \<Rightarrow> int option) \<Rightarrow> string list \<Rightarrow> (int \<times> string) list \<times> nat" where
  "buffer_records time_of [] = ([], 0)"
| "buffer_records time_of (l # ls) =
     (case buffer_records time_of ls of (buffered, skipped) \<Rightarrow>
        (case time_of l of
           Some t \<Rightarrow> ((t, l) # buffered, skipped)
         | None \<Rightarrow> (buffered, Suc skipped)))"

definition push_records ::
  "(string \<Rightarrow> string + json) \<Rightarrow> push_endpoint \<Rightarrow> string \<Rightarrow> string option list
   \<Rightarrow> nat \<times> loki_payload list \<times> (string + nat)"
where
  "push_records parse_json post run_label records =
     (case buffer_records (block_time_of parse_json) (received_lines records) of (buffered, skipped) \<Rightarrow>
        if 0 < skipped
        then (0, [], Inl (''backfill incomplete: '' @ show_nat skipped
               @ '' record(s) lack a block time; nothing was pushed to Loki''))
        else flush_batches post run_label 0 (chunks push_batch_limit (sort_key fst buffered)) 0)"

section \<open>Fetching one transaction\<close>

definition transaction_fetch_attempts :: nat where "transaction_fetch_attempts = 3"

record fetch_error =
  fe_permanent :: bool
  fe_error :: client_error

definition fetch_error_is_permanent :: "rpc_library \<Rightarrow> client_error \<Rightarrow> bool" where
  "fetch_error_is_permanent L e =
     (case e of RpcResponseError code _ \<Rightarrow> code = unsupported_version L | OtherClientError _ \<Rightarrow> False)"

text \<open>
  The answers of the endpoint to the successive requests for one signature. The second component
  lists the sleeps in milliseconds; the result is \<open>None\<close> only where the code is unreachable.
\<close>

type_synonym fetched = "fetch_error + (signature \<times> encoded_transaction)"

function fetch_attempts ::
  "rpc_library \<Rightarrow> (nat \<Rightarrow> client_error + encoded_transaction) \<Rightarrow> signature \<Rightarrow> nat
   \<Rightarrow> fetched option \<times> nat list"
where
  "fetch_attempts L answer s attempt =
     (if transaction_fetch_attempts < attempt then (None, [])
      else case answer attempt of
        Inr tx \<Rightarrow> (Some (Inr (s, tx)), [])
      | Inl e \<Rightarrow>
          if fetch_error_is_permanent L e
          then (Some (Inl \<lparr>fe_permanent = True, fe_error = e\<rparr>), [])
          else if attempt = transaction_fetch_attempts
          then (Some (Inl \<lparr>fe_permanent = False, fe_error = e\<rparr>), [])
          else (case fetch_attempts L answer s (Suc attempt) of
                  (r, sleeps) \<Rightarrow> (r, 500 * attempt # sleeps)))"
  by pat_completeness auto
termination
  by (relation "measure (\<lambda>(L, answer, s, attempt). Suc transaction_fetch_attempts - attempt)") auto

declare fetch_attempts.simps [simp del]

definition fetch_transaction ::
  "rpc_library \<Rightarrow> (nat \<Rightarrow> client_error + encoded_transaction) \<Rightarrow> signature
   \<Rightarrow> fetched option \<times> nat list"
where
  "fetch_transaction L answer s = fetch_attempts L answer s 1"

definition transaction_update ::
  "rpc_library \<Rightarrow> signature \<Rightarrow> encoded_transaction \<Rightarrow> update option" where
  "transaction_update L s f =
     (case et_meta f of
        None \<Rightarrow> None
      | Some meta \<Rightarrow>
          (case decode_transaction L (et_transaction f) of
             None \<Rightarrow> None
           | Some decoded \<Rightarrow>
               (case um_inner_instructions meta of
                  SerSome _ \<Rightarrow>
                    (case um_log_messages meta of
                       SerSome _ \<Rightarrow>
                         (case convert_meta L meta of
                            Inl _ \<Rightarrow> None
                          | Inr m \<Rightarrow>
                              Some (TransactionUpdate
                                \<lparr>tu_signature = s, tu_transaction = decoded, tu_meta = m,
                                 tu_is_vote = False, tu_slot = et_slot f, tu_index = None,
                                 tu_block_time = et_block_time f, tu_block_hash = None\<rparr>))
                     | _ \<Rightarrow> None)
                | _ \<Rightarrow> None)))"

section \<open>The crawl of one account\<close>

definition crawl_page_limit :: nat where "crawl_page_limit = 1000"

type_synonym time_page = "(int option \<times> string) list"

fun select_signatures ::
  "codec \<Rightarrow> time_page \<Rightarrow> int \<Rightarrow> signature list \<Rightarrow> string + (signature list \<times> bool)" where
  "select_signatures C [] cutoff sigs = Inr (sigs, False)"
| "select_signatures C ((block_time, encoded) # page) cutoff sigs =
     (if (case block_time of None \<Rightarrow> False | Some t \<Rightarrow> t < cutoff) then Inr (sigs, True)
      else case parse_sig C encoded of
        None \<Rightarrow> Inl (''RPC returned invalid signature '' @ encoded)
      | Some s \<Rightarrow> select_signatures C page cutoff (sigs @ [s]))"

text \<open>
  The environment of a crawl: the page requests, whether the run is cancelled before the n-th page,
  the answers to the requests for each transaction, the order in which the concurrent fetches of a page complete, and
  whether the pipeline still takes an update.
\<close>

record crawl_env =
  ce_page :: "nat \<Rightarrow> string option \<Rightarrow> string + time_page"
  ce_cancelled :: "nat \<Rightarrow> bool"
  ce_transactions :: "signature \<Rightarrow> nat \<Rightarrow> client_error + encoded_transaction"
  ce_completion :: "signature list \<Rightarrow> signature list"
  ce_accepts :: "update \<Rightarrow> bool"

record crawl_state =
  crawl_failures :: u32
  fetched_count :: u64
  crawl_sent :: "update list"

definition fail_crawl :: "crawl_state \<Rightarrow> crawl_state" where
  "fail_crawl st = st\<lparr>crawl_failures := crawl_failures st + 1\<rparr>"

definition crawl_one :: "rpc_library \<Rightarrow> crawl_env \<Rightarrow> signature \<Rightarrow> crawl_state \<Rightarrow> crawl_state" where
  "crawl_one L env s st =
     (case the (fst (fetch_transaction L (ce_transactions env s) s)) of
        Inl _ \<Rightarrow> fail_crawl st
      | Inr (sg, tx) \<Rightarrow>
          let st' = st\<lparr>fetched_count := fetched_count st + 1\<rparr>
          in (case transaction_update L sg tx of
                None \<Rightarrow> fail_crawl st'
              | Some u \<Rightarrow>
                  if ce_accepts env u then st'\<lparr>crawl_sent := crawl_sent st' @ [u]\<rparr> else st'))"

partial_function (option) crawl ::
  "codec \<Rightarrow> rpc_library \<Rightarrow> crawl_env \<Rightarrow> string \<Rightarrow> int \<Rightarrow> nat \<Rightarrow> signature option \<Rightarrow> crawl_state
   \<Rightarrow> (crawl_state \<times> (string + unit)) option"
where
  "crawl C L env account cutoff n before st =
     (if ce_cancelled env n then Some (st, Inr ())
      else case ce_page env n (map_option (sig_str C) before) of
        Inl e \<Rightarrow>
          Some (fail_crawl st, Inl (''failed to fetch signatures for '' @ account @ '': '' @ e))
      | Inr page \<Rightarrow>
          if page = [] then Some (st, Inr ())
          else case select_signatures C page cutoff [] of
            Inl e \<Rightarrow> Some (fail_crawl st, Inl e)
          | Inr r \<Rightarrow>
              (let sigs = fst r; reached = snd r;
                   st' = fold (crawl_one L env) (ce_completion env sigs) st
               in if reached \<or> length page < crawl_page_limit \<or> sigs = [] then Some (st', Inr ())
                  else crawl C L env account cutoff (Suc n) (Some (last sigs)) st'))"

section \<open>What a fetch returns\<close>

definition transient_until :: "rpc_library \<Rightarrow> (nat \<Rightarrow> client_error + 'a) \<Rightarrow> nat \<Rightarrow> bool" where
  "transient_until L answer k \<longleftrightarrow>
     list_all (\<lambda>j. case answer j of Inl e \<Rightarrow> \<not> fetch_error_is_permanent L e | Inr _ \<Rightarrow> False) [1..<k]"

lemma transient_until_1 [simp]: "transient_until L answer (Suc 0)"
  by (simp add: transient_until_def)

lemma transient_until_Suc:
  "0 < k \<Longrightarrow> transient_until L answer (Suc k) \<longleftrightarrow>
    transient_until L answer k \<and> (\<exists>e. answer k = Inl e \<and> \<not> fetch_error_is_permanent L e)"
  by (auto simp: transient_until_def split: sum.splits)

lemma fetch_attempts_outcome:
  assumes "0 < attempt" "attempt \<le> transaction_fetch_attempts" "transient_until L answer attempt"
  shows "\<exists>f k. fst (fetch_attempts L answer s attempt) = Some f
    \<and> length (snd (fetch_attempts L answer s attempt)) = k - attempt
    \<and> attempt \<le> k \<and> k \<le> transaction_fetch_attempts \<and> transient_until L answer k
    \<and> (case f of
         Inr (s', tx) \<Rightarrow> s' = s \<and> answer k = Inr tx
       | Inl err \<Rightarrow> answer k = Inl (fe_error err)
           \<and> (fe_permanent err \<longleftrightarrow> fetch_error_is_permanent L (fe_error err))
           \<and> (fe_permanent err \<or> k = transaction_fetch_attempts))"
  using assms
proof (induction L answer s attempt rule: fetch_attempts.induct)
  case (1 L answer s attempt)
  show ?case
  proof (cases "answer attempt")
    case (Inr tx)
    then show ?thesis
      using "1.prems" by (subst (1 2) fetch_attempts.simps) (auto intro!: exI [of _ attempt])
  next
    case (Inl e)
    show ?thesis
    proof (cases "fetch_error_is_permanent L e \<or> attempt = transaction_fetch_attempts")
      case True
      then show ?thesis
        using "1.prems" Inl by (subst (1 2) fetch_attempts.simps) (auto intro!: exI [of _ attempt])
    next
      case False
      then have "transient_until L answer (Suc attempt)"
        using "1.prems" Inl by (simp add: transient_until_Suc)
      then obtain f k where IH:
        "fst (fetch_attempts L answer s (Suc attempt)) = Some f"
        "length (snd (fetch_attempts L answer s (Suc attempt))) = k - Suc attempt"
        "Suc attempt \<le> k" "k \<le> transaction_fetch_attempts" "transient_until L answer k"
        "case f of
           Inr (s', tx) \<Rightarrow> s' = s \<and> answer k = Inr tx
         | Inl err \<Rightarrow> answer k = Inl (fe_error err)
             \<and> (fe_permanent err \<longleftrightarrow> fetch_error_is_permanent L (fe_error err))
             \<and> (fe_permanent err \<or> k = transaction_fetch_attempts)"
        using "1.IH" [OF _ Inl] "1.prems" False by auto
      have step: "fetch_attempts L answer s attempt =
          (fst (fetch_attempts L answer s (Suc attempt)),
           500 * attempt # snd (fetch_attempts L answer s (Suc attempt)))"
        using "1.prems" Inl False
        by (subst fetch_attempts.simps) (auto split: prod.splits)
      show ?thesis
        unfolding step using IH by (intro exI [of _ f] exI [of _ k]) (simp, linarith?)
    qed
  qed
qed

lemma transaction_update_Some:
  "transaction_update L s f = Some u \<longleftrightarrow>
     (\<exists>meta decoded inner logs m. et_meta f = Some meta
       \<and> decode_transaction L (et_transaction f) = Some decoded
       \<and> um_inner_instructions meta = SerSome inner \<and> um_log_messages meta = SerSome logs
       \<and> convert_meta L meta = Inr m
       \<and> u = TransactionUpdate
           \<lparr>tu_signature = s, tu_transaction = decoded, tu_meta = m, tu_is_vote = False,
            tu_slot = et_slot f, tu_index = None, tu_block_time = et_block_time f,
            tu_block_hash = None\<rparr>)"
  by (auto simp: transaction_update_def split: option.splits option_serializer.splits sum.splits)

section \<open>What a push delivers\<close>

lemma flush_attempts_cases:
  "flush_attempts post payload len n attempt = (n', acc, r) \<Longrightarrow>
     (r = Inr len \<and> acc = [payload]) \<or> (\<exists>e. r = Inl e \<and> acc = [])"
proof (induction post payload len n attempt arbitrary: n' acc r rule: flush_attempts.induct)
  case (1 post payload len n attempt)
  show ?case
    using "1.prems" "1.IH"
    by (subst (asm) flush_attempts.simps) (auto split: if_splits http_outcome.splits)
qed

lemma flush_cases:
  assumes "flush post run_label n b = (n', acc, r)"
  obtains "r = Inr (length b)" "acc = [batch_payload run_label b]" | e where "r = Inl e" "acc = []"
  using flush_attempts_cases [of post "batch_payload run_label b" "length b" n 1] assms
  by (auto simp: flush_def)

lemma flush_batches_prefix:
  "flush_batches post run_label n bs pushed = (n', acc, r) \<Longrightarrow>
     \<exists>done. acc = map (batch_payload run_label) (take done bs)
       \<and> (\<forall>k. r = Inr k \<longrightarrow> done = length bs \<and> k = pushed + length (concat bs))"
proof (induction post run_label n bs pushed arbitrary: n' acc r rule: flush_batches.induct)
  case (2 post run_label n b bs pushed)
  obtain n1 a1 r1 where f: "flush post run_label n b = (n1, a1, r1)"
    by (cases "flush post run_label n b")
  from f show ?case
  proof (cases rule: flush_cases)
    case 1
    obtain n2 a2 r2 where g: "flush_batches post run_label n1 bs (pushed + length b) = (n2, a2, r2)"
      by (cases "flush_batches post run_label n1 bs (pushed + length b)")
    obtain d where d: "a2 = map (batch_payload run_label) (take d bs)"
      "\<And>k. r2 = Inr k \<Longrightarrow> d = length bs \<and> k = pushed + length b + length (concat bs)"
      using "2.IH" [OF f [symmetric] refl 1(1) g] by blast
    have r: "acc = a1 @ a2" "r = r2"
      using "2.prems" f g 1(1) by simp_all
    have "acc = map (batch_payload run_label) (take (Suc d) (b # bs))"
      using d(1) 1(2) r by simp
    moreover have "Suc d = length (b # bs) \<and> k = pushed + length (concat (b # bs))" if "r = Inr k" for k
      using d(2) [of k] that r by simp
    ultimately show ?thesis by blast
  next
    case (2 e)
    then have "acc = []" "r = Inl e"
      using "2.prems" f by simp_all
    then show ?thesis by (intro exI [of _ 0]) simp
  qed
qed (auto intro: exI [of _ 0])

lemma buffer_records_all:
  "(\<forall>l \<in> set ls. bt l \<noteq> None) \<Longrightarrow> buffer_records bt ls = (map (\<lambda>l. (the (bt l), l)) ls, 0)"
  by (induction ls) auto

lemma buffer_records_skipped:
  "snd (buffer_records bt ls) = length (filter (\<lambda>l. bt l = None) ls)"
  by (induction ls) (auto split: prod.splits option.splits)

lemma concat_take_chunks:
  "0 < n \<Longrightarrow> \<exists>k. concat (take d (chunks n xs)) = take k xs"
proof (induction n xs arbitrary: d rule: chunks.induct)
  case (1 n xs)
  show ?case
  proof (cases "d = 0 \<or> xs = []")
    case True
    then show ?thesis by (subst chunks.simps) (auto intro: exI [of _ 0])
  next
    case False
    then obtain m where d: "d = Suc m" by (cases d) auto
    obtain k where "concat (take m (chunks n (drop n xs))) = take k (drop n xs)"
      using "1.IH" "1.prems" False by auto
    then show ?thesis
      using False d "1.prems"
      by (subst chunks.simps) (auto intro!: exI [of _ "n + k"] simp: take_add)
  qed
qed

section \<open>What a duration argument means\<close>

text \<open>The text of a list of amounts with their units, such as 2w12h.\<close>

definition render_duration :: "(u64 \<times> char) list \<Rightarrow> string" where
  "render_duration parts = concat (map (\<lambda>(a, u). show_u64 a @ [u]) parts)"

definition part_seconds :: "u64 \<times> char \<Rightarrow> nat" where
  "part_seconds p = unat (fst p) * unat (the (unit_seconds (snd p)))"

lemma parse_digits:
  "list_all is_digit ds \<Longrightarrow>
    parse_duration_loop (ds @ cs) n acc p = parse_duration_loop cs n (acc @ ds) p"
  by (induction ds arbitrary: acc) auto

lemma unit_not_digit: "unit_seconds c = Some u \<Longrightarrow> \<not> is_digit c \<and> \<not> is_space c"
  by (auto simp: unit_seconds_def is_digit_def is_space_def split: if_splits)

lemma digit_not_space: "is_digit c \<Longrightarrow> \<not> is_space c"
  by (auto simp: is_digit_def is_space_def)

lemma parse_part:
  assumes "unit_seconds u \<noteq> None" "n + part_seconds (a, u) < 2 ^ 64"
  shows "parse_duration_loop (show_u64 a @ u # cs) n [] p =
    parse_duration_loop cs (n + part_seconds (a, u)) [] True"
proof -
  obtain k where k: "unit_seconds u = Some k" using assms(1) by auto
  have "unat a * unat k < 2 ^ 64"
    using assms(2) k by (simp add: part_seconds_def)
  then have "unat (a * k) = part_seconds (a, u)"
    using k by (simp add: part_seconds_def unat_word_ariths)
  moreover have "list_all is_digit (show_u64 a)"
    by (simp add: show_u64_def show_nat_digits)
  moreover have "\<not> is_digit u"
    using unit_not_digit [OF k] by simp
  ultimately show ?thesis
    using k assms(2) by (simp add: parse_digits)
qed

lemma parse_parts:
  "(\<forall>p \<in> set parts. unit_seconds (snd p) \<noteq> None) \<Longrightarrow>
   n + sum_list (map part_seconds parts) < 2 ^ 64 \<Longrightarrow> parts \<noteq> [] \<or> parsed \<Longrightarrow>
   parse_duration_loop (render_duration parts) n [] parsed
     = Inr (n + sum_list (map part_seconds parts))"
proof (induction parts arbitrary: n parsed)
  case (Cons p parts)
  obtain a u where p: "p = (a, u)" by (cases p)
  have "parse_duration_loop (render_duration (p # parts)) n [] parsed =
      parse_duration_loop (render_duration parts) (n + part_seconds p) [] True"
    using parse_part [of u n a "render_duration parts" parsed] Cons.prems
    by (simp add: render_duration_def p)
  then show ?case
    using Cons.IH [of "n + part_seconds p" True] Cons.prems by (simp add: add.assoc)
qed (simp add: render_duration_def)

lemma trim_id:
  assumes "s \<noteq> []" "\<not> is_space (hd s)" "\<not> is_space (last s)"
  shows "trim s = s"
proof -
  have d: "dropWhile is_space t = t" if "t \<noteq> []" "\<not> is_space (hd t)" for t
    using that by (cases t) auto
  show ?thesis
    using d [of s] d [of "rev s"] assms by (simp add: trim_def hd_rev)
qed

lemma trim_render:
  assumes "\<forall>p \<in> set parts. unit_seconds (snd p) \<noteq> None"
  shows "trim (render_duration parts) = render_duration parts"
proof (cases parts rule: rev_cases)
  case Nil
  then show ?thesis by (simp add: render_duration_def trim_def)
next
  case (snoc ps p)
  then obtain q qs where q: "parts = q # qs" by (meson append_is_Nil_conv list.exhaust not_Cons_self2)
  obtain c r where c: "show_u64 (fst q) = c # r" "is_digit c"
    using show_nat_digits [of "unat (fst q)"]
    by (cases "show_u64 (fst q)") (auto simp: show_u64_def)
  have "hd (render_duration parts) = c" "render_duration parts \<noteq> []"
    using c q by (auto simp: render_duration_def split: prod.splits)
  moreover have "last (render_duration parts) = snd p"
    using snoc by (auto simp: render_duration_def split: prod.splits)
  ultimately show ?thesis
    using trim_id digit_not_space [OF c(2)] unit_not_digit assms snoc by auto
qed

text \<open>
  A duration argument of amounts with units is read as their sum in seconds, whenever the sum fits
  64 bits: no intermediate product or sum wraps.
\<close>

theorem parse_duration_sum:
  assumes "parts \<noteq> []" "\<forall>p \<in> set parts. unit_seconds (snd p) \<noteq> None"
    and "sum_list (map part_seconds parts) < 2 ^ 64"
  shows "parse_duration (render_duration parts) = Inr (seconds (sum_list (map part_seconds parts)))"
  using parse_parts [of parts 0 False] assms by (simp add: parse_duration_def trim_render)

theorem parse_duration_sum_witness:
  "parse_duration (render_duration [(2, CHR ''w''), (12, CHR ''h'')]) = Inr (seconds 1252800)"
  using parse_duration_sum [of "[(2, CHR ''w''), (12, CHR ''h'')]"]
  by (simp add: unit_seconds_def part_seconds_def)

text \<open>
  A fetch makes at most three requests and always returns: the transaction of the first
  request that succeeds, or the error of a permanent failure, or the third transient one; every
  request before the deciding one failed transiently.
\<close>

lemma fetch_outcome:
  "\<exists>f k. fst (fetch_transaction L answer s) = Some f
    \<and> length (snd (fetch_transaction L answer s)) = k - 1
    \<and> 1 \<le> k \<and> k \<le> 3 \<and> transient_until L answer k
    \<and> (case f of
         Inr (s', tx) \<Rightarrow> s' = s \<and> answer k = Inr tx
       | Inl err \<Rightarrow> answer k = Inl (fe_error err)
           \<and> (fe_permanent err \<longleftrightarrow> fetch_error_is_permanent L (fe_error err))
           \<and> (fe_permanent err \<or> k = 3))"
  using fetch_attempts_outcome [of 1 L answer s, unfolded transaction_fetch_attempts_def]
  by (simp add: fetch_transaction_def)

text \<open>
  A push that succeeds delivered every line received, each stamped with its block time, in block
  time order and in batches within the limit; a push that fails delivered a prefix of that
  sequence, and nothing at all when a record lacks its block time.
\<close>

lemma push_records_delivered:
  assumes "push_records parse post run_label records = (n, accepted, r)"
  shows "if \<exists>l \<in> set (received_lines records). block_time_of parse l = None
    then accepted = [] \<and> (\<exists>e. r = Inl e)
    else (\<exists>k. concat (map stream_values accepted) =
           take k (map (\<lambda>(t, l). (show_int (t * 1000000000), l))
             (sort_key fst (map (\<lambda>l. (the (block_time_of parse l), l)) (received_lines records))))
         \<and> (\<forall>pushed. r = Inr pushed \<longrightarrow>
              pushed = length (received_lines records) \<and> k = pushed))
       \<and> list_all (\<lambda>p. 0 < length (stream_values p) \<and> length (stream_values p) \<le> 500) accepted"
proof -
  let ?ls = "received_lines records"
  let ?sorted = "sort_key fst (map (\<lambda>l. (the (block_time_of parse l), l)) ?ls)"
  have vs: "stream_values \<circ> batch_payload run_label = map (\<lambda>(t, l). (show_int (t * 1000000000), l))"
    by (simp add: fun_eq_iff batch_payload_def)
  show ?thesis
  proof (cases "\<exists>l \<in> set ?ls. block_time_of parse l = None")
    case True
    then have "0 < snd (buffer_records (block_time_of parse) ?ls)"
      by (auto simp: buffer_records_skipped filter_empty_conv)
    then show ?thesis
      using True assms by (auto simp: push_records_def split: prod.splits)
  next
    case False
    then have "flush_batches post run_label 0 (chunks push_batch_limit ?sorted) 0 = (n, accepted, r)"
      using assms by (simp add: push_records_def buffer_records_all)
    then obtain d where d: "accepted = map (batch_payload run_label) (take d (chunks push_batch_limit ?sorted))"
      "\<And>k. r = Inr k \<Longrightarrow> d = length (chunks push_batch_limit ?sorted)
         \<and> k = length (concat (chunks push_batch_limit ?sorted))"
      using flush_batches_prefix by fastforce
    have pos: "0 < push_batch_limit" by (simp add: push_batch_limit_def)
    obtain k where k: "concat (take d (chunks push_batch_limit ?sorted)) = take k ?sorted"
      using concat_take_chunks [OF pos] by blast
    have vals: "concat (map stream_values accepted) =
        map (\<lambda>(t, l). (show_int (t * 1000000000), l)) (concat (take d (chunks push_batch_limit ?sorted)))"
      by (simp add: d(1) vs map_concat)
    have full: "concat (map stream_values accepted) =
          take (length ?ls) (map (\<lambda>(t, l). (show_int (t * 1000000000), l)) ?sorted)
        \<and> pushed = length ?ls" if "r = Inr pushed" for pushed
      using d(2) [OF that] vals concat_chunks [OF pos, of ?sorted] by simp
    have part: "concat (map stream_values accepted) =
        take k (map (\<lambda>(t, l). (show_int (t * 1000000000), l)) ?sorted)"
      using vals k by (simp add: take_map)
    have "list_all (\<lambda>p. 0 < length (stream_values p) \<and> length (stream_values p) \<le> 500) accepted"
      using chunks_length [of _ push_batch_limit ?sorted]
      by (auto simp: d(1) list_all_iff batch_payload_def push_batch_limit_def dest!: in_set_takeD)
    then show ?thesis
      using False full part by (cases r) auto
  qed
qed

definition length_record :: "string \<Rightarrow> string + json" where
  "length_record l = Inr (JObject [(''block_time'', JNumber (int (length l)))])"

lemma length_record_time: "length l < 100 \<Longrightarrow> block_time_of length_record l = Some (int (length l))"
  by (simp add: block_time_of_def length_record_def json_get_def om_get_def json_as_i64_def)

lemma push_records_example:
  "push_records length_record (\<lambda>n p. HttpResponse 204 []) ''run''
     [Some ''bb'', Some ''a'', None, Some ''c''] =
   (1, [batch_payload ''run'' [(1, ''a''), (2, ''bb'')]], Inr 2)
   \<and> (if \<exists>l \<in> set (received_lines [Some ''bb'', Some ''a'', None, Some ''c'']).
          block_time_of length_record l = None
      then False else True)"
proof -
  have "push_records length_record (\<lambda>n p. HttpResponse 204 []) ''run''
     [Some ''bb'', Some ''a'', None, Some ''c''] =
   (1, [batch_payload ''run'' [(1, ''a''), (2, ''bb'')]], Inr 2)"
    by (simp add: push_records_def flush_def flush_attempts.simps chunks.simps push_batch_limit_def
        http_success_def push_rate_limit_attempts_def length_record_time)
  from this push_records_delivered [OF this] show ?thesis by (simp add: length_record_time)
qed

end
