(* ===== verification/Delivered.thy ===== *)
theory Delivered
  imports Prelude "HOL-Library.Multiset"
begin

text \<open>
  The hand-over of the signatures Yellowstone delivered to the RPC poller (\<open>delivered.rs\<close>): an
  unbounded channel and a recording flag. The locale \<open>fifo_queue\<close> is the contract of the channel;
  the poller's lemmas about what a drain returns rest on it. Recording loads the flag and sends in
  two steps, so the step relation interleaves them with the other tasks.
\<close>

section \<open>The contract of the channel\<close>

locale fifo_queue =
  fixes contents :: "'q \<Rightarrow> 'a list"
    and enqueue :: "'a \<Rightarrow> 'q \<Rightarrow> 'q"
    and take_all :: "'q \<Rightarrow> 'a list \<times> 'q"
  assumes law_enqueue: "contents (enqueue x q) = contents q @ [x]"
    and law_take_all: "fst (take_all q) = contents q"
    and law_take_all_empty: "contents (snd (take_all q)) = []"
begin

lemma contents_enqueue_all: "contents (fold enqueue xs q) = contents q @ xs"
  by (induction xs arbitrary: q) (auto simp: law_enqueue)

lemma take_all_enqueue_all: "fst (take_all (fold enqueue xs q)) = contents q @ xs"
  by (simp add: law_take_all contents_enqueue_all)

lemma take_all_twice: "fst (take_all (snd (take_all q))) = []"
  by (simp add: law_take_all law_take_all_empty)

end

section \<open>The channel\<close>

type_synonym delivery = "signature \<times> slot"

record delivered_signatures =
  dv_channel :: "delivery list"
  dv_recording :: bool

definition new_delivered :: delivered_signatures where
  "new_delivered = \<lparr>dv_channel = [], dv_recording = True\<rparr>"

text \<open>
  A value of \<open>DeliveredSignatures\<close> is a handle: its clones share the channel and the flag. The values
  behind the handles are a list; making a new one appends it.
\<close>

type_synonym delivered_handle = nat
type_synonym delivered_heap = "delivered_signatures list"

definition allocate_delivered :: "delivered_heap \<Rightarrow> delivered_handle \<times> delivered_heap" where
  "allocate_delivered heap = (length heap, heap @ [new_delivered])"

text \<open>The send half of \<open>record\<close>; the receiver is never dropped, so the send succeeds.\<close>

definition send_delivery :: "delivery \<Rightarrow> delivered_signatures \<Rightarrow> delivered_signatures" where
  "send_delivery x d = d\<lparr>dv_channel := dv_channel d @ [x]\<rparr>"

definition record_delivery :: "signature \<Rightarrow> slot \<Rightarrow> delivered_signatures \<Rightarrow> delivered_signatures" where
  "record_delivery s sl d = (if \<not> dv_recording d then d else send_delivery (s, sl) d)"

text \<open>\<open>try_recv\<close> until the channel is empty.\<close>

fun drain_loop :: "delivery list \<Rightarrow> delivery list \<Rightarrow> delivery list \<times> delivery list" where
  "drain_loop [] drained = (drained, [])"
| "drain_loop (x # channel) drained = drain_loop channel (drained @ [x])"

definition drain :: "delivered_signatures \<Rightarrow> delivery list \<times> delivered_signatures" where
  "drain d = (case drain_loop (dv_channel d) [] of
     (drained, channel) \<Rightarrow> (drained, d\<lparr>dv_channel := channel\<rparr>))"

definition stop :: "delivered_signatures \<Rightarrow> delivered_signatures" where
  "stop d = snd (drain (d\<lparr>dv_recording := False\<rparr>))"

lemma drain_loop_all: "drain_loop channel drained = (drained @ channel, [])"
  by (induction channel arbitrary: drained) auto

lemma drain_eq [simp]: "drain d = (dv_channel d, d\<lparr>dv_channel := []\<rparr>)"
  by (simp add: drain_def drain_loop_all)

interpretation delivery_queue: fifo_queue dv_channel send_delivery drain
  by unfold_locales (simp_all add: send_delivery_def)

lemma record_delivery_recording [simp]: "dv_recording (record_delivery s sl d) = dv_recording d"
  by (simp add: record_delivery_def send_delivery_def)

lemma record_all_recording:
  "dv_recording d \<Longrightarrow> fold (\<lambda>x. record_delivery (fst x) (snd x)) xs d = fold send_delivery xs d"
  by (induction xs arbitrary: d) (auto simp: record_delivery_def send_delivery_def)

lemma drain_recorded:
  "dv_recording d \<Longrightarrow>
    fst (drain (fold (\<lambda>x. record_delivery (fst x) (snd x)) xs d)) = dv_channel d @ xs"
  by (simp only: record_all_recording delivery_queue.take_all_enqueue_all)

section \<open>Interleavings\<close>

text \<open>
  The tasks that share the value: recording checks the flag, then sends; the poller drains; a stop
  clears the flag, then drains and discards. The ghost lists hold what was sent and what a drain
  of the poller returned.
\<close>

record delivered_system =
  ds_value :: delivered_signatures
  ds_in_flight :: "delivery list"
  ds_sent :: "delivery list"
  ds_drained :: "delivery list"
  ds_discarded :: "delivery list"

datatype delivered_op =
    Check_Recording delivery | Send_In_Flight delivery | Poller_Drain | Stop_Flag | Stop_Drain

definition initial_delivered :: delivered_system where
  "initial_delivered = \<lparr>ds_value = new_delivered, ds_in_flight = [], ds_sent = [], ds_drained = [],
     ds_discarded = []\<rparr>"

fun delivered_op_step :: "delivered_op \<Rightarrow> delivered_system \<Rightarrow> delivered_system option" where
  "delivered_op_step (Check_Recording x) y =
     Some (if dv_recording (ds_value y) then y\<lparr>ds_in_flight := ds_in_flight y @ [x]\<rparr> else y)"
| "delivered_op_step (Send_In_Flight x) y =
     (if x \<in> set (ds_in_flight y)
      then Some (y\<lparr>ds_in_flight := remove1 x (ds_in_flight y),
                   ds_value := send_delivery x (ds_value y), ds_sent := ds_sent y @ [x]\<rparr>)
      else None)"
| "delivered_op_step Poller_Drain y =
     Some (y\<lparr>ds_value := snd (drain (ds_value y)), ds_drained := ds_drained y @ fst (drain (ds_value y))\<rparr>)"
| "delivered_op_step Stop_Flag y = Some (y\<lparr>ds_value := (ds_value y)\<lparr>dv_recording := False\<rparr>\<rparr>)"
| "delivered_op_step Stop_Drain y =
     Some (y\<lparr>ds_value := snd (drain (ds_value y)),
             ds_discarded := ds_discarded y @ fst (drain (ds_value y))\<rparr>)"

inductive delivered_steps :: "delivered_system \<Rightarrow> delivered_op list \<Rightarrow> delivered_system \<Rightarrow> bool" where
  steps_none: "delivered_steps y [] y"
| steps_op: "delivered_steps y ops z \<Longrightarrow> delivered_op_step op z = Some z' \<Longrightarrow>
    delivered_steps y (ops @ [op]) z'"

inductive_cases delivered_op_cases: "delivered_steps y (op # ops) z"

lemma steps_without_stop:
  assumes "delivered_steps y ops z" "y = initial_delivered" "Stop_Drain \<notin> set ops"
  shows "ds_drained z @ dv_channel (ds_value z) = ds_sent z \<and> ds_discarded z = []"
  using assms
proof (induction rule: delivered_steps.induct)
  case (steps_op y ops z op z')
  then show ?case
    by (cases op) (auto simp: send_delivery_def split: if_splits)
qed (simp add: initial_delivered_def new_delivered_def)

lemma steps_conserve:
  "delivered_steps y ops z \<Longrightarrow> y = initial_delivered \<Longrightarrow>
    mset (ds_sent z) = mset (ds_drained z) + mset (ds_discarded z) + mset (dv_channel (ds_value z))"
  by (induction rule: delivered_steps.induct)
    (auto simp: initial_delivered_def new_delivered_def send_delivery_def
      elim!: delivered_op_step.elims split: if_splits)

lemma length_remove1_in: "x \<in> set xs \<Longrightarrow> Suc (length (remove1 x xs)) = length xs"
  by (induction xs) auto

lemma steps_after_stop:
  assumes "delivered_steps y ops z" "\<not> dv_recording (ds_value y)"
  shows "\<not> dv_recording (ds_value z) \<and>
    length (ds_in_flight z) + length (dv_channel (ds_value z))
      \<le> length (ds_in_flight y) + length (dv_channel (ds_value y))"
  using assms
proof (induction rule: delivered_steps.induct)
  case (steps_op y ops z op z')
  then show ?case
  proof (cases op)
    case (Send_In_Flight x)
    with steps_op show ?thesis
      using length_remove1_in [of x "ds_in_flight z"]
      by (auto simp: send_delivery_def split: if_splits simp del: length_remove1)
  qed auto
qed simp

text \<open>
  C12: However the recording tasks, the drains and the stops interleave, every delivery sent is taken
  out at most once and none is lost: it went to the poller, or a stop discarded it, or it is in the
  channel; until a stop drains, the poller is handed exactly what was sent, in the order of the
  sends; and a drain of the poller leaves nothing behind.
\<close>

theorem deliveries_drained_once:
  assumes "delivered_steps initial_delivered ops z"
  shows "mset (ds_sent z) = mset (ds_drained z) + mset (ds_discarded z) + mset (dv_channel (ds_value z))
    \<and> (Stop_Drain \<notin> set ops \<longrightarrow>
         ds_drained z @ dv_channel (ds_value z) = ds_sent z \<and> ds_discarded z = [])
    \<and> (\<forall>z'. delivered_op_step Poller_Drain z = Some z' \<longrightarrow>
         dv_channel (ds_value z') = [] \<and> ds_drained z' = ds_drained z @ dv_channel (ds_value z))"
  using steps_conserve [OF assms refl] steps_without_stop [OF assms refl] by auto

theorem deliveries_drained_once_witness:
  "\<exists>z. delivered_steps initial_delivered
     [Check_Recording (7, 100), Send_In_Flight (7, 100), Poller_Drain,
      Check_Recording (8, 101), Stop_Flag, Send_In_Flight (8, 101), Stop_Drain] z
   \<and> mset (ds_drained z) + mset (ds_discarded z) = {#(7, 100), (8, 101)#}"
proof -
  note init = initial_delivered_def new_delivered_def send_delivery_def
  let ?z1 = "initial_delivered\<lparr>ds_in_flight := [(7, 100)]\<rparr>"
  let ?z2 = "initial_delivered\<lparr>ds_value := send_delivery (7, 100) new_delivered, ds_sent := [(7, 100)]\<rparr>"
  let ?z3 = "initial_delivered\<lparr>ds_sent := [(7, 100)], ds_drained := [(7, 100)]\<rparr>"
  let ?z4 = "?z3\<lparr>ds_in_flight := [(8, 101)]\<rparr>"
  let ?z5 = "?z4\<lparr>ds_value := new_delivered\<lparr>dv_recording := False\<rparr>\<rparr>"
  let ?z6 = "?z5\<lparr>ds_in_flight := [], ds_value := \<lparr>dv_channel = [(8, 101)], dv_recording = False\<rparr>,
    ds_sent := [(7, 100), (8, 101)]\<rparr>"
  let ?z7 = "?z6\<lparr>ds_value := \<lparr>dv_channel = [], dv_recording = False\<rparr>, ds_discarded := [(8, 101)]\<rparr>"
  have "delivered_steps initial_delivered ([] @ [Check_Recording (7, 100)]) ?z1"
    by (rule steps_op [OF steps_none]) (simp add: init)
  then have "delivered_steps initial_delivered (([] @ [Check_Recording (7, 100)]) @ [Send_In_Flight (7, 100)]) ?z2"
    by (rule steps_op) (simp add: init)
  then have "delivered_steps initial_delivered
      ((([] @ [Check_Recording (7, 100)]) @ [Send_In_Flight (7, 100)]) @ [Poller_Drain]) ?z3"
    by (rule steps_op) (simp add: init)
  from steps_op [OF this, of "Check_Recording (8, 101)" ?z4]
  have "delivered_steps initial_delivered
      ([Check_Recording (7, 100), Send_In_Flight (7, 100), Poller_Drain] @ [Check_Recording (8, 101)]) ?z4"
    by (simp add: init)
  from steps_op [OF this, of Stop_Flag ?z5]
  have "delivered_steps initial_delivered
      ([Check_Recording (7, 100), Send_In_Flight (7, 100), Poller_Drain, Check_Recording (8, 101)] @ [Stop_Flag]) ?z5"
    by (simp add: init)
  from steps_op [OF this, of "Send_In_Flight (8, 101)" ?z6]
  have "delivered_steps initial_delivered
      ([Check_Recording (7, 100), Send_In_Flight (7, 100), Poller_Drain, Check_Recording (8, 101), Stop_Flag]
        @ [Send_In_Flight (8, 101)]) ?z6"
    by (simp add: init)
  from steps_op [OF this, of Stop_Drain ?z7]
  have run: "delivered_steps initial_delivered
     [Check_Recording (7, 100), Send_In_Flight (7, 100), Poller_Drain,
      Check_Recording (8, 101), Stop_Flag, Send_In_Flight (8, 101), Stop_Drain] ?z7"
    by (simp add: init)
  have "mset (ds_sent ?z7) = mset (ds_drained ?z7) + mset (ds_discarded ?z7) + mset (dv_channel (ds_value ?z7))"
    using deliveries_drained_once [OF run] by blast
  then have "mset (ds_drained ?z7) + mset (ds_discarded ?z7) = {#(7, 100), (8, 101)#}" by (simp add: init)
  with run show ?thesis by blast
qed

text \<open>
  After the stop of a parked poller the channel cannot grow without bound: whatever the tasks still
  do, it never holds more than the sends that had passed the flag before it was cleared.
\<close>

theorem stopped_channel_bounded:
  assumes "delivered_op_step Stop_Flag y = Some y'" "delivered_op_step Stop_Drain y' = Some y''"
    and "delivered_steps y'' ops z"
  shows "length (dv_channel (ds_value z)) \<le> length (ds_in_flight y)"
  using steps_after_stop [OF assms(3)] assms(1,2) by auto

theorem stopped_channel_bounded_witness:
  "length (dv_channel (ds_value (initial_delivered
     \<lparr>ds_value := \<lparr>dv_channel = [], dv_recording = False\<rparr>\<rparr>))) \<le> (0::nat)"
  using stopped_channel_bounded [OF _ _ steps_none, of initial_delivered
     "initial_delivered\<lparr>ds_value := \<lparr>dv_channel = [], dv_recording = False\<rparr>\<rparr>"]
  by (simp add: initial_delivered_def new_delivered_def)

end
