(* ===== verification/Datasource.thy ===== *)
theory Datasource
  imports Telemetry Delivered Solana
begin

text \<open>
  The Yellowstone side (\<open>datasource.rs\<close>): the environment it is configured from, the readiness
  probe, the filters of the subscription, the disconnect counter, and the relay that records a
  delivered signature for the poller only after the pipeline took the update.
\<close>

section \<open>Configuration\<close>

type_synonym environment = "string \<Rightarrow> string option"

definition non_empty_var :: "environment \<Rightarrow> string \<Rightarrow> string option" where
  "non_empty_var env name =
     (case env name of None \<Rightarrow> None | Some v \<Rightarrow> if v = [] then None else Some v)"

definition probe_grace_seconds :: "environment \<Rightarrow> string + u64" where
  "probe_grace_seconds env =
     (case non_empty_var env ''MICROSCOPE_STREAM_STALE_AFTER_SECONDS'' of
        None \<Rightarrow> Inr 90
      | Some configured \<Rightarrow>
          (case parse_u64 configured of
             Some n \<Rightarrow> Inr n
           | None \<Rightarrow> Inl (''MICROSCOPE_STREAM_STALE_AFTER_SECONDS must be a whole number of ''
                        @ ''seconds, or 0 to disable the check'')))"

record transaction_filter =
  filter_vote :: "bool option"
  filter_failed :: "bool option"
  account_include :: "string list"
  account_exclude :: "string list"
  account_required :: "string list"

definition requiring :: "string \<Rightarrow> transaction_filter" where
  "requiring address = \<lparr>filter_vote = Some False, filter_failed = None, account_include = [],
     account_exclude = [], account_required = [address]\<rparr>"

definition transaction_filters ::
  "codec \<Rightarrow> string \<Rightarrow> pubkey option \<Rightarrow> string \<Rightarrow> transaction_filter option" where
  "transaction_filters C program_id multisig_state =
     (let base = [''program'' \<mapsto> requiring program_id]
      in case multisig_state of
           None \<Rightarrow> base
         | Some a \<Rightarrow> base(''multisig_state'' \<mapsto> requiring (key_str C a)))"

text \<open>The reconnection schedule; the multiplier 2.0 is kept as the number it is.\<close>

record reconnect_config =
  initial_interval :: duration
  multiplier :: nat
  max_retries :: nat
  recover_missed_data :: bool

definition reconnect :: reconnect_config where
  "reconnect = \<lparr>initial_interval = seconds 1, multiplier = 2, max_retries = 5,
     recover_missed_data = True\<rparr>"

definition stream_timeout :: duration where "stream_timeout = seconds 120"

record yellowstone_client =
  yc_url :: string
  yc_token :: "string option"
  yc_filters :: "string \<Rightarrow> transaction_filter option"
  yc_reconnect :: reconnect_config
  yc_timeout :: duration

definition client ::
  "codec \<Rightarrow> string \<Rightarrow> string option \<Rightarrow> string \<Rightarrow> pubkey option \<Rightarrow> yellowstone_client \<times> metric list"
where
  "client C url token program_id multisig_state =
     (\<lparr>yc_url = url, yc_token = token, yc_filters = transaction_filters C program_id multisig_state,
       yc_reconnect = reconnect, yc_timeout = stream_timeout\<rparr>,
      initialize_yellowstone)"

text \<open>\<open>Inl\<close> is a panic; the health state is the one at the call, \<open>now\<close> the clock.\<close>

definition yellowstone ::
  "codec \<Rightarrow> environment \<Rightarrow> u64 \<Rightarrow> string \<Rightarrow> pubkey option \<Rightarrow> health_state
   \<Rightarrow> string + (yellowstone_client \<times> metric list \<times> health_state)"
where
  "yellowstone C env now program_id multisig_state h =
     (let url = (case env ''GEYSER_URL'' of None \<Rightarrow> [] | Some u \<Rightarrow> u)
      in if url = [] then Inl ''GEYSER_URL env var must be set to a Yellowstone gRPC endpoint''
         else bind_r (probe_grace_seconds env) (\<lambda>grace.
           (case client C url (non_empty_var env ''GEYSER_X_TOKEN'') program_id multisig_state of
              (c, ms) \<Rightarrow> Inr (c, initialize_yellowstone_probe @ ms, expect_stream_probe grace now h))))"

section \<open>The probe and the disconnections\<close>

text \<open>One turn of the probe loop: the outcome of the probe and the clock after it.\<close>

definition probe_turn :: "string + unit \<Rightarrow> u64 \<Rightarrow> health_state \<Rightarrow> health_state \<times> metric list" where
  "probe_turn outcome now h =
     (case outcome of
        Inr _ \<Rightarrow> (record_stream_probe_success now h, set_yellowstone_probe_healthy True)
      | Inl _ \<Rightarrow> (h, record_yellowstone_probe_failure))"

definition probe_turns :: "((string + unit) \<times> u64) list \<Rightarrow> health_state \<Rightarrow> health_state" where
  "probe_turns turns h = fold (\<lambda>(outcome, now) h. fst (probe_turn outcome now h)) turns h"

definition record_disconnections :: "u64 list \<Rightarrow> metric list" where
  "record_disconnections missed = concat (map record_yellowstone_disconnect missed)"

section \<open>The recording relay\<close>

text \<open>
  The forwarding task: the updates the inner datasource produced, in order; the pipeline channel
  takes updates until it closes, after \<open>capacity\<close> of them (\<open>None\<close> when it never closes).
\<close>

definition delivery_of :: "update \<Rightarrow> (signature \<times> slot) option" where
  "delivery_of u = (case u of
     TransactionUpdate t \<Rightarrow> Some (tu_signature t, tu_slot t) | OtherUpdate _ \<Rightarrow> None)"

record relay_state =
  rl_queued :: "update list"
  rl_delivered :: delivered_signatures

fun forward_updates :: "nat option \<Rightarrow> update list \<Rightarrow> relay_state \<Rightarrow> relay_state" where
  "forward_updates capacity [] r = r"
| "forward_updates capacity (u # us) r =
     (if capacity = Some (length (rl_queued r)) then r
      else forward_updates capacity us
        \<lparr>rl_queued = rl_queued r @ [u],
         rl_delivered = (case delivery_of u of
            None \<Rightarrow> rl_delivered r
          | Some (s, sl) \<Rightarrow> record_delivery s sl (rl_delivered r))\<rparr>)"

fun deliveries_of :: "update list \<Rightarrow> (signature \<times> slot) list" where
  "deliveries_of [] = []"
| "deliveries_of (u # us) =
     (case delivery_of u of None \<Rightarrow> deliveries_of us | Some x \<Rightarrow> x # deliveries_of us)"

lemma deliveries_of_append [simp]: "deliveries_of (a @ b) = deliveries_of a @ deliveries_of b"
  by (induction a) (auto split: option.splits)

lemma forward_recorded:
  assumes "dv_recording (rl_delivered r)"
    and "dv_channel (rl_delivered r) = deliveries_of (rl_queued r)"
  shows "dv_channel (rl_delivered (forward_updates capacity us r))
    = deliveries_of (rl_queued (forward_updates capacity us r))"
  using assms
proof (induction capacity us r rule: forward_updates.induct)
  case (2 capacity u us r)
  then show ?case
    by (auto simp: record_delivery_def send_delivery_def split: option.splits prod.splits)
qed simp

lemma forward_prefix: "\<exists>k. rl_queued (forward_updates capacity us r) = rl_queued r @ take k us"
proof (induction capacity us r rule: forward_updates.induct)
  case (2 capacity u us r)
  then show ?case
    by (cases "capacity = Some (length (rl_queued r))")
      (auto intro: exI [of _ 0] exI [of _ "Suc _"] split: option.splits)
qed simp

text \<open>
  C11: The relay forwards the stream in order and records for the poller exactly the transactions the
  pipeline took: an update the closed channel refused stays discoverable by the poller.
\<close>

theorem relay_records_only_queued:
  "let r = forward_updates capacity updates \<lparr>rl_queued = [], rl_delivered = new_delivered\<rparr>
   in (\<exists>k. rl_queued r = take k updates) \<and>
      fst (drain (rl_delivered r)) = deliveries_of (rl_queued r)"
  using forward_prefix [of capacity updates "\<lparr>rl_queued = [], rl_delivered = new_delivered\<rparr>"]
    forward_recorded [of "\<lparr>rl_queued = [], rl_delivered = new_delivered\<rparr>" capacity updates]
  by (simp add: Let_def new_delivered_def)

lemma probe_turns_append [simp]: "probe_turns (a @ b) h = probe_turns b (probe_turns a h)"
  by (simp add: probe_turns_def)

lemma probe_failures_keep: "(\<forall>t \<in> set turns. isl (fst t)) \<Longrightarrow> probe_turns turns h = h"
  by (induction turns) (auto simp: probe_turns_def probe_turn_def split: sum.splits)

lemma record_disconnections_total:
  "counter_total ''microscope_yellowstone_missed_slots_total'' (record_disconnections missed)
     = sum_list (map unat missed) \<and>
   counter_total ''microscope_yellowstone_disconnects_total'' (record_disconnections missed)
     = length missed"
  by (induction missed)
    (simp_all add: record_disconnections_def record_yellowstone_disconnect_def
      record_yellowstone_disconnects_def)

text \<open>
  C13: Readiness follows the stream probe: after a last successful probe at \<open>t\<close> and any number of failed
  ones, the endpoint is ready exactly while the age of that success is within the grace period
  (a grace of 0 turns the check off).
\<close>

theorem probe_failures_unready_after_grace:
  assumes "\<forall>f \<in> set failures. isl (fst f)" "started h" "poll_stale_after_seconds h = 0"
  shows "fst (readyz (probe_turns (earlier @ (Inr (), t) # failures) h) now) = OK_200 \<longleftrightarrow>
    stream_stale_after_seconds h = 0 \<or> unat now - unat t \<le> unat (stream_stale_after_seconds h)"
proof -
  have frame: "started (probe_turns ts h) = started h
      \<and> poll_stale_after_seconds (probe_turns ts h) = poll_stale_after_seconds h
      \<and> stream_stale_after_seconds (probe_turns ts h) = stream_stale_after_seconds h" for ts
    by (induction ts rule: rev_induct)
      (auto simp: probe_turns_def probe_turn_def record_stream_probe_success_def split: sum.splits)
  have "probe_turns (earlier @ (Inr (), t) # failures) h =
      record_stream_probe_success t (probe_turns earlier h)"
    using probe_failures_keep [OF assms(1)] by (simp add: probe_turns_def probe_turn_def)
  then show ?thesis
    using frame [of earlier] assms(2,3)
    by (simp add: readyz_fresh fresh_def record_stream_probe_success_def)
qed

theorem probe_failures_unready_after_grace_witness:
  "fst (readyz (probe_turns ([] @ (Inr (), 100) # [(Inl ''refused'', 115), (Inl ''refused'', 130)])
     (initial_health\<lparr>started := True, stream_stale_after_seconds := 90\<rparr>)) 191) \<noteq> OK_200"
  using probe_failures_unready_after_grace
    [of "[(Inl ''refused'', 115), (Inl ''refused'', 130)]"
        "initial_health\<lparr>started := True, stream_stale_after_seconds := 90\<rparr>" "[]" 100 191]
  by (simp add: initial_health_def)

end
