(* ===== verification/Files.thy ===== *)
theory Files
  imports Ordered_Map
begin

text \<open>
  The state directory and the atomic replacement of its files (\<open>files.rs\<close>). A directory is an
  ordered map from names to contents. Every step of a write can fail: the \<open>write_faults\<close> say
  where, and how many bytes had reached the temporary file; a crash leaves what the steps before
  it left. The locale \<open>atomic_write\<close> is the contract the checkpoint, the journal and the
  generated configuration files rely on.
\<close>

type_synonym directory = "(string, string) omap"

record write_faults =
  fail_directory :: bool
  fail_open :: bool
  fail_write :: "nat option"
  fail_sync :: bool
  fail_rename :: bool
  fail_directory_sync :: bool

definition no_faults :: write_faults where
  "no_faults = \<lparr>fail_directory = False, fail_open = False, fail_write = None, fail_sync = False,
     fail_rename = False, fail_directory_sync = False\<rparr>"

text \<open>The file name of \<open>temporary_path\<close>, in the same directory.\<close>

definition temporary_path :: "string \<Rightarrow> string" where
  "temporary_path name = CHR ''.'' # name @ ''.tmp''"

definition rename_file :: "string \<Rightarrow> string \<Rightarrow> directory \<Rightarrow> directory" where
  "rename_file a b d = (case om_get d a of None \<Rightarrow> d | Some c \<Rightarrow> om_insert b c (om_remove a d))"

text \<open>Create or truncate a file and write to it; a failed write leaves a prefix.\<close>

definition write_file :: "write_faults \<Rightarrow> string \<Rightarrow> string \<Rightarrow> directory \<Rightarrow> directory \<times> bool" where
  "write_file f name contents d =
     (if fail_open f then (d, False)
      else case fail_write f of
        None \<Rightarrow> (om_insert name contents d, True)
      | Some k \<Rightarrow> (om_insert name (take k contents) d, False))"

definition replace ::
  "write_faults \<Rightarrow> string \<Rightarrow> string \<Rightarrow> string \<Rightarrow> directory \<Rightarrow> directory \<times> (string + unit)" where
  "replace f name contents description d =
     (case write_file f (temporary_path name) contents d of
        (d', False) \<Rightarrow>
          (d', Inl (''writing temporary '' @ description @ '' '' @ temporary_path name))
      | (d', True) \<Rightarrow>
          if fail_rename f then (d', Inl (''installing '' @ description @ '' '' @ name))
          else (rename_file (temporary_path name) name d', Inr ()))"

lemma temporary_path_neq [simp]: "temporary_path n \<noteq> n" "n \<noteq> temporary_path n"
proof -
  have "length (temporary_path n) \<noteq> length n" by (simp add: temporary_path_def)
  then show "temporary_path n \<noteq> n" "n \<noteq> temporary_path n" by auto
qed

lemma rename_get:
  assumes "om_wf d" "om_get d a = Some c" "a \<noteq> b"
  shows "om_get (rename_file a b d) = (om_get d)(a := None, b \<mapsto> c)"
  using assms
  by (auto simp: rename_file_def om_get_om_insert om_wf_om_remove om_get_om_remove fun_eq_iff)

lemma rename_wf [simp]: "om_wf d \<Longrightarrow> om_wf (rename_file a b d)"
  by (simp add: rename_file_def om_wf_om_insert om_wf_om_remove split: option.splits)

lemma write_file_wf [simp]: "om_wf d \<Longrightarrow> om_wf (fst (write_file f n c d))"
  by (simp add: write_file_def om_wf_om_insert split: option.splits)

lemma write_file_other: "om_wf d \<Longrightarrow> m \<noteq> n \<Longrightarrow> om_get (fst (write_file f n c d)) m = om_get d m"
  by (simp add: write_file_def om_get_om_insert split: option.splits)

lemma write_file_ok: "om_wf d \<Longrightarrow> snd (write_file f n c d) \<Longrightarrow> om_get (fst (write_file f n c d)) n = Some c"
  by (simp add: write_file_def om_get_om_insert split: option.splits if_splits)

section \<open>Atomic writes\<close>

locale atomic_write =
  fixes put :: "'f \<Rightarrow> string \<Rightarrow> string \<Rightarrow> directory \<Rightarrow> directory"
    and put_ok :: "'f \<Rightarrow> string \<Rightarrow> string \<Rightarrow> directory \<Rightarrow> bool"
  assumes law_wf: "om_wf d \<Longrightarrow> om_wf (put f n c d)"
    and law_old_or_new: "om_wf d \<Longrightarrow> om_get (put f n c d) n = om_get d n \<or> om_get (put f n c d) n = Some c"
    and law_success: "om_wf d \<Longrightarrow> put_ok f n c d \<Longrightarrow> om_get (put f n c d) n = Some c"
    and law_frame: "om_wf d \<Longrightarrow> m \<noteq> n \<Longrightarrow> m \<noteq> temporary_path n \<Longrightarrow> om_get (put f n c d) m = om_get d m"
begin

text \<open>A run of writes to one file, each with its own faults.\<close>

definition puts :: "string \<Rightarrow> ('f \<times> string) list \<Rightarrow> directory \<Rightarrow> directory" where
  "puts n ws d = fold (\<lambda>w. put (fst w) n (snd w)) ws d"

lemma puts_wf: "om_wf d \<Longrightarrow> om_wf (puts n ws d)"
  by (induction ws arbitrary: d) (simp_all add: puts_def law_wf)

lemma puts_whole: "om_wf d \<Longrightarrow> om_get (puts n ws d) n \<in> insert (om_get d n) (Some ` snd ` set ws)"
proof (induction ws arbitrary: d)
  case (Cons w ws)
  have "om_get (puts n ws (put (fst w) n (snd w) d)) n
      \<in> insert (om_get (put (fst w) n (snd w) d) n) (Some ` snd ` set ws)"
    by (rule Cons.IH) (simp add: law_wf Cons.prems)
  then show ?case
    using law_old_or_new [OF Cons.prems, of "fst w" n "snd w"] by (auto simp: puts_def)
qed (simp add: puts_def)

lemma puts_frame:
  "om_wf d \<Longrightarrow> m \<noteq> n \<Longrightarrow> m \<noteq> temporary_path n \<Longrightarrow> om_get (puts n ws d) m = om_get d m"
  by (induction ws arbitrary: d) (simp_all add: puts_def law_wf law_frame)

end

text \<open>A write to the temporary file followed by a rename, or not.\<close>

lemma renamed_get:
  assumes "om_wf d" "snd (write_file f (temporary_path n) c d)"
  shows "om_get (rename_file (temporary_path n) n (fst (write_file f (temporary_path n) c d))) =
    (om_get d)(temporary_path n := None, n \<mapsto> c)"
  using rename_get [of "fst (write_file f (temporary_path n) c d)" "temporary_path n" c n]
    write_file_ok [OF assms] write_file_other [OF assms(1), of _ "temporary_path n" f c] assms(1)
  by (auto simp: fun_eq_iff)

interpretation replaced: atomic_write
  "\<lambda>f n c d. fst (replace f n c description d)" "\<lambda>f n c d. snd (replace f n c description d) = Inr ()"
  for description
proof
  fix f n c m and d :: directory
  assume wf: "om_wf d"
  have cases: "fst (replace f n c description d) = fst (write_file f (temporary_path n) c d)
      \<and> snd (replace f n c description d) \<noteq> Inr ()
    \<or> fst (replace f n c description d) =
        rename_file (temporary_path n) n (fst (write_file f (temporary_path n) c d))
      \<and> snd (write_file f (temporary_path n) c d)"
    by (auto simp: replace_def split: prod.splits bool.splits)
  show "om_wf (fst (replace f n c description d))"
    using cases wf by auto
  show "om_get (fst (replace f n c description d)) n = om_get d n
      \<or> om_get (fst (replace f n c description d)) n = Some c"
    using cases renamed_get [OF wf, of f n c] write_file_other [OF wf] by auto
  show "om_get (fst (replace f n c description d)) n = Some c"
    if "snd (replace f n c description d) = Inr ()"
    using cases renamed_get [OF wf, of f n c] that by auto
  show "om_get (fst (replace f n c description d)) m = om_get d m"
    if "m \<noteq> n" "m \<noteq> temporary_path n"
    using cases renamed_get [OF wf, of f n c] write_file_other [OF wf] that by auto
qed

end
