(* ===== verification/Checkpoint.thy ===== *)
theory Checkpoint
  imports Files Solana Progress
begin

text \<open>
  The durable checkpoint of the poller (\<open>rpc_polling/checkpoint.rs\<close>): its identity, the write with
  its throttle and its faults, the load with its validation and the quarantine of a corrupt file.
  The JSON text of a document is a parameter; \<open>json_restores\<close> says that decoding what was written
  gives the document back.
\<close>

record checkpoint_identity =
  ci_genesis_hash :: string
  ci_program_id :: string
  ci_addresses :: "string list"

record checkpoint_document =
  cd_schema_version :: u32
  cd_genesis_hash :: string
  cd_program_id :: string
  cd_addresses :: "string list"
  cd_cursors :: "(string, slot) omap"
  cd_recent_signatures :: "(string, slot) omap"
  cd_quarantined_signatures :: "string list"

record document_codec =
  encode_document :: "checkpoint_document \<Rightarrow> string"
  decode_document :: "string \<Rightarrow> string + checkpoint_document"

record checkpoint_store =
  cs_name :: string
  cs_identity :: checkpoint_identity
  cs_replay_window :: slot
  cs_last_write_completed_at :: "instant option"

record checkpoint_snapshot =
  sn_cursors :: "(string, address_cursor) omap"
  sn_recent_signatures :: "(signature, slot) omap"
  sn_quarantined_signatures :: "signature list"

datatype checkpoint_load_outcome =
    Missing
  | Loaded checkpoint_snapshot
  | Corrupt string string   \<comment> \<open>backup name, reason\<close>

datatype checkpoint_error = CheckpointMismatch string | CheckpointIo string

definition checkpoint_schema_version :: u32 where "checkpoint_schema_version = 1"
definition checkpoint_write_interval :: duration where "checkpoint_write_interval = seconds 60"
definition checkpoint_activity_write_interval :: duration where
  "checkpoint_activity_write_interval = seconds 10"

definition new_store :: "string \<Rightarrow> string \<Rightarrow> string \<Rightarrow> string list \<Rightarrow> slot \<Rightarrow> checkpoint_store" where
  "new_store name genesis_hash program_id addresses replay_window =
     \<lparr>cs_name = name,
      cs_identity = \<lparr>ci_genesis_hash = genesis_hash, ci_program_id = program_id,
        ci_addresses = remdups_adj (sort addresses)\<rparr>,
      cs_replay_window = replay_window, cs_last_write_completed_at = None\<rparr>"

text \<open>The entries of the directory, or the error of opening it (\<open>None\<close> when it does not exist).\<close>

definition quarantined_file_count ::
  "checkpoint_store \<Rightarrow> (string + string list option) \<Rightarrow> string + nat" where
  "quarantined_file_count cs listing =
     (case listing of
        Inl e \<Rightarrow> Inl ''reading RPC checkpoint directory''
      | Inr None \<Rightarrow> Inr 0
      | Inr (Some names) \<Rightarrow>
          Inr (length (filter (\<lambda>n. starts_with (cs_name cs @ ''.corrupt-'') n) names)))"

section \<open>Writing\<close>

definition checkpoint_document_of ::
  "codec \<Rightarrow> checkpoint_store \<Rightarrow> (string, address_cursor) omap \<Rightarrow> (signature, slot) omap
   \<Rightarrow> signature list \<Rightarrow> checkpoint_document"
where
  "checkpoint_document_of C cs curs recent quarantined =
     \<lparr>cd_schema_version = checkpoint_schema_version,
      cd_genesis_hash = ci_genesis_hash (cs_identity cs),
      cd_program_id = ci_program_id (cs_identity cs),
      cd_addresses = ci_addresses (cs_identity cs),
      cd_cursors = om_of_list (map (\<lambda>e. (fst e, scanned_slot (snd e))) curs),
      cd_recent_signatures = om_of_list (map (\<lambda>e. (sig_str C (fst e), snd e)) recent),
      cd_quarantined_signatures = oset_of_list (map (sig_str C) quarantined)\<rparr>"

definition newline :: char where "newline = CHR 0x0A"

text \<open>The file operations of a write: temporary file, sync, rename, sync of the directory.\<close>

definition write_checkpoint ::
  "write_faults \<Rightarrow> string \<Rightarrow> string \<Rightarrow> directory \<Rightarrow> directory \<times> (string + unit)" where
  "write_checkpoint f name encoded d =
     (if fail_directory f then (d, Inl ''creating RPC checkpoint directory'')
      else case write_file f (temporary_path name) encoded d of
        (d', False) \<Rightarrow>
          (d', Inl (if fail_open f then ''opening temporary RPC checkpoint '' @ temporary_path name
                    else ''writing the RPC checkpoint''))
      | (d', True) \<Rightarrow>
          if fail_sync f then (d', Inl ''syncing the RPC checkpoint'')
          else if fail_rename f then (d', Inl (''renaming temporary RPC checkpoint '' @ temporary_path name @ '' to '' @ name))
          else (rename_file (temporary_path name) name d',
                if fail_directory_sync f then Inl ''syncing the RPC checkpoint directory'' else Inr ()))"

definition checkpoint_due :: "checkpoint_store \<Rightarrow> instant \<Rightarrow> bool \<Rightarrow> bool" where
  "checkpoint_due cs now activity =
     (case cs_last_write_completed_at cs of
        None \<Rightarrow> True
      | Some saved \<Rightarrow>
          \<not> now - saved < (if activity then checkpoint_activity_write_interval
                           else checkpoint_write_interval))"

definition save_if_due ::
  "codec \<Rightarrow> document_codec \<Rightarrow> write_faults \<Rightarrow> instant \<Rightarrow> instant
   \<Rightarrow> (string, address_cursor) omap \<Rightarrow> (signature, slot) omap \<Rightarrow> signature list \<Rightarrow> bool
   \<Rightarrow> checkpoint_store \<Rightarrow> directory \<Rightarrow> checkpoint_store \<times> directory \<times> (string + bool)"
where
  "save_if_due C J f now completed_at curs recent quarantined activity cs d =
     (if om_keys curs \<noteq> ci_addresses (cs_identity cs) then (cs, d, Inr False)
      else if \<not> checkpoint_due cs now activity then (cs, d, Inr False)
      else
        (case write_checkpoint f (cs_name cs)
                (encode_document J (checkpoint_document_of C cs curs recent quarantined) @ [newline]) d of
           (d', Inl e) \<Rightarrow> (cs, d', Inl e)
         | (d', Inr _) \<Rightarrow> (cs\<lparr>cs_last_write_completed_at := Some completed_at\<rparr>, d', Inr True)))"

section \<open>Loading\<close>

definition validate_identity :: "checkpoint_store \<Rightarrow> checkpoint_document \<Rightarrow> checkpoint_error + unit" where
  "validate_identity cs doc =
     (if cd_schema_version doc \<noteq> checkpoint_schema_version
      then Inl (CheckpointMismatch (''RPC checkpoint '' @ cs_name cs @ '' uses schema version ''
             @ show_u64 (cd_schema_version doc) @ '', expected '' @ show_u64 checkpoint_schema_version))
      else if cd_genesis_hash doc \<noteq> ci_genesis_hash (cs_identity cs)
      then Inl (CheckpointMismatch (''RPC checkpoint '' @ cs_name cs @ '' belongs to genesis hash ''
             @ cd_genesis_hash doc @ '', not '' @ ci_genesis_hash (cs_identity cs)))
      else if cd_program_id doc \<noteq> ci_program_id (cs_identity cs)
      then Inl (CheckpointMismatch (''RPC checkpoint '' @ cs_name cs @ '' belongs to program ''
             @ cd_program_id doc @ '', not '' @ ci_program_id (cs_identity cs)))
      else if cd_addresses doc \<noteq> ci_addresses (cs_identity cs)
      then Inl (CheckpointMismatch (''RPC checkpoint '' @ cs_name cs
             @ '' monitors different addresses; remove it before changing the deployment target''))
      else Inr ())"

definition corrupt_path :: "string \<Rightarrow> nat \<Rightarrow> string" where
  "corrupt_path name timestamp = name @ ''.corrupt-'' @ show_nat timestamp"

text \<open>The faults of a load: reading the file, and moving a corrupt one aside.\<close>

record load_faults =
  fail_read :: bool
  fail_move :: bool
  fail_move_sync :: bool

definition quarantine_corrupt ::
  "load_faults \<Rightarrow> nat \<Rightarrow> checkpoint_store \<Rightarrow> string \<Rightarrow> directory
   \<Rightarrow> directory \<times> (checkpoint_error + checkpoint_load_outcome)"
where
  "quarantine_corrupt f timestamp cs reason d =
     (let backup = corrupt_path (cs_name cs) timestamp
      in if fail_move f then (d, Inl (CheckpointIo (''moving corrupt RPC checkpoint '' @ cs_name cs)))
         else let d' = rename_file (cs_name cs) backup d
              in if fail_move_sync f
                 then (d', Inl (CheckpointIo ''syncing the RPC checkpoint directory''))
                 else (d', Inr (Corrupt backup reason)))"

definition restore_signatures :: "codec \<Rightarrow> (string, slot) omap \<Rightarrow> string + (signature, slot) omap" where
  "restore_signatures C entries =
     bind_r (traverse_r (\<lambda>e. case parse_sig C (fst e) of
                Some s \<Rightarrow> Inr (s, snd e)
              | None \<Rightarrow> Inl (''checkpoint contains invalid signature '' @ fst e)) entries)
       (\<lambda>es. Inr (om_of_list es))"

definition restore_quarantine :: "codec \<Rightarrow> string list \<Rightarrow> string + signature list" where
  "restore_quarantine C entries =
     bind_r (traverse_r (\<lambda>t. case parse_sig C t of
                Some s \<Rightarrow> Inr s
              | None \<Rightarrow> Inl (''checkpoint contains invalid quarantined signature '' @ t)) entries)
       (\<lambda>ss. Inr (oset_of_list ss))"

definition load_document ::
  "codec \<Rightarrow> checkpoint_store \<Rightarrow> checkpoint_document \<Rightarrow> string + checkpoint_snapshot" where
  "load_document C cs doc =
     (if om_keys (cd_cursors doc) \<noteq> ci_addresses (cs_identity cs)
      then Inl ''checkpoint has incomplete cursor data''
      else bind_r (restore_signatures C (cd_recent_signatures doc)) (\<lambda>recent.
        let cs' = om_of_list (map (\<lambda>e. (fst e, \<lparr>scanned_slot = sat_sub (snd e) (cs_replay_window cs)\<rparr>))
                    (cd_cursors doc))
        in bind_r (restore_quarantine C (cd_quarantined_signatures doc)) (\<lambda>quarantined.
             Inr \<lparr>sn_cursors = cs', sn_recent_signatures = recent,
                  sn_quarantined_signatures = quarantined\<rparr>)))"

definition load ::
  "codec \<Rightarrow> document_codec \<Rightarrow> load_faults \<Rightarrow> nat \<Rightarrow> checkpoint_store \<Rightarrow> directory
   \<Rightarrow> directory \<times> (checkpoint_error + checkpoint_load_outcome)"
where
  "load C J f timestamp cs d =
     (if fail_read f then (d, Inl (CheckpointIo (''reading RPC checkpoint '' @ cs_name cs)))
      else case om_get d (cs_name cs) of
        None \<Rightarrow> (d, Inr Missing)
      | Some raw \<Rightarrow>
          (case decode_document J raw of
             Inl e \<Rightarrow> quarantine_corrupt f timestamp cs (''checkpoint JSON is invalid: '' @ e) d
           | Inr doc \<Rightarrow>
               (case validate_identity cs doc of
                  Inl e \<Rightarrow> (d, Inl e)
                | Inr _ \<Rightarrow>
                    (case load_document C cs doc of
                       Inl reason \<Rightarrow> quarantine_corrupt f timestamp cs reason d
                     | Inr snapshot \<Rightarrow> (d, Inr (Loaded snapshot))))))"

section \<open>The write is atomic\<close>

lemma write_checkpoint_cases:
  "fst (write_checkpoint f n c d) = d \<and> snd (write_checkpoint f n c d) \<noteq> Inr ()
   \<or> fst (write_checkpoint f n c d) = fst (write_file f (temporary_path n) c d)
       \<and> snd (write_checkpoint f n c d) \<noteq> Inr ()
   \<or> fst (write_checkpoint f n c d) =
       rename_file (temporary_path n) n (fst (write_file f (temporary_path n) c d))
     \<and> snd (write_file f (temporary_path n) c d)"
  by (auto simp: write_checkpoint_def split: prod.splits bool.splits)

interpretation checkpoint_file: atomic_write
  "\<lambda>f n c d. fst (write_checkpoint f n c d)" "\<lambda>f n c d. snd (write_checkpoint f n c d) = Inr ()"
proof
  fix f n c m and d :: directory
  assume wf: "om_wf d"
  note cases = write_checkpoint_cases [of f n c d]
  show "om_wf (fst (write_checkpoint f n c d))"
    using cases wf by auto
  show "om_get (fst (write_checkpoint f n c d)) n = om_get d n
      \<or> om_get (fst (write_checkpoint f n c d)) n = Some c"
    using cases renamed_get [OF wf, of f n c] write_file_other [OF wf] by auto
  show "om_get (fst (write_checkpoint f n c d)) n = Some c"
    if "snd (write_checkpoint f n c d) = Inr ()"
    using cases renamed_get [OF wf, of f n c] that by auto
  show "om_get (fst (write_checkpoint f n c d)) m = om_get d m"
    if "m \<noteq> n" "m \<noteq> temporary_path n"
    using cases renamed_get [OF wf, of f n c] write_file_other [OF wf] that by auto
qed

abbreviation checkpoint_text ::
  "codec \<Rightarrow> document_codec \<Rightarrow> checkpoint_store \<Rightarrow> (string, address_cursor) omap
   \<Rightarrow> (signature, slot) omap \<Rightarrow> signature list \<Rightarrow> string" where
  "checkpoint_text C J cs curs recent quarantined \<equiv>
     encode_document J (checkpoint_document_of C cs curs recent quarantined) @ [newline]"

lemma save_cases:
  assumes "save_if_due C J f now at curs recent quarantined activity cs d = (cs', d', r)"
  obtains "cs' = cs" "d' = d" "r = Inr False"
      "om_keys curs \<noteq> ci_addresses (cs_identity cs) \<or> \<not> checkpoint_due cs now activity"
  | "om_keys curs = ci_addresses (cs_identity cs)" "checkpoint_due cs now activity"
      "d' = fst (write_checkpoint f (cs_name cs) (checkpoint_text C J cs curs recent quarantined) d)"
      "r \<noteq> Inr False"
      "r = Inr True \<longleftrightarrow>
         snd (write_checkpoint f (cs_name cs) (checkpoint_text C J cs curs recent quarantined) d) = Inr ()"
      "cs' = (if r = Inr True then cs\<lparr>cs_last_write_completed_at := Some at\<rparr> else cs)"
proof (cases "om_keys curs \<noteq> ci_addresses (cs_identity cs) \<or> \<not> checkpoint_due cs now activity")
  case True
  then have "save_if_due C J f now at curs recent quarantined activity cs d = (cs, d, Inr False)"
    unfolding save_if_due_def by simp
  with assms True show thesis by (intro that(1)) simp_all
next
  case False
  let ?w = "write_checkpoint f (cs_name cs) (checkpoint_text C J cs curs recent quarantined) d"
  have s: "save_if_due C J f now at curs recent quarantined activity cs d =
      (case ?w of (d', Inl e) \<Rightarrow> (cs, d', Inl e)
        | (d', Inr _) \<Rightarrow> (cs\<lparr>cs_last_write_completed_at := Some at\<rparr>, d', Inr True))"
    using False unfolding save_if_due_def by simp
  obtain d2 q where w: "?w = (d2, q)" by (cases ?w)
  show thesis
  proof (cases q)
    case (Inl e)
    then have "cs' = cs" "d' = d2" "r = Inl e" using assms w s by simp_all
    then show thesis using False w Inl by (intro that(2)) simp_all
  next
    case (Inr u)
    then have "cs' = cs\<lparr>cs_last_write_completed_at := Some at\<rparr>" "d' = d2" "r = Inr True"
      using assms w s by simp_all
    then show thesis using False w Inr by (intro that(2)) simp_all
  qed
qed

section \<open>What was written is what is loaded\<close>

definition json_restores :: "document_codec \<Rightarrow> checkpoint_document \<Rightarrow> bool" where
  "json_restores J doc \<longleftrightarrow> decode_document J (encode_document J doc @ [newline]) = Inr doc"

lemma set_om_of_list:
  assumes "distinct (map fst es)"
  shows "set (om_of_list es) = set es"
proof -
  have "(k, v) \<in> set (om_of_list es) \<longleftrightarrow> (k, v) \<in> set es" for k v
    using om_get_Some [OF om_wf_of_list, of es k v] assms by (simp add: om_get_of_list)
  then show ?thesis by auto
qed

lemma map_of_set_eq:
  assumes "distinct (map fst a)" "distinct (map fst b)" "set a = set b"
  shows "map_of a = map_of b"
  using assms by (simp add: map_of_inject_set)

lemma restore_saved_signatures:
  assumes "codec_ok C" "om_wf recent"
  shows "restore_signatures C (om_of_list (map (\<lambda>e. (sig_str C (fst e), snd e)) recent)) = Inr recent"
proof -
  let ?es = "om_of_list (map (\<lambda>e. (sig_str C (fst e), snd e)) recent)"
  let ?decoded = "map (\<lambda>e. (the (parse_sig C (fst e)), snd e)) ?es"
  have d: "distinct (map fst (map (\<lambda>e. (sig_str C (fst e), snd e)) recent))"
    using distinct_map_inj [OF codec_sig_inj [OF assms(1)] om_wf_distinct [OF assms(2)]]
    by (simp add: comp_def)
  have set: "set ?es = (\<lambda>e. (sig_str C (fst e), snd e)) ` set recent"
    by (simp add: set_om_of_list [OF d])
  have parse: "parse_sig C (fst e) = Some (the (parse_sig C (fst e)))
      \<and> sig_str C (the (parse_sig C (fst e))) = fst e" if "e \<in> set ?es" for e
    using that set codec_sig [OF assms(1)] by auto
  have "traverse_r (\<lambda>e. case parse_sig C (fst e) of
                Some s \<Rightarrow> Inr (s, snd e)
              | None \<Rightarrow> Inl (''checkpoint contains invalid signature '' @ fst e)) ?es = Inr ?decoded"
    using parse by (intro traverse_r_map) (auto split: option.splits)
  moreover have "om_of_list ?decoded = recent"
  proof (rule om_eqI)
    have db: "distinct (map fst ?decoded)"
    proof -
      have "distinct (map fst ?es)" by (rule om_wf_distinct) simp
      moreover have "inj_on (\<lambda>t. the (parse_sig C t)) (fst ` set ?es)"
        by (rule inj_on_inverseI [of _ "sig_str C"]) (use parse in auto)
      ultimately have "distinct (map (\<lambda>t. the (parse_sig C t)) (map fst ?es))"
        by (simp only: distinct_map [of _ "map fst ?es"] set_map simp_thms)
      then show ?thesis by (simp add: comp_def)
    qed
    have "set ?decoded = set recent"
      using codec_sig [OF assms(1)] by (auto simp: set image_image)
    then show "om_get (om_of_list ?decoded) = om_get recent"
      using map_of_set_eq [OF db om_wf_distinct [OF assms(2)]]
      by (simp add: om_get_of_list [OF db]) (simp add: om_get_eq)
  qed (simp_all add: assms)
  ultimately show ?thesis by (simp add: restore_signatures_def)
qed

lemma restore_saved_quarantine:
  assumes "codec_ok C" "sorted quarantined" "distinct quarantined"
  shows "restore_quarantine C (oset_of_list (map (sig_str C) quarantined)) = Inr quarantined"
proof -
  let ?ts = "oset_of_list (map (sig_str C) quarantined)"
  have "traverse_r (\<lambda>t. case parse_sig C t of
                Some s \<Rightarrow> Inr s
              | None \<Rightarrow> Inl (''checkpoint contains invalid quarantined signature '' @ t)) ?ts
      = Inr (map (\<lambda>t. the (parse_sig C t)) ?ts)"
    using codec_sig [OF assms(1)] by (intro traverse_r_map) auto
  moreover have "oset_of_list (map (\<lambda>t. the (parse_sig C t)) ?ts) = quarantined"
  proof (rule sorted_distinct_set_unique [OF oset_of_list_sorted assms(2,3)])
    show "set (oset_of_list (map (\<lambda>t. the (parse_sig C t)) ?ts)) = set quarantined"
      using codec_sig [OF assms(1)] by (auto simp: image_image)
  qed
  ultimately show ?thesis by (simp add: restore_quarantine_def)
qed

lemma load_saved_document:
  assumes "codec_ok C" "om_wf curs" "om_wf recent" "sorted quarantined" "distinct quarantined"
    and "json_restores J (checkpoint_document_of C cs curs recent quarantined)"
    and "om_keys curs = ci_addresses (cs_identity cs)" "\<not> fail_read g"
    and "om_get d (cs_name cs) = Some (checkpoint_text C J cs curs recent quarantined)"
  shows "load C J g timestamp cs d = (d, Inr (Loaded
    \<lparr>sn_cursors = map (\<lambda>e. (fst e, \<lparr>scanned_slot = sat_sub (scanned_slot (snd e)) (cs_replay_window cs)\<rparr>)) curs,
     sn_recent_signatures = recent, sn_quarantined_signatures = quarantined\<rparr>))"
proof -
  let ?doc = "checkpoint_document_of C cs curs recent quarantined"
  let ?rewound = "map (\<lambda>e. (fst e, \<lparr>scanned_slot = sat_sub (scanned_slot (snd e)) (cs_replay_window cs)\<rparr>)) curs"
  have curs: "cd_cursors ?doc = map (\<lambda>e. (fst e, scanned_slot (snd e))) curs"
    using assms(2) by (simp add: checkpoint_document_of_def om_of_list_id)
  have "validate_identity cs ?doc = Inr ()"
    by (simp add: validate_identity_def checkpoint_document_of_def)
  moreover have "load_document C cs ?doc = Inr
    \<lparr>sn_cursors = ?rewound, sn_recent_signatures = recent, sn_quarantined_signatures = quarantined\<rparr>"
  proof -
    have "om_keys (cd_cursors ?doc) = ci_addresses (cs_identity cs)"
      using assms(7) by (simp add: curs)
    moreover have "restore_signatures C (cd_recent_signatures ?doc) = Inr recent"
      using restore_saved_signatures [OF assms(1,3)] by (simp add: checkpoint_document_of_def)
    moreover have "restore_quarantine C (cd_quarantined_signatures ?doc) = Inr quarantined"
      using restore_saved_quarantine [OF assms(1,4,5)] by (simp add: checkpoint_document_of_def)
    moreover have "om_of_list (map (\<lambda>e. (fst e, \<lparr>scanned_slot = sat_sub (snd e) (cs_replay_window cs)\<rparr>))
          (cd_cursors ?doc)) = ?rewound"
      using assms(2) om_wf_map_values [of "\<lambda>e. \<lparr>scanned_slot = sat_sub (scanned_slot (snd e)) (cs_replay_window cs)\<rparr>" curs]
      by (simp add: curs om_of_list_id comp_def)
    ultimately show ?thesis by (simp add: load_document_def)
  qed
  ultimately show ?thesis
    using assms(6,8,9) by (simp add: load_def json_restores_def)
qed

section \<open>Properties\<close>

text \<open>
  C14: A saved checkpoint restores: a load with the same identity gives the cursors back, each rewound
  by the replay window, and exactly the recorded and the quarantined signatures.
\<close>

theorem checkpoint_roundtrip:
  assumes "codec_ok C" "om_wf d" "om_wf curs" "om_wf recent" "sorted quarantined" "distinct quarantined"
    and "json_restores J (checkpoint_document_of C cs curs recent quarantined)"
    and "save_if_due C J f now at curs recent quarantined activity cs d = (cs', d', Inr True)"
    and "\<not> fail_read g"
  shows "load C J g timestamp cs d' = (d', Inr (Loaded
    \<lparr>sn_cursors = map (\<lambda>e. (fst e, \<lparr>scanned_slot = sat_sub (scanned_slot (snd e)) (cs_replay_window cs)\<rparr>)) curs,
     sn_recent_signatures = recent, sn_quarantined_signatures = quarantined\<rparr>))"
  using assms(8)
proof (cases rule: save_cases)
  case 2
  have stored: "om_get d' (cs_name cs) = Some (checkpoint_text C J cs curs recent quarantined)"
    using 2(5) unfolding 2(3) by (intro checkpoint_file.law_success [OF assms(2)]) simp
  show ?thesis
    by (rule load_saved_document [OF assms(1,3-7) 2(1) assms(9) stored])
qed simp

text \<open>
  C15: A write that fails or is interrupted at any step leaves the checkpoint file either as it was or
  as the complete new document, and touches nothing else but its own temporary file; the write
  is throttled from then on only if it succeeded.
\<close>

theorem checkpoint_write_atomic:
  assumes "om_wf d" "save_if_due C J f now at curs recent quarantined activity cs d = (cs', d', r)"
  shows "om_get d' (cs_name cs) \<in>
      {om_get d (cs_name cs), Some (checkpoint_text C J cs curs recent quarantined)}
    \<and> (om_get d')(cs_name cs := None, temporary_path (cs_name cs) := None)
        = (om_get d)(cs_name cs := None, temporary_path (cs_name cs) := None)
    \<and> cs_last_write_completed_at cs' =
        (if r = Inr True then Some at else cs_last_write_completed_at cs)"
  using assms(2)
proof (cases rule: save_cases)
  case 2
  then show ?thesis
    using checkpoint_file.law_old_or_new [OF assms(1)] checkpoint_file.law_frame [OF assms(1)]
    by (auto simp: fun_eq_iff)
qed auto

text \<open>
  A partial set of cursors is never written: a write leaves the directory untouched unless every
  address of the identity has its cursor, and unless the write is due.
\<close>

theorem partial_cursors_never_written:
  assumes "save_if_due C J f now at curs recent quarantined activity cs d = (cs', d', r)"
    and "om_keys curs \<noteq> ci_addresses (cs_identity cs) \<or>
      (\<exists>saved. cs_last_write_completed_at cs = Some saved
         \<and> now - saved < (if activity then seconds 10 else seconds 60))"
  shows "cs' = cs \<and> d' = d \<and> r = Inr False"
  using assms(1)
proof (cases rule: save_cases)
  case 2
  with assms(2) show ?thesis
    by (auto simp: checkpoint_due_def checkpoint_activity_write_interval_def
        checkpoint_write_interval_def split: if_splits)
qed simp

lemma quarantine_corrupt_cases:
  assumes "quarantine_corrupt f timestamp cs reason d = (d', r)"
  obtains e where "d' = d" "r = Inl (CheckpointIo e)"
  | "d' = rename_file (cs_name cs) (corrupt_path (cs_name cs) timestamp) d"
    "(\<exists>e. r = Inl (CheckpointIo e)) \<or> r = Inr (Corrupt (corrupt_path (cs_name cs) timestamp) reason)"
proof (cases "fail_move f")
  case True
  then have "d' = d" "\<exists>e. r = Inl (CheckpointIo e)"
    using assms unfolding quarantine_corrupt_def Let_def by simp_all blast
  then show thesis using that(1) by blast
next
  case False
  then have "d' = rename_file (cs_name cs) (corrupt_path (cs_name cs) timestamp) d"
    "r = (if fail_move_sync f then Inl (CheckpointIo ''syncing the RPC checkpoint directory'')
          else Inr (Corrupt (corrupt_path (cs_name cs) timestamp) reason))"
    using assms unfolding quarantine_corrupt_def Let_def by (simp_all split: if_splits)
  then show thesis using that(2) by (metis (full_types))
qed

text \<open>
  C16: A load never destroys a checkpoint: the file stays in place with its contents, or its contents
  are found whole under the backup name the load reports; a checkpoint of another deployment is an
  error that changes nothing.
\<close>

theorem load_preserves_contents:
  assumes "om_wf d" "load C J f timestamp cs d = (d', r)" "om_get d (cs_name cs) = Some raw"
  shows "(d' = d \<or> om_get d' (corrupt_path (cs_name cs) timestamp) = Some raw
           \<and> (om_get d')(corrupt_path (cs_name cs) timestamp := None)
              = (om_get d)(cs_name cs := None, corrupt_path (cs_name cs) timestamp := None))
    \<and> (case r of
         Inl (CheckpointMismatch e) \<Rightarrow> d' = d
       | Inr (Corrupt backup reason) \<Rightarrow> om_get d' backup = Some raw \<and> om_get d' (cs_name cs) = None
       | Inr (Loaded snapshot) \<Rightarrow> d' = d
       | Inr Missing \<Rightarrow> False
       | Inl (CheckpointIo e) \<Rightarrow> True)"
proof -
  let ?b = "corrupt_path (cs_name cs) timestamp"
  have nb: "cs_name cs \<noteq> ?b" by (simp add: corrupt_path_def)
  have moved: "om_get (rename_file (cs_name cs) ?b d) = (om_get d)(cs_name cs := None, ?b \<mapsto> raw)"
    by (rule rename_get [OF assms(1,3) nb])
  have q: ?thesis if "quarantine_corrupt f timestamp cs reason d = (d', r)" for reason
    using that
  proof (cases rule: quarantine_corrupt_cases)
    case 2
    have "om_get d' ?b = Some raw" "om_get d' (cs_name cs) = None"
      "(om_get d')(?b := None) = (om_get d)(cs_name cs := None, ?b := None)"
      using nb by (simp_all add: 2(1) moved)
    then show ?thesis using 2(2) by auto
  qed simp
  have v: "\<And>doc e. validate_identity cs doc = Inl e \<Longrightarrow> \<exists>m. e = CheckpointMismatch m"
    by (auto simp: validate_identity_def split: if_splits)
  show ?thesis
  proof (cases "fail_read f")
    case False
    show ?thesis
    proof (cases "decode_document J raw")
      case (Inl e)
      then show ?thesis using q False assms(2,3) by (simp add: load_def)
    next
      case doc: (Inr doc)
      show ?thesis
      proof (cases "validate_identity cs doc")
        case (Inl e)
        then show ?thesis using v [OF Inl] doc False assms(2,3) by (auto simp: load_def)
      next
        case (Inr u)
        then show ?thesis
          using q doc False assms(2,3)
          by (cases "load_document C cs doc") (auto simp: load_def)
      qed
    qed
  qed (use assms(2) in \<open>auto simp: load_def\<close>)
qed

section \<open>A concrete checkpoint\<close>

definition demo_store :: checkpoint_store where
  "demo_store = new_store ''rpc-polling.json'' ''genesis'' ''program'' [''5''] 30"

definition demo_document :: checkpoint_document where
  "demo_document = checkpoint_document_of decimal_codec demo_store [(''5'', \<lparr>scanned_slot = 120\<rparr>)] [(7, 100)] [9]"

definition demo_json :: document_codec where
  "demo_json = \<lparr>encode_document = (\<lambda>doc. ''{}''),
     decode_document = (\<lambda>t. if t = ''{}'' @ [newline] then Inr demo_document else Inl ''invalid'')\<rparr>"

lemma demo_store_fields [simp]:
  "cs_name demo_store = ''rpc-polling.json''" "ci_addresses (cs_identity demo_store) = [''5'']"
  "cs_last_write_completed_at demo_store = None" "cs_replay_window demo_store = 30"
  by (simp_all add: demo_store_def new_store_def)

lemma demo_write:
  "write_checkpoint no_faults ''rpc-polling.json'' c [] = ([(''rpc-polling.json'', c)], Inr ())"
  by (simp add: write_checkpoint_def no_faults_def write_file_def rename_file_def om_get_def om_remove_def)

lemma demo_save:
  "save_if_due decimal_codec demo_json no_faults 0 1 [(''5'', \<lparr>scanned_slot = 120\<rparr>)] [(7, 100)] [9] True
     demo_store [] =
   (demo_store\<lparr>cs_last_write_completed_at := Some 1\<rparr>,
    [(''rpc-polling.json'', ''{}'' @ [newline])], Inr True)"
  by (simp add: save_if_due_def om_keys_def checkpoint_due_def demo_write) (simp add: demo_json_def)

lemma demo_restores: "json_restores demo_json demo_document"
  by (simp add: json_restores_def demo_json_def)

theorem checkpoint_roundtrip_witness:
  "snd (load decimal_codec demo_json \<lparr>fail_read = False, fail_move = False, fail_move_sync = False\<rparr> 0
      demo_store [(''rpc-polling.json'', ''{}'' @ [newline])]) =
   Inr (Loaded \<lparr>sn_cursors = [(''5'', \<lparr>scanned_slot = 90\<rparr>)], sn_recent_signatures = [(7, 100)],
     sn_quarantined_signatures = [9]\<rparr>)"
  using checkpoint_roundtrip [OF decimal_codec_ok _ _ _ _ _ demo_restores [unfolded demo_document_def]
      demo_save, of "\<lparr>fail_read = False, fail_move = False, fail_move_sync = False\<rparr>" 0]
  by (simp add: om_wf_Cons om_keys_def sat_sub_def)

theorem checkpoint_write_atomic_witness:
  "om_get [(''rpc-polling.json'', ''{}'' @ [newline])] ''rpc-polling.json'' \<in>
     {None, Some (checkpoint_text decimal_codec demo_json demo_store [(''5'', \<lparr>scanned_slot = 120\<rparr>)] [(7, 100)] [9])}"
  using checkpoint_write_atomic [OF om_wf_Nil demo_save]
  by (simp add: om_get_def)

theorem partial_cursors_never_written_witness:
  "save_if_due decimal_codec demo_json no_faults 0 1 [] [] [] True demo_store [] = (demo_store, [], Inr False)"
proof -
  obtain cs' d' r where s:
    "save_if_due decimal_codec demo_json no_faults 0 1 [] [] [] True demo_store [] = (cs', d', r)"
    by (cases "save_if_due decimal_codec demo_json no_faults 0 1 [] [] [] True demo_store []")
  then show ?thesis
    using partial_cursors_never_written [OF s] by (simp add: om_keys_def)
qed

theorem load_preserves_contents_witness:
  "om_get [(''rpc-polling.json.corrupt-5'', ''x'')] ''rpc-polling.json.corrupt-5'' = Some ''x''"
proof -
  have b: "corrupt_path ''rpc-polling.json'' 5 = ''rpc-polling.json.corrupt-5''"
    by (simp add: corrupt_path_def show_nat.simps digit_char_def) code_simp
  have l: "load decimal_codec demo_json \<lparr>fail_read = False, fail_move = False, fail_move_sync = False\<rparr> 5
      demo_store [(''rpc-polling.json'', ''x'')] =
    ([(''rpc-polling.json.corrupt-5'', ''x'')],
     Inr (Corrupt ''rpc-polling.json.corrupt-5'' (''checkpoint JSON is invalid: '' @ ''invalid'')))"
    by (simp add: load_def om_get_def demo_json_def newline_def quarantine_corrupt_def b
        rename_file_def om_remove_def Let_def)
  show ?thesis
    using load_preserves_contents [OF _ l, of "''x''"] by (simp add: om_wf_Cons om_keys_def om_get_def)
qed

end
