(* ===== verification/Shipped.thy ===== *)
theory Shipped
  imports Files Solana
begin

text \<open>
  The journal of shipped transactions (\<open>shipped.rs\<close>): one text file in the state directory, an
  identity header and a line per transaction whose records were logged, and the in-memory set of
  what was written. Every file operation can fail.
\<close>

type_synonym entry = "signature \<times> slot"

record journal_state =
  js_file :: bool   \<comment> \<open>the append handle is open\<close>
  js_written :: "signature set"
  js_identity :: "string option"

definition journal_state_default :: journal_state where
  "journal_state_default = \<lparr>js_file = False, js_written = {}, js_identity = None\<rparr>"

text \<open>The process-wide journal: \<open>None\<close> until one is installed; the first installation wins.\<close>

record journal =
  jn_name :: string
  jn_state :: journal_state

definition install_journal :: "string \<Rightarrow> journal option \<Rightarrow> journal option" where
  "install_journal name j = (case j of
     None \<Rightarrow> Some \<lparr>jn_name = name, jn_state = journal_state_default\<rparr> | Some _ \<Rightarrow> j)"

definition newline_char :: char where "newline_char = CHR 0x0A"

definition identity_prefix :: string where "identity_prefix = ''identity ''"

definition entry_text :: "codec \<Rightarrow> entry \<Rightarrow> string" where
  "entry_text C e = sig_str C (fst e) @ CHR '' '' # show_u64 (snd e)"

definition entry_line :: "codec \<Rightarrow> entry \<Rightarrow> string" where
  "entry_line C e = entry_text C e @ [newline_char]"

definition header_line :: "string \<Rightarrow> string" where
  "header_line identity = identity_prefix @ identity @ [newline_char]"

section \<open>Reading\<close>

definition parse_entry :: "codec \<Rightarrow> string \<Rightarrow> entry option" where
  "parse_entry C line =
     (case split_once (CHR '' '') line of
        None \<Rightarrow> None
      | Some (s, sl) \<Rightarrow>
          (case parse_sig C s of
             None \<Rightarrow> None
           | Some sg \<Rightarrow> map_option (\<lambda>n. (sg, n)) (parse_u64 sl)))"

definition read_header :: "string list \<Rightarrow> string option" where
  "read_header ls = (case ls of [] \<Rightarrow> None | l # _ \<Rightarrow> strip_prefix identity_prefix l)"

text \<open>The entries of a text; unreadable lines are skipped.\<close>

definition read_text :: "codec \<Rightarrow> string \<Rightarrow> string option \<times> entry list" where
  "read_text C raw =
     (let ls = str_lines raw;
          header = read_header ls;
          body = (if header \<noteq> None then tl ls else ls)
      in (header, List.map_filter (parse_entry C) body))"

definition read_journal ::
  "codec \<Rightarrow> bool \<Rightarrow> string \<Rightarrow> directory \<Rightarrow> string + (string option \<times> entry list)" where
  "read_journal C fail_read name d =
     (if fail_read then Inl (''reading shipped journal '' @ name)
      else case om_get d name of
        None \<Rightarrow> Inr (None, [])
      | Some raw \<Rightarrow> Inr (read_text C raw))"

section \<open>Appending\<close>

text \<open>
  The faults of an append: opening the file (its directory, the open), reading its length once it
  is open, the header and the entry; a failed write may leave a prefix of the text.
\<close>

record append_faults =
  af_open :: bool
  af_metadata :: bool
  af_header :: "nat option"
  af_entry :: "nat option"

definition contents_of :: "string \<Rightarrow> directory \<Rightarrow> string" where
  "contents_of name d = (case om_get d name of None \<Rightarrow> [] | Some c \<Rightarrow> c)"

definition append_text :: "nat option \<Rightarrow> string \<Rightarrow> string \<Rightarrow> directory \<Rightarrow> directory \<times> bool" where
  "append_text f name t d =
     (case f of
        None \<Rightarrow> (om_insert name (contents_of name d @ t) d, True)
      | Some k \<Rightarrow> (om_insert name (contents_of name d @ take k t) d, False))"

definition open_journal ::
  "append_faults \<Rightarrow> string \<Rightarrow> journal_state \<Rightarrow> directory \<Rightarrow> (journal_state \<times> directory) \<times> (string + unit)"
where
  "open_journal f name js d =
     (if js_file js then ((js, d), Inr ())
      else if af_open f then ((js, d), Inl (''opening shipped journal '' @ name))
      else let d' = om_insert name (contents_of name d) d
           in if af_metadata f then ((js, d'), Inl (''reading shipped journal '' @ name))
              else case (if contents_of name d = [] then js_identity js else None) of
                None \<Rightarrow> ((js\<lparr>js_file := True\<rparr>, d'), Inr ())
              | Some identity \<Rightarrow>
                  (case append_text (af_header f) name (header_line identity) d' of
                     (d'', False) \<Rightarrow> ((js, d''), Inl (''stamping shipped journal '' @ name))
                   | (d'', True) \<Rightarrow> ((js\<lparr>js_file := True\<rparr>, d''), Inr ())))"

definition append_entry ::
  "codec \<Rightarrow> append_faults \<Rightarrow> string \<Rightarrow> entry \<Rightarrow> journal_state \<Rightarrow> directory
   \<Rightarrow> (journal_state \<times> directory) \<times> (string + unit)"
where
  "append_entry C f name e js d =
     (case open_journal f name js d of
        (p, Inl err) \<Rightarrow> (p, Inl err)
      | ((js', d'), Inr _) \<Rightarrow>
          (case append_text (af_entry f) name (entry_line C e) d' of
             (d'', False) \<Rightarrow> ((js', d''), Inl (''appending to shipped journal '' @ name))
           | (d'', True) \<Rightarrow> ((js', d''), Inr ())))"

text \<open>\<open>record\<close> is reserved; a transaction is journalled once per process.\<close>

definition record_shipped ::
  "codec \<Rightarrow> append_faults \<Rightarrow> entry \<Rightarrow> journal option \<Rightarrow> directory \<Rightarrow> journal option \<times> directory" where
  "record_shipped C f e j d =
     (case j of
        None \<Rightarrow> (None, d)
      | Some jn \<Rightarrow>
          let js = jn_state jn
          in if fst e \<in> js_written js then (j, d)
             else case append_entry C f (jn_name jn) e
                         (js\<lparr>js_written := insert (fst e) (js_written js)\<rparr>) d of
               ((js', d'), Inr _) \<Rightarrow> (Some (jn\<lparr>jn_state := js'\<rparr>), d')
             | ((js', d'), Inl _) \<Rightarrow>
                 (Some (jn\<lparr>jn_state := js'\<lparr>js_written := js_written js' - {fst e}\<rparr>\<rparr>), d'))"

section \<open>Purging, restoring and compacting\<close>

text \<open>The faults of a removal: the removal itself, then the truncation it falls back to.\<close>

definition purge ::
  "bool \<Rightarrow> bool \<Rightarrow> string \<Rightarrow> journal_state \<Rightarrow> directory \<Rightarrow> (journal_state \<times> directory) \<times> (string + bool)"
where
  "purge fail_remove fail_truncate name js d =
     (let js' = js\<lparr>js_file := False, js_written := {}\<rparr>
      in if \<not> fail_remove
         then (case om_get d name of
                 Some _ \<Rightarrow> ((js', om_remove name d), Inr True)
               | None \<Rightarrow> ((js', d), Inr False))
         else if fail_truncate then ((js', d), Inl (''removing shipped journal '' @ name))
         else ((js', om_insert name [] d), Inr True))"

record restore_faults =
  rf_read :: bool
  rf_remove :: bool
  rf_truncate :: bool

definition restore ::
  "codec \<Rightarrow> restore_faults \<Rightarrow> string \<Rightarrow> journal option \<Rightarrow> directory
   \<Rightarrow> entry list \<times> journal option \<times> directory"
where
  "restore C f identity j d =
     (case j of
        None \<Rightarrow> ([], None, d)
      | Some jn \<Rightarrow>
          let (entries, js, d') =
            (case read_journal C (rf_read f) (jn_name jn) d of
               Inl e \<Rightarrow> ([], jn_state jn, d)
             | Inr (header, es) \<Rightarrow>
                 if header = Some identity then (es, jn_state jn, d)
                 else (case purge (rf_remove f) (rf_truncate f) (jn_name jn) (jn_state jn) d of
                         ((js, d'), _) \<Rightarrow> ([], js, d')))
          in (entries,
              Some (jn\<lparr>jn_state := js\<lparr>js_written := set (map fst entries), js_identity := Some identity\<rparr>\<rparr>),
              d'))"

definition discard ::
  "bool \<Rightarrow> bool \<Rightarrow> string \<Rightarrow> journal option \<Rightarrow> directory \<Rightarrow> journal option \<times> directory" where
  "discard fail_remove fail_truncate identity j d =
     (case j of
        None \<Rightarrow> (None, d)
      | Some jn \<Rightarrow>
          (case purge fail_remove fail_truncate (jn_name jn) (jn_state jn) d of
             ((js, d'), _) \<Rightarrow> (Some (jn\<lparr>jn_state := js\<lparr>js_identity := Some identity\<rparr>\<rparr>), d')))"

definition compacted_text :: "codec \<Rightarrow> string option \<Rightarrow> entry list \<Rightarrow> string" where
  "compacted_text C header entries =
     (case header of None \<Rightarrow> [] | Some h \<Rightarrow> header_line h) @ concat (map (entry_line C) entries)"

text \<open>The temporary file of a compaction and its rename.\<close>

definition install_compacted ::
  "write_faults \<Rightarrow> string \<Rightarrow> string \<Rightarrow> directory \<Rightarrow> directory \<times> (string + unit)" where
  "install_compacted f name contents d =
     (case write_file f (temporary_path name) contents d of
        (d', False) \<Rightarrow>
          (d', Inl (if fail_open f then ''creating temporary shipped journal '' @ temporary_path name
                    else ''writing the compacted shipped journal''))
      | (d', True) \<Rightarrow>
          if fail_rename f
          then (d', Inl (''renaming temporary shipped journal '' @ temporary_path name @ '' to '' @ name))
          else (rename_file (temporary_path name) name d', Inr ()))"

lemma install_compacted_replace:
  "fst (install_compacted f name c d) = fst (replace f name c t d)"
  "snd (install_compacted f name c d) = Inr () \<longleftrightarrow> snd (replace f name c t d) = Inr ()"
  by (auto simp: install_compacted_def replace_def split: prod.splits bool.splits)

definition rewrite ::
  "codec \<Rightarrow> bool \<Rightarrow> write_faults \<Rightarrow> string \<Rightarrow> slot \<Rightarrow> journal_state \<Rightarrow> directory
   \<Rightarrow> (journal_state \<times> directory) \<times> (string + unit)"
where
  "rewrite C fail_read f name minimum js d =
     (case read_journal C fail_read name d of
        Inl e \<Rightarrow> ((js, d), Inl e)
      | Inr (header, entries) \<Rightarrow>
          let retained = filter (\<lambda>e. minimum < snd e) entries
          in if length retained = length entries then ((js, d), Inr ())
             else case install_compacted f name (compacted_text C header retained) d of
               (d', Inl e) \<Rightarrow> ((js, d'), Inl e)
             | (d', Inr _) \<Rightarrow>
                 ((js\<lparr>js_file := False, js_written := set (map fst retained)\<rparr>, d'), Inr ()))"

definition compact ::
  "codec \<Rightarrow> bool \<Rightarrow> write_faults \<Rightarrow> slot \<Rightarrow> journal option \<Rightarrow> directory \<Rightarrow> journal option \<times> directory"
where
  "compact C fail_read f minimum j d =
     (case j of
        None \<Rightarrow> (None, d)
      | Some jn \<Rightarrow>
          (case rewrite C fail_read f (jn_name jn) minimum (jn_state jn) d of
             ((js, d'), _) \<Rightarrow> (Some (jn\<lparr>jn_state := js\<rparr>), d')))"

section \<open>What a text of the journal holds\<close>

definition plain_line :: "string \<Rightarrow> bool" where
  "plain_line l \<longleftrightarrow> CHR 0x0A \<notin> set l \<and> (l = [] \<or> last l \<noteq> CHR 0x0D)"

lemma digits_plain: "list_all is_digit ds \<Longrightarrow> CHR 0x0A \<notin> set ds \<and> CHR 0x0D \<notin> set ds"
  by (metis list_all_iff not_digit_newline not_digit_cr)

lemma show_u64_plain: "CHR 0x0A \<notin> set (show_u64 w)" "CHR 0x0D \<notin> set (show_u64 w)"
  unfolding show_u64_def using digits_plain [OF show_nat_digits] by blast+

lemma entry_text_plain:
  assumes "codec_ok C"
  shows "plain_line (entry_text C e)" "entry_text C e \<noteq> []"
proof -
  have "last (entry_text C e) \<in> set (show_u64 (snd e))"
    by (simp add: entry_text_def show_u64_def last_in_set)
  then have "last (entry_text C e) \<noteq> CHR 0x0D"
    using show_u64_plain(2) by metis
  moreover have "CHR 0x0A \<notin> set (sig_str C (fst e))"
    using codec_plain [OF assms] by (auto simp: plain_text_def)
  ultimately show "plain_line (entry_text C e)"
    by (simp add: plain_line_def entry_text_def show_u64_plain)
qed (simp add: entry_text_def)

lemma parse_entry_text: "codec_ok C \<Longrightarrow> parse_entry C (entry_text C e) = Some e"
proof -
  assume C: "codec_ok C"
  have "CHR '' '' \<notin> set (sig_str C (fst e))"
    using codec_plain [OF C] unfolding plain_text_def by blast
  then show ?thesis
    by (simp add: parse_entry_def entry_text_def split_once_append codec_sig [OF C])
qed

lemma str_lines_plain: "plain_line l \<Longrightarrow> str_lines (l @ newline_char # s) = l # str_lines s"
  by (auto simp: newline_char_def str_lines_line plain_line_def strip_cr_def)

lemma str_lines_entries:
  "codec_ok C \<Longrightarrow> str_lines (concat (map (entry_line C) es) @ s) = map (entry_text C) es @ str_lines s"
  by (induction es) (simp_all add: entry_line_def str_lines_plain [OF entry_text_plain(1)])

lemma map_filter_entries:
  "codec_ok C \<Longrightarrow> List.map_filter (parse_entry C) (map (entry_text C) es @ ls)
    = es @ List.map_filter (parse_entry C) ls"
  by (induction es) (simp_all add: parse_entry_text)

text \<open>An entry does not read as a header.\<close>

definition headless :: "codec \<Rightarrow> bool" where
  "headless C \<longleftrightarrow> (\<forall>s t. strip_prefix identity_prefix (sig_str C s @ CHR '' '' # t) = None)"

lemma headless_decimal: "headless decimal_codec"
proof -
  have "strip_prefix identity_prefix (show_u64 s @ t) = None" for s :: signature and t
  proof -
    obtain c r where c: "show_u64 s = c # r" "is_digit c"
      using show_nat_digits [of "unat s"] by (cases "show_u64 s") (auto simp: show_u64_def)
    have "c \<noteq> CHR ''i''" using c(2) by (auto simp: is_digit_def)
    then show ?thesis using c(1) by (simp add: identity_prefix_def)
  qed
  then show ?thesis by (simp add: headless_def decimal_codec_def)
qed

text \<open>Reading a journal of whole lines, followed by any tail, gives the whole entries.\<close>

lemma read_compacted:
  assumes "codec_ok C" "plain_line identity"
  shows "read_text C (compacted_text C (Some identity) es @ tail) =
    (Some identity, es @ List.map_filter (parse_entry C) (str_lines tail))"
proof -
  have "plain_line (identity_prefix @ identity)"
    using assms(2) by (auto simp: plain_line_def identity_prefix_def)
  then have "str_lines (compacted_text C (Some identity) es @ tail) =
      (identity_prefix @ identity) # map (entry_text C) es @ str_lines tail"
    using str_lines_plain [of "identity_prefix @ identity" "concat (map (entry_line C) es) @ tail"]
    by (simp add: compacted_text_def header_line_def str_lines_entries [OF assms(1)])
  then show ?thesis
    by (simp add: read_text_def Let_def read_header_def map_filter_entries [OF assms(1)])
qed

lemma compacted_snoc: "compacted_text C h (es @ [e]) = compacted_text C h es @ entry_line C e"
  by (simp add: compacted_text_def)

section \<open>A run of the process\<close>

definition no_append_faults :: append_faults where
  "no_append_faults = \<lparr>af_open = False, af_metadata = False, af_header = None, af_entry = None\<rparr>"

text \<open>The file holds exactly the entries written so far, under the identity.\<close>

definition journal_holds :: "codec \<Rightarrow> string \<Rightarrow> entry list \<Rightarrow> journal \<Rightarrow> directory \<Rightarrow> bool" where
  "journal_holds C identity es jn d \<longleftrightarrow>
     om_wf d \<and> js_identity (jn_state jn) = Some identity
     \<and> js_written (jn_state jn) = set (map fst es)
     \<and> (contents_of (jn_name jn) d = compacted_text C (Some identity) es
        \<or> es = [] \<and> contents_of (jn_name jn) d = [] \<and> \<not> js_file (jn_state jn))"

lemma record_holds:
  assumes "journal_holds C identity es jn d"
  shows "\<exists>jn' d'. record_shipped C no_append_faults e (Some jn) d = (Some jn', d')
    \<and> jn_name jn' = jn_name jn
    \<and> journal_holds C identity (if fst e \<in> set (map fst es) then es else es @ [e]) jn' d'"
proof (cases "fst e \<in> set (map fst es)")
  case True
  then show ?thesis using assms by (simp add: record_shipped_def journal_holds_def)
next
  case False
  let ?n = "jn_name jn"
  have wf: "om_wf d" using assms by (simp add: journal_holds_def)
  have get: "contents_of ?n (om_insert ?n t d) = t" "om_wf (om_insert ?n t d)" for t
    using wf by (simp_all add: contents_of_def om_get_om_insert om_wf_om_insert)
  have twice: "contents_of ?n (om_insert ?n u (om_insert ?n t d)) = u"
    "om_wf (om_insert ?n u (om_insert ?n t d))" for t u
    using get(2) by (simp_all add: contents_of_def om_get_om_insert om_wf_om_insert)
  have thrice: "contents_of ?n (om_insert ?n v (om_insert ?n u (om_insert ?n t d))) = v"
    "om_wf (om_insert ?n v (om_insert ?n u (om_insert ?n t d)))" for t u v
    using twice(2) by (simp_all add: contents_of_def om_get_om_insert om_wf_om_insert)
  have nonempty: "compacted_text C (Some identity) es \<noteq> []"
    by (simp add: compacted_text_def header_line_def)
  have first: "compacted_text C (Some identity) [] = header_line identity"
    by (simp add: compacted_text_def)
  show ?thesis
    using assms False nonempty
    by (auto simp: record_shipped_def journal_holds_def append_entry_def open_journal_def Let_def
        append_text_def no_append_faults_def get twice thrice compacted_snoc first
        compacted_snoc [of C _ "[]", simplified])
qed

lemma record_shipped_installed: "fst (record_shipped C f e (Some jn) d) \<noteq> None"
  by (auto simp: record_shipped_def Let_def split: prod.splits sum.splits)

definition record_all ::
  "codec \<Rightarrow> entry list \<Rightarrow> journal option \<times> directory \<Rightarrow> journal option \<times> directory" where
  "record_all C es jd = fold (\<lambda>e (j, d). record_shipped C no_append_faults e j d) es jd"

text \<open>The entries with distinct signatures, the first of each.\<close>

definition add_first :: "entry \<Rightarrow> entry list \<Rightarrow> entry list" where
  "add_first e es = (if fst e \<in> set (map fst es) then es else es @ [e])"

definition first_entries :: "entry list \<Rightarrow> entry list" where
  "first_entries es = fold add_first es []"

definition no_restore_faults :: restore_faults where
  "no_restore_faults = \<lparr>rf_read = False, rf_remove = False, rf_truncate = False\<rparr>"

lemma record_all_holds:
  "journal_holds C identity acc jn d \<Longrightarrow>
    \<exists>jn' d'. record_all C es (Some jn, d) = (Some jn', d') \<and> jn_name jn' = jn_name jn
      \<and> journal_holds C identity (fold add_first es acc) jn' d'"
proof (induction es arbitrary: acc jn d)
  case (Cons e es)
  obtain jn1 d1 where step: "record_shipped C no_append_faults e (Some jn) d = (Some jn1, d1)"
      "jn_name jn1 = jn_name jn" "journal_holds C identity (add_first e acc) jn1 d1"
    using record_holds [OF Cons.prems, of e] unfolding add_first_def by blast
  then show ?case
    using Cons.IH [OF step(3)] by (simp add: record_all_def)
qed (simp add: record_all_def)

lemma discard_holds:
  assumes "om_wf d"
  shows "\<exists>jn' d'. discard False False identity (Some jn) d = (Some jn', d')
    \<and> jn_name jn' = jn_name jn \<and> journal_holds C identity [] jn' d'"
  using assms
  by (auto simp: discard_def purge_def Let_def journal_holds_def contents_of_def om_get_om_remove
      om_wf_om_remove split: option.splits)

lemma read_held:
  assumes "codec_ok C" "plain_line identity" "journal_holds C identity es jn d" "es \<noteq> []"
  shows "read_journal C False (jn_name jn) d = Inr (Some identity, es)"
proof -
  have "contents_of (jn_name jn) d = compacted_text C (Some identity) es"
    using assms(3,4) unfolding journal_holds_def by blast
  moreover have "compacted_text C (Some identity) es \<noteq> []"
    by (simp add: compacted_text_def header_line_def)
  ultimately have "om_get d (jn_name jn) = Some (compacted_text C (Some identity) es)"
    by (cases "om_get d (jn_name jn)") (simp_all add: contents_of_def)
  then show ?thesis
    using read_compacted [OF assms(1,2), of es "[]"] by (simp add: read_journal_def)
qed

lemma first_entries_Nil: "first_entries es = [] \<longleftrightarrow> es = []"
proof -
  have step: "add_first e acc \<noteq> []" for e acc
    by (cases acc) (simp_all add: add_first_def)
  have "fold add_first xs acc \<noteq> []" if "acc \<noteq> []" for xs acc
    using that by (induction xs arbitrary: acc) (simp_all add: step)
  with step show ?thesis by (cases es) (simp_all add: first_entries_def)
qed

section \<open>Properties\<close>

text \<open>
  C17: What a process journals, the next one restores: from a discarded journal, any run of shipped
  transactions is read back under the same identity in order, the first entry of each signature.
\<close>

theorem journal_roundtrip:
  assumes "codec_ok C" "plain_line identity" "om_wf d" "es \<noteq> []"
    and "record_all C es (discard False False identity (Some jn) d) = (j', d')"
  shows "fst (restore C no_restore_faults identity (install_journal (jn_name jn) None) d')
    = first_entries es"
proof -
  obtain jn1 d1 where start: "discard False False identity (Some jn) d = (Some jn1, d1)"
    "jn_name jn1 = jn_name jn" "journal_holds C identity [] jn1 d1"
    using discard_holds [OF assms(3)] by blast
  obtain jn2 d2 where "record_all C es (Some jn1, d1) = (Some jn2, d2)" "jn_name jn2 = jn_name jn1"
    "journal_holds C identity (first_entries es) jn2 d2"
    using record_all_holds [OF start(3)] unfolding first_entries_def by blast
  moreover have "first_entries es \<noteq> []" using assms(4) by (simp add: first_entries_Nil)
  ultimately have "read_journal C False (jn_name jn) d' = Inr (Some identity, first_entries es)"
    using read_held [OF assms(1,2), of "first_entries es" jn2 d2] assms(5) start by simp
  then show ?thesis
    by (simp add: restore_def install_journal_def no_restore_faults_def Let_def)
qed

theorem journal_roundtrip_witness:
  "fst (restore decimal_codec no_restore_faults ''g'' (install_journal ''shipped.log'' None)
     (snd (record_all decimal_codec [(7, 100), (9, 101), (7, 100)]
       (discard False False ''g'' (Some \<lparr>jn_name = ''shipped.log'', jn_state = journal_state_default\<rparr>) []))))
   = [(7, 100), (9, 101)]"
  using journal_roundtrip [OF decimal_codec_ok, of "''g''" "[]" "[(7, 100), (9, 101), (7, 100)]"
      "\<lparr>jn_name = ''shipped.log'', jn_state = journal_state_default\<rparr>"]
  by (simp add: plain_line_def first_entries_def add_first_def prod_eq_iff)

text \<open>
  A journal of another deployment suppresses nothing: whatever the file holds, unless its header is
  the identity of this process no entry is restored, and the file is emptied if it can be removed
  or truncated.
\<close>

theorem other_identity_suppresses_nothing:
  assumes "om_wf d" "fst (read_text C (contents_of (jn_name jn) d)) \<noteq> Some identity"
  shows "fst (restore C f identity (Some jn) d) = []
    \<and> (rf_read f \<or> (rf_remove f \<and> rf_truncate f)
       \<or> contents_of (jn_name jn) (snd (snd (restore C f identity (Some jn) d))) = [])"
proof (cases "rf_read f")
  case False
  have "\<exists>h es. read_journal C False (jn_name jn) d = Inr (h, es) \<and> h \<noteq> Some identity"
    using assms(2)
    by (cases "om_get d (jn_name jn)") (auto simp: read_journal_def contents_of_def prod_eq_iff)
  then obtain h es where "read_journal C False (jn_name jn) d = Inr (h, es)" "h \<noteq> Some identity"
    by blast
  then show ?thesis
    using False assms(1)
    by (auto simp: restore_def purge_def Let_def contents_of_def om_get_om_remove om_get_om_insert
        split: option.splits)
qed (simp add: restore_def read_journal_def)

theorem other_identity_suppresses_nothing_witness:
  "fst (restore decimal_codec no_restore_faults ''mainnet''
     (Some \<lparr>jn_name = ''shipped.log'', jn_state = journal_state_default\<rparr>)
     [(''shipped.log'', compacted_text decimal_codec (Some ''devnet'') [(7, 100)])]) = []"
  using other_identity_suppresses_nothing [of "[(''shipped.log'',
        compacted_text decimal_codec (Some ''devnet'') [(7, 100)])]" decimal_codec
      "\<lparr>jn_name = ''shipped.log'', jn_state = journal_state_default\<rparr>" "''mainnet''" no_restore_faults]
    read_compacted [OF decimal_codec_ok, of "''devnet''" "[(7, 100)]" "[]"]
  by (simp add: om_wf_Cons om_keys_def contents_of_def om_get_def plain_line_def)

text \<open>
  C18: Compaction is atomic and keeps what a restart still needs: whatever fails, the journal still
  reads under its identity as all its entries or as exactly those above the minimum slot, and the
  latter when compaction succeeds.
\<close>

theorem compaction_keeps_needed_entries:
  assumes "codec_ok C" "plain_line identity" "om_wf d"
    and "om_get d name = Some (compacted_text C (Some identity) es)"
    and "rewrite C False f name minimum js d = ((js', d'), r)"
  shows "read_journal C False name d' \<in>
      {Inr (Some identity, es), Inr (Some identity, filter (\<lambda>e. minimum < snd e) es)}
    \<and> (r = Inr () \<longrightarrow> read_journal C False name d' = Inr (Some identity, filter (\<lambda>e. minimum < snd e) es))"
proof -
  let ?kept = "filter (\<lambda>e. minimum < snd e) es"
  let ?new = "compacted_text C (Some identity) ?kept"
  have read: "read_journal C False name d'' = Inr (Some identity, xs)"
    if "om_get d'' name = Some (compacted_text C (Some identity) xs)" for d'' xs
    using that read_compacted [OF assms(1,2), of xs "[]"] by (simp add: read_journal_def)
  show ?thesis
  proof (cases "length ?kept = length es")
    case True
    then have "?kept = es" by (metis filter_id_conv length_filter_less less_irrefl)
    moreover have "d' = d" using assms(5) read [OF assms(4)] True by (simp add: rewrite_def)
    ultimately show ?thesis using read [OF assms(4)] by simp
  next
    case False
    obtain d2 q where rep: "install_compacted f name ?new d = (d2, q)"
      by (cases "install_compacted f name ?new d")
    note same = install_compacted_replace [where f = f and name = name and c = ?new and d = d
        and t = "''shipped journal''"]
    have eqs: "d' = d2" "r = Inr () \<longleftrightarrow> q = Inr ()"
      using assms(5) read [OF assms(4)] False rep by (cases q; auto simp: rewrite_def Let_def)+
    have "om_get d2 name \<in> {Some (compacted_text C (Some identity) es), Some ?new}"
      using replaced.law_old_or_new [OF assms(3), where f = f and n = name and c = ?new
          and description = "''shipped journal''"] rep same assms(4) by simp
    moreover have "q = Inr () \<Longrightarrow> om_get d2 name = Some ?new"
      using replaced.law_success [OF assms(3), where f = f and n = name and c = ?new
          and description = "''shipped journal''"] rep same by simp
    ultimately show ?thesis using read eqs by auto
  qed
qed

theorem compaction_keeps_needed_entries_witness:
  "read_journal decimal_codec False ''shipped.log''
     (snd (fst (rewrite decimal_codec False no_faults ''shipped.log'' 100 journal_state_default
        [(''shipped.log'', compacted_text decimal_codec (Some ''g'') [(7, 100), (9, 101)])])))
   \<in> {Inr (Some ''g'', [(7, 100), (9, 101)]), Inr (Some ''g'', [(9, 101)])}"
  using compaction_keeps_needed_entries [OF decimal_codec_ok, of "''g''"
      "[(''shipped.log'', compacted_text decimal_codec (Some ''g'') [(7, 100), (9, 101)])]"
      "''shipped.log''" "[(7, 100), (9, 101)]" no_faults 100 journal_state_default]
  by (simp add: plain_line_def om_wf_Cons om_keys_def om_get_def prod_eq_iff)

text \<open>
  C19: A line torn by a kill costs the transaction after it too: the next process opens the journal in
  append mode behind the torn text, so its first entry completes the torn line and is not read
  back, while the process itself counts the transaction as journalled.
\<close>

theorem torn_line_costs_next_entry:
  assumes "codec_ok C" "plain_line identity" "om_wf d" "\<not> js_file (jn_state jn)"
    and "contents_of (jn_name jn) d = compacted_text C (Some identity) es @ torn"
    and "CHR 0x0A \<notin> set torn" "parse_entry C (torn @ entry_text C e) = None"
    and "fst e \<notin> js_written (jn_state jn)"
    and "record_shipped C no_append_faults e (Some jn) d = (Some jn', d')"
  shows "fst e \<in> js_written (jn_state jn')
    \<and> fst (restore C no_restore_faults identity (install_journal (jn_name jn) None) d') = es"
proof -
  let ?n = "jn_name jn"
  have get: "contents_of ?n (om_insert ?n t d) = t" "om_wf (om_insert ?n t d)" for t
    using assms(3) by (simp_all add: contents_of_def om_get_om_insert om_wf_om_insert)
  have nonempty: "contents_of ?n d \<noteq> []"
    by (simp add: assms(5) compacted_text_def header_line_def)
  have app: "jn' = jn\<lparr>jn_state := (jn_state jn)\<lparr>js_written := insert (fst e) (js_written (jn_state jn)),
        js_file := True\<rparr>\<rparr>"
    "d' = om_insert ?n (contents_of ?n d @ entry_line C e) (om_insert ?n (contents_of ?n d) d)"
    using assms(4,8,9) nonempty
    by (simp_all add: record_shipped_def append_entry_def open_journal_def Let_def append_text_def
        no_append_faults_def get)
  have stored: "om_get d' ?n = Some (compacted_text C (Some identity) es @ (torn @ entry_line C e))"
    using get(2) [of "contents_of ?n d"] by (simp add: app(2) om_get_om_insert assms(5))
  have plain: "plain_line (torn @ entry_text C e)"
    using entry_text_plain [OF assms(1), of e] assms(6) by (simp add: plain_line_def)
  have "str_lines (torn @ entry_line C e) = [torn @ entry_text C e]"
    using str_lines_plain [OF plain, of "[]"] by (simp add: entry_line_def)
  then have "read_journal C False ?n d' = Inr (Some identity, es)"
    using stored read_compacted [OF assms(1,2), of es "torn @ entry_line C e"] assms(7)
    by (simp add: read_journal_def)
  then show ?thesis
    by (simp add: app(1) restore_def install_journal_def no_restore_faults_def Let_def)
qed

lemma torn_line_parses_to_nothing:
  "parse_entry decimal_codec (''7 1'' @ entry_text decimal_codec (9, 101)) = None"
proof -
  have "show_u64 (9::signature) = ''9''" "show_u64 (101::slot) = ''101''" by code_simp+
  then have "entry_text decimal_codec (9, 101) = ''9 101''"
   by (simp add: entry_text_def decimal_codec_def)
  moreover have "parse_u64 ''19 101'' = None" by code_simp
  ultimately show ?thesis by (simp add: parse_entry_def split: option.splits)
qed

definition torn_journal :: journal where
  "torn_journal = \<lparr>jn_name = ''shipped.log'', jn_state = journal_state_default\<lparr>js_identity := Some ''g''\<rparr>\<rparr>"

definition torn_directory :: directory where
  "torn_directory = [(''shipped.log'', compacted_text decimal_codec (Some ''g'') [] @ ''7 1'')]"

theorem torn_line_costs_next_entry_witness:
  "\<exists>jn' d'. record_shipped decimal_codec no_append_faults (9, 101) (Some torn_journal) torn_directory
      = (Some jn', d')
    \<and> fst (restore decimal_codec no_restore_faults ''g'' (install_journal ''shipped.log'' None) d') = []"
proof -
  obtain jn' d' where r: "record_shipped decimal_codec no_append_faults (9, 101) (Some torn_journal) torn_directory = (Some jn', d')"
    using record_shipped_installed [of decimal_codec no_append_faults "(9, 101)" torn_journal torn_directory]
    by (cases "record_shipped decimal_codec no_append_faults (9, 101) (Some torn_journal) torn_directory") auto
  have line: "plain_line ''g''" "CHR 0x0A \<notin> set ''7 1''"
    by (simp_all add: plain_line_def)
  have name: "jn_name torn_journal = ''shipped.log''"
    by (simp add: torn_journal_def)
  have wf: "om_wf torn_directory"
    by (simp add: torn_directory_def om_wf_Cons om_keys_def)
  have state: "\<not> js_file (jn_state torn_journal)" "fst (9, 101) \<notin> js_written (jn_state torn_journal)"
    by (simp_all add: torn_journal_def journal_state_default_def)
  have held: "contents_of (jn_name torn_journal) torn_directory = compacted_text decimal_codec (Some ''g'') [] @ ''7 1''"
    by (simp add: name torn_directory_def contents_of_def om_get_def)
  have "fst (restore decimal_codec no_restore_faults ''g'' (install_journal ''shipped.log'' None) d') = []"
    by (rule torn_line_costs_next_entry [OF decimal_codec_ok line(1) wf state(1) held line(2)
          torn_line_parses_to_nothing state(2) r, THEN conjunct2, unfolded name])
  with r show ?thesis by blast
qed

end
