(* ===== verification/Rpc_Polling.thy ===== *)
theory Rpc_Polling
  imports Telemetry Delivered Signatures Backfill
begin

text \<open>
  One poll of the RPC datasource (\<open>rpc_polling.rs\<close>), phase by phase: absorb what Yellowstone
  delivered, read the head, install and check the cursors, discover every address, fetch and
  process the new transactions, send the ready ones in slot order, advance the cursors and prune
  the recorded signatures. The state changes of the phases before an error persist.
\<close>

definition max_transaction_failure_attempts :: u32 where
  "max_transaction_failure_attempts = 5"

definition history_boundary_check_interval :: duration where
  "history_boundary_check_interval = seconds 60"

text \<open>What a poll reads and changes besides the endpoint.\<close>

record poll_world =
  pw_state :: polling_state
  pw_delivered :: "delivered_signatures option"
  pw_sent :: "update list"
  pw_metrics :: "metric list"
  pw_health :: health_state

text \<open>
  The answers a poll gets: the confirmed head, the clocks, the first available block of the
  periodic check and of discovery, the signature pages of each address, the transactions, the
  order in which the concurrent fetches complete, and whether the pipeline channel takes the n-th
  send.
\<close>

record poll_env =
  pe_head :: "string + slot"
  pe_now :: instant
  pe_unix :: u64
  pe_boundary_check :: "string + slot"
  pe_boundary_discovery :: "string + slot"
  pe_pages :: "pubkey \<Rightarrow> page_request"
  pe_transactions :: "signature \<Rightarrow> nat \<Rightarrow> client_error + encoded_transaction"
  pe_completion :: "signature list \<Rightarrow> signature list"
  pe_accepts :: "nat \<Rightarrow> bool"

record poll_outcome =
  queued_transactions :: nat
  checkpoint_urgent :: bool
  history_boundary_verified :: bool

definition emit :: "metric list \<Rightarrow> poll_world \<Rightarrow> poll_world" where
  "emit ms w = w\<lparr>pw_metrics := pw_metrics w @ ms\<rparr>"

definition with_state :: "(polling_state \<Rightarrow> polling_state) \<Rightarrow> poll_world \<Rightarrow> poll_world" where
  "with_state f w = w\<lparr>pw_state := f (pw_state w)\<rparr>"

definition monitored_addresses :: "pubkey \<Rightarrow> pubkey option \<Rightarrow> pubkey list" where
  "monitored_addresses program_id multisig_state =
     remdups_adj (sort (program_id # (case multisig_state of None \<Rightarrow> [] | Some a \<Rightarrow> [a])))"

section \<open>Before discovery\<close>

definition record_deliveries :: "(signature \<times> slot) list \<Rightarrow> polling_state \<Rightarrow> polling_state" where
  "record_deliveries ds st = fold (\<lambda>d. record_recent_signature (fst d) (snd d)) ds st"

definition absorb_delivered_signatures :: "poll_world \<Rightarrow> poll_world" where
  "absorb_delivered_signatures w =
     (case pw_delivered w of
        None \<Rightarrow> w
      | Some dv \<Rightarrow>
          (case drain dv of (deliveries, dv') \<Rightarrow>
             let w' = w\<lparr>pw_delivered := Some dv'\<rparr>
             in if deliveries = [] then w'
                else emit (record_rpc_yellowstone_deliveries (of_nat (length deliveries)))
                       (with_state (record_deliveries deliveries) w')))"

definition cursor_ahead_of_head ::
  "(string, address_cursor) omap \<Rightarrow> slot \<Rightarrow> slot \<Rightarrow> poll_error option" where
  "cursor_ahead_of_head cs head replay_window =
     map_option (\<lambda>e. CursorAheadOfHead (fst e) (scanned_slot (snd e)) head)
       (List.find (\<lambda>e. sat_add head replay_window < scanned_slot (snd e)) cs)"

fun install_cursors ::
  "codec \<Rightarrow> slot \<Rightarrow> slot \<Rightarrow> pubkey list \<Rightarrow> polling_state \<Rightarrow> bool \<times> polling_state" where
  "install_cursors C head replay_window [] st = (False, st)"
| "install_cursors C head replay_window (a # as) st =
     (if om_contains (cursors st) (key_str C a) then install_cursors C head replay_window as st
      else let st' = st\<lparr>cursors := om_insert (key_str C a)
                          \<lparr>scanned_slot = sat_sub head replay_window\<rparr> (cursors st)\<rparr>
           in (True, snd (install_cursors C head replay_window as st')))"

definition minimum_scanned_slot :: "polling_state \<Rightarrow> slot option" where
  "minimum_scanned_slot st = minimum_opt (map scanned_slot (om_values (cursors st)))"

definition check_history_boundary ::
  "poll_env \<Rightarrow> polling_state \<Rightarrow> polling_state \<times> (poll_error + bool)" where
  "check_history_boundary env st =
     (if history_boundary_check_due st (pe_now env) history_boundary_check_interval
      then case minimum_scanned_slot st of
             None \<Rightarrow> (st, Inr False)
           | Some minimum \<Rightarrow>
               (case pe_boundary_check env of
                  Inl e \<Rightarrow> (st, Inl (Anyhow ''failed to read the RPC history boundary''))
                | Inr available \<Rightarrow>
                    let st' = record_history_boundary_check (pe_now env) st
                    in if sat_add minimum 1 < available
                       then (st', Inl (HistoryUnavailable available minimum))
                       else (st', Inr True))
      else (st, Inr False))"

definition poll_prepare ::
  "codec \<Rightarrow> slot \<Rightarrow> pubkey list \<Rightarrow> poll_env \<Rightarrow> poll_world
   \<Rightarrow> poll_world \<times> (poll_error + (slot \<times> bool \<times> bool))"
where
  "poll_prepare C replay_window addresses env w0 =
     (let w = absorb_delivered_signatures w0
      in case pe_head env of
           Inl e \<Rightarrow> (w, Inl (Anyhow ''failed to read the confirmed RPC slot''))
         | Inr head \<Rightarrow>
             (case cursor_ahead_of_head (cursors (pw_state w)) head replay_window of
                Some ahead \<Rightarrow> (w, Inl ahead)
              | None \<Rightarrow>
                  (case install_cursors C head replay_window addresses (pw_state w) of
                     (initialized, st) \<Rightarrow>
                       (case check_history_boundary env st of
                          (st', Inl e) \<Rightarrow> (w\<lparr>pw_state := st'\<rparr>, Inl e)
                        | (st', Inr verified) \<Rightarrow>
                            (w\<lparr>pw_state := st'\<rparr>, Inr (head, initialized, verified))))))"

section \<open>Discovery\<close>

fun update_context :: "signature \<Rightarrow> string \<Rightarrow> contexts \<Rightarrow> contexts" where
  "update_context s a [] = []"
| "update_context s a ((t, c) # cs) =
     (if t = s then (t, c\<lparr>ctx_addresses := oset_insert a (ctx_addresses c)\<rparr>) # cs
      else (t, c) # update_context s a cs)"

fun add_contexts ::
  "codec \<Rightarrow> string \<Rightarrow> discovered_signature list \<Rightarrow> contexts \<Rightarrow> poll_error + contexts" where
  "add_contexts C a [] ctxs = Inr ctxs"
| "add_contexts C a (d # ds) ctxs =
     (case map_of ctxs (ds_signature d) of
        Some c \<Rightarrow>
          if ctx_slot c \<noteq> ds_slot d
          then Inl (Anyhow (''RPC returned signature '' @ sig_str C (ds_signature d)
                 @ '' at conflicting slots '' @ show_u64 (ctx_slot c) @ '' and ''
                 @ show_u64 (ds_slot d)))
          else add_contexts C a ds (update_context (ds_signature d) a ctxs)
      | None \<Rightarrow>
          add_contexts C a ds
            (ctxs @ [(ds_signature d, \<lparr>ctx_slot = ds_slot d, ctx_addresses = [a]\<rparr>)]))"

text \<open>
  The first available block is asked for at most once per discovery: the option is the cached
  answer. The expect of a cursor for every address is the \<open>Anyhow\<close> of the panic.
\<close>

definition discovery_boundary ::
  "poll_env \<Rightarrow> slot option \<Rightarrow> address_cursor \<Rightarrow> poll_error + slot" where
  "discovery_boundary env cached cursor =
     (case (case cached of Some b \<Rightarrow> Inr b | None \<Rightarrow> pe_boundary_discovery env) of
        Inl e \<Rightarrow> Inl (Anyhow ''failed to read the RPC history boundary'')
      | Inr boundary \<Rightarrow>
          if sat_add (scanned_slot cursor) 1 < boundary
          then Inl (HistoryUnavailable boundary (scanned_slot cursor))
          else Inr boundary)"

record discovery =
  dc_batches :: "address_batch list"
  dc_contexts :: contexts
  dc_first_available :: "slot option"
  dc_verified :: bool

definition add_batch ::
  "codec \<Rightarrow> poll_env \<Rightarrow> address_cursor \<Rightarrow> address_batch \<Rightarrow> discovery \<Rightarrow> poll_error + discovery" where
  "add_batch C env cursor b d =
     bind_r (if reached_replay_floor b then Inr d
             else bind_r (discovery_boundary env (dc_first_available d) cursor)
                    (\<lambda>boundary. Inr (d\<lparr>dc_first_available := Some boundary, dc_verified := True\<rparr>)))
       (\<lambda>d'. bind_r (add_contexts C (key_str C (batch_address b)) (batch_signatures b) (dc_contexts d'))
         (\<lambda>ctxs. Inr (d'\<lparr>dc_contexts := ctxs, dc_batches := dc_batches d' @ [b]\<rparr>)))"

fun discover_all ::
  "codec \<Rightarrow> slot \<Rightarrow> poll_env \<Rightarrow> slot \<Rightarrow> polling_state \<Rightarrow> pubkey list \<Rightarrow> discovery
   \<Rightarrow> (poll_error + discovery) option"
where
  "discover_all C replay_window env head st [] d = Some (Inr d)"
| "discover_all C replay_window env head st (a # as) d =
     (case om_get (cursors st) (key_str C a) of
        None \<Rightarrow> Some (Inl (Anyhow ''all monitored addresses have cursors''))
      | Some cursor \<Rightarrow>
          (case discover_signatures C (pe_pages env a) a cursor head replay_window of
             None \<Rightarrow> None
           | Some (Inl e) \<Rightarrow> Some (Inl e)
           | Some (Inr b) \<Rightarrow>
               (case add_batch C env cursor b d of
                  Inl e \<Rightarrow> Some (Inl e)
                | Inr d' \<Rightarrow> discover_all C replay_window env head st as d')))"

definition signatures_to_fetch :: "contexts \<Rightarrow> polling_state \<Rightarrow> signature list" where
  "signatures_to_fetch ctxs st = filter (\<lambda>s. \<not> has_recent_signature st s) (map fst ctxs)"

section \<open>Fetched transactions\<close>

datatype transaction_poll_outcome =
    Ready slot update
  | TransientFailure client_error
  | Poisoned string failure_disposition

definition poisoned ::
  "signature \<Rightarrow> string \<Rightarrow> polling_state \<Rightarrow> polling_state \<times> transaction_poll_outcome" where
  "poisoned s error st =
     (case record_poison_failure s max_transaction_failure_attempts st of
        (disposition, st') \<Rightarrow> (st', Poisoned error disposition))"

definition client_error_text :: "client_error \<Rightarrow> string" where
  "client_error_text e = (case e of RpcResponseError _ m \<Rightarrow> m | OtherClientError m \<Rightarrow> m)"

definition process_fetched_transaction ::
  "codec \<Rightarrow> rpc_library \<Rightarrow> signature \<Rightarrow> fetched \<Rightarrow> polling_state
   \<Rightarrow> polling_state \<times> transaction_poll_outcome"
where
  "process_fetched_transaction C L s fetched st =
     (case fetched of
        Inr (_, tx) \<Rightarrow>
          (case transaction_update L s tx of
             Some u \<Rightarrow> (clear_poison_failure s st, Ready (et_slot tx) u)
           | None \<Rightarrow>
               poisoned s (''transaction '' @ sig_str C s @ '' could not be converted'') st)
      | Inl failure \<Rightarrow>
          if fe_permanent failure then poisoned s (client_error_text (fe_error failure)) st
          else (st, TransientFailure (fe_error failure)))"

text \<open>The state of the loop over the fetched transactions.\<close>

record processing =
  pr_state :: polling_state
  pr_metrics :: "metric list"
  pr_successes :: "(signature \<times> slot \<times> update) list"
  pr_retrying :: "signature list"

definition context_slot :: "contexts \<Rightarrow> signature \<Rightarrow> slot" where
  "context_slot ctxs s = (case map_of ctxs s of Some c \<Rightarrow> ctx_slot c | None \<Rightarrow> 0)"

definition process_one ::
  "codec \<Rightarrow> rpc_library \<Rightarrow> contexts \<Rightarrow> signature \<times> fetched \<Rightarrow> processing \<Rightarrow> processing" where
  "process_one C L ctxs sf p =
     (case process_fetched_transaction C L (fst sf) (snd sf) (pr_state p) of
        (st, Ready sl u) \<Rightarrow> p\<lparr>pr_state := st, pr_successes := pr_successes p @ [(fst sf, sl, u)]\<rparr>
      | (st, TransientFailure e) \<Rightarrow>
          p\<lparr>pr_state := st, pr_metrics := pr_metrics p @ record_rpc_transaction_failure,
            pr_retrying := pr_retrying p @ [fst sf]\<rparr>
      | (st, Poisoned e disposition) \<Rightarrow>
          if fd_quarantined disposition
          then p\<lparr>pr_state := record_recent_signature (fst sf) (context_slot ctxs (fst sf)) st,
                 pr_metrics := pr_metrics p @ record_rpc_transaction_failure
                   @ (if fd_newly_quarantined disposition
                      then record_rpc_transaction_quarantine else [])\<rparr>
          else p\<lparr>pr_state := st, pr_metrics := pr_metrics p @ record_rpc_transaction_failure,
                 pr_retrying := pr_retrying p @ [fst sf]\<rparr>)"

definition fetch_all ::
  "rpc_library \<Rightarrow> poll_env \<Rightarrow> signature list \<Rightarrow> (signature \<times> fetched) list" where
  "fetch_all L env ss =
     map (\<lambda>s. (s, the (fst (fetch_transaction L (pe_transactions env s) s)))) (pe_completion env ss)"

definition process_all ::
  "codec \<Rightarrow> rpc_library \<Rightarrow> contexts \<Rightarrow> (signature \<times> fetched) list \<Rightarrow> polling_state \<Rightarrow> processing"
where
  "process_all C L ctxs fs st =
     fold (process_one C L ctxs) fs
       \<lparr>pr_state = st, pr_metrics = [], pr_successes = [], pr_retrying = []\<rparr>"

definition context_addresses :: "contexts \<Rightarrow> signature \<Rightarrow> string list" where
  "context_addresses ctxs s = (case map_of ctxs s of Some c \<Rightarrow> ctx_addresses c | None \<Rightarrow> [])"

definition blocked_addresses :: "contexts \<Rightarrow> signature list \<Rightarrow> string list" where
  "blocked_addresses ctxs retrying = oset_of_list (concat (map (context_addresses ctxs) retrying))"

definition ready_updates :: "contexts \<Rightarrow> processing \<Rightarrow> (signature \<times> slot \<times> update) list" where
  "ready_updates ctxs p =
     sort_key (\<lambda>(_, sl, _). sl)
       (filter (\<lambda>(s, _, _). signature_is_ready s ctxs (blocked_addresses ctxs (pr_retrying p)))
         (pr_successes p))"

text \<open>The sends: each one that succeeds is recorded before the next.\<close>

fun send_updates ::
  "(nat \<Rightarrow> bool) \<Rightarrow> nat \<Rightarrow> (signature \<times> slot \<times> update) list \<Rightarrow> poll_world
   \<Rightarrow> poll_world \<times> (poll_error + unit)"
where
  "send_updates accepts n [] w = (w, Inr ())"
| "send_updates accepts n ((s, sl, u) # us) w =
     (if accepts n
      then send_updates accepts (Suc n) us
             (with_state (record_recent_signature s sl) (w\<lparr>pw_sent := pw_sent w @ [u]\<rparr>))
      else (w, Inl (Anyhow ''pipeline update channel closed'')))"

definition unreachable_below :: "slot \<Rightarrow> slot \<Rightarrow> slot" where
  "unreachable_below sl replay_window = sat_sub sl (2 * replay_window)"

definition poll_finish ::
  "codec \<Rightarrow> slot \<Rightarrow> poll_env \<Rightarrow> slot \<Rightarrow> bool \<Rightarrow> bool \<Rightarrow> address_batch list \<Rightarrow> signature list \<Rightarrow> nat
   \<Rightarrow> poll_world \<Rightarrow> poll_world \<times> poll_outcome"
where
  "poll_finish C replay_window env head initialized verified batches retrying queued w =
     (case advance_ready_cursors (key_str C) batches retrying (pw_state w) of
        (active, st) \<Rightarrow>
          let minimum = (case minimum_scanned_slot st of Some m \<Rightarrow> m | None \<Rightarrow> head);
              st' = retain_signatures_after (unreachable_below minimum replay_window) st;
              success = record_rpc_poll_success (pe_unix env) (pe_unix env) head minimum
                          (of_nat queued) (pw_health w)
          in (w\<lparr>pw_state := st', pw_health := fst success,
                pw_metrics := pw_metrics w
                  @ set_rpc_quarantined_transactions (of_nat (quarantined_transaction_count st))
                  @ set_rpc_recent_signatures (of_nat (recent_signature_count st'))
                  @ snd success\<rparr>,
              \<lparr>queued_transactions = queued, checkpoint_urgent = (initialized \<or> active),
               history_boundary_verified = verified\<rparr>))"

definition poll_deliver ::
  "codec \<Rightarrow> rpc_library \<Rightarrow> slot \<Rightarrow> poll_env \<Rightarrow> slot \<Rightarrow> bool \<Rightarrow> bool \<Rightarrow> discovery \<Rightarrow> poll_world
   \<Rightarrow> poll_world \<times> (poll_error + poll_outcome)"
where
  "poll_deliver C L replay_window env head initialized verified d w =
     (let fs = fetch_all L env (signatures_to_fetch (dc_contexts d) (pw_state w));
          p = process_all C L (dc_contexts d) fs (pw_state w);
          us = ready_updates (dc_contexts d) p
      in case send_updates (pe_accepts env) 0 us
                (emit (pr_metrics p) (w\<lparr>pw_state := pr_state p\<rparr>)) of
           (w', Inl e) \<Rightarrow> (w', Inl e)
         | (w', Inr _) \<Rightarrow>
             (case poll_finish C replay_window env head initialized (verified \<or> dc_verified d)
                     (dc_batches d) (pr_retrying p) (length us) w' of
                (w'', out) \<Rightarrow> (w'', Inr out)))"

definition empty_discovery :: discovery where
  "empty_discovery = \<lparr>dc_batches = [], dc_contexts = [], dc_first_available = None, dc_verified = False\<rparr>"

text \<open>
  The whole poll. \<open>None\<close> only when a crawl of an address does not return: the endpoint keeps
  answering full pages for ever.
\<close>

definition poll ::
  "codec \<Rightarrow> rpc_library \<Rightarrow> slot \<Rightarrow> pubkey list \<Rightarrow> poll_env \<Rightarrow> poll_world
   \<Rightarrow> (poll_world \<times> (poll_error + poll_outcome)) option"
where
  "poll C L replay_window addresses env w0 =
     (case poll_prepare C replay_window addresses env w0 of
        (w, Inl e) \<Rightarrow> Some (w, Inl e)
      | (w, Inr (head, initialized, verified)) \<Rightarrow>
          (case discover_all C replay_window env head (pw_state w) addresses empty_discovery of
             None \<Rightarrow> None
           | Some (Inl e) \<Rightarrow> Some (w, Inl e)
           | Some (Inr d) \<Rightarrow>
               Some (poll_deliver C L replay_window env head initialized verified d w)))"

end
