(* ===== verification/Poll_Safety.thy ===== *)
theory Poll_Safety
  imports Rpc_Polling
begin

text \<open>
  What one poll guarantees, phase by phase and then for the whole: the recorded signatures and the
  cursors it leaves, the updates it sends, and that no discovered signature is lost.
\<close>

section \<open>Absorbing and preparing\<close>

definition known_signature :: "poll_world \<Rightarrow> signature \<Rightarrow> bool" where
  "known_signature w s \<longleftrightarrow> has_recent_signature (pw_state w) s
     \<or> (\<exists>dv sl. pw_delivered w = Some dv \<and> (s, sl) \<in> set (dv_channel dv))"

lemma record_deliveries_frame [simp]:
  "cursors (record_deliveries ds st) = cursors st"
  "poison_failures (record_deliveries ds st) = poison_failures st"
  by (induction ds arbitrary: st) (simp_all add: record_deliveries_def)

lemma record_deliveries_wf [simp]: "state_wf st \<Longrightarrow> state_wf (record_deliveries ds st)"
  by (induction ds arbitrary: st) (simp_all add: record_deliveries_def)

lemma record_deliveries_recent:
  "state_wf st \<Longrightarrow>
    has_recent_signature (record_deliveries ds st) t \<longleftrightarrow> has_recent_signature st t \<or> t \<in> fst ` set ds"
  by (induction ds arbitrary: st) (auto simp: record_deliveries_def)

lemma absorb_frame [simp]:
  "cursors (pw_state (absorb_delivered_signatures w)) = cursors (pw_state w)"
  "poison_failures (pw_state (absorb_delivered_signatures w)) = poison_failures (pw_state w)"
  "pw_sent (absorb_delivered_signatures w) = pw_sent w"
  "state_wf (pw_state w) \<Longrightarrow> state_wf (pw_state (absorb_delivered_signatures w))"
  by (simp_all add: absorb_delivered_signatures_def with_state_def emit_def Let_def split: option.splits)

lemma absorb_recent:
  "state_wf (pw_state w) \<Longrightarrow>
    has_recent_signature (pw_state (absorb_delivered_signatures w)) t \<longleftrightarrow> known_signature w t"
  by (auto simp: absorb_delivered_signatures_def with_state_def emit_def Let_def known_signature_def
      record_deliveries_recent image_iff split: option.splits) force

lemma install_wf: "state_wf st \<Longrightarrow> state_wf (snd (install_cursors C head rw as st))"
  by (induction C head rw as st rule: install_cursors.induct)
    (auto simp: Let_def state_wf_def om_wf_om_insert)

lemma install_frame [simp]:
  "recent_signatures (snd (install_cursors C head rw as st)) = recent_signatures st"
  "poison_failures (snd (install_cursors C head rw as st)) = poison_failures st"
  by (induction C head rw as st rule: install_cursors.induct) (auto simp: Let_def)

lemma install_get:
  assumes "om_wf (cursors st)"
  shows "om_get (cursors (snd (install_cursors C head rw as st))) k =
    (case om_get (cursors st) k of
       Some c \<Rightarrow> Some c
     | None \<Rightarrow> if k \<in> key_str C ` set as then Some \<lparr>scanned_slot = sat_sub head rw\<rparr> else None)"
  using assms
  by (induction C head rw as st rule: install_cursors.induct)
    (auto simp: Let_def om_wf_om_insert om_get_om_insert om_contains_def split: option.splits)

lemma check_boundary_frame [simp]:
  "cursors (fst (check_history_boundary env st)) = cursors st"
  "recent_signatures (fst (check_history_boundary env st)) = recent_signatures st"
  "poison_failures (fst (check_history_boundary env st)) = poison_failures st"
  "state_wf (fst (check_history_boundary env st)) = state_wf st"
  by (simp_all add: check_history_boundary_def Let_def split: option.splits sum.splits)

lemma has_recent_check [simp]:
  "has_recent_signature (fst (check_history_boundary env st)) t = has_recent_signature st t"
  by (simp add: has_recent_signature_def)

text \<open>The cursor an address is polled with.\<close>

definition polled_cursor :: "codec \<Rightarrow> slot \<Rightarrow> poll_world \<Rightarrow> slot \<Rightarrow> pubkey \<Rightarrow> address_cursor" where
  "polled_cursor C rw w head a =
     (case om_get (cursors (pw_state w)) (key_str C a) of
        Some c \<Rightarrow> c | None \<Rightarrow> \<lparr>scanned_slot = sat_sub head rw\<rparr>)"

lemma has_recent_install [simp]:
  "has_recent_signature (snd (install_cursors C head rw as st)) t = has_recent_signature st t"
  by (simp add: has_recent_signature_def)

lemma prepare_any:
  assumes "poll_prepare C rw addresses env w0 = (w, r)" "state_wf (pw_state w0)"
  shows "state_wf (pw_state w) \<and> pw_sent w = pw_sent w0
    \<and> (\<forall>t. has_recent_signature (pw_state w) t \<longleftrightarrow> known_signature w0 t)
    \<and> poison_failures (pw_state w) = poison_failures (pw_state w0)
    \<and> (\<forall>k c. om_get (cursors (pw_state w0)) k = Some c \<longrightarrow> om_get (cursors (pw_state w)) k = Some c)"
proof -
  let ?a = "absorb_delivered_signatures w0"
  note wf = absorb_frame(4) [OF assms(2)]
  have oc: "om_wf (cursors (pw_state w0))"
    using assms(2) by (simp add: state_wf_def)
  have absorbed: ?thesis if "w = ?a"
    using that wf absorb_recent [OF assms(2)] by simp
  show ?thesis
  proof (cases "pe_head env")
    case (Inl e)
    with assms absorbed show ?thesis by (simp add: poll_prepare_def Let_def)
  next
    case (Inr head)
    show ?thesis
    proof (cases "cursor_ahead_of_head (cursors (pw_state w0)) head rw")
      case (Some e)
      with Inr assms absorbed show ?thesis by (simp add: poll_prepare_def Let_def)
    next
      case None
      let ?i = "install_cursors C head rw addresses (pw_state ?a)"
      have w: "w = ?a\<lparr>pw_state := fst (check_history_boundary env (snd ?i))\<rparr>"
        using assms(1) Inr None
        by (auto simp: poll_prepare_def Let_def split: prod.splits sum.splits)
      show ?thesis
        using wf oc absorb_recent [OF assms(2)]
        by (simp add: w install_wf install_get)
    qed
  qed
qed

lemma prepare_ok:
  assumes "poll_prepare C rw addresses env w0 = (w, Inr (head, initialized, verified))"
    and "state_wf (pw_state w0)"
  shows "pe_head env = Inr head"
    and "cursor_ahead_of_head (cursors (pw_state w0)) head rw = None"
    and "om_get (cursors (pw_state w)) k =
      (case om_get (cursors (pw_state w0)) k of
         Some c \<Rightarrow> Some c
       | None \<Rightarrow> if k \<in> key_str C ` set addresses then Some \<lparr>scanned_slot = sat_sub head rw\<rparr> else None)"
proof -
  have oc: "om_wf (cursors (pw_state (absorb_delivered_signatures w0)))"
    using assms(2) by (simp add: state_wf_def)
  show h: "pe_head env = Inr head"
    using assms(1)
    by (auto simp: poll_prepare_def Let_def split: sum.splits option.splits prod.splits)
  show n: "cursor_ahead_of_head (cursors (pw_state w0)) head rw = None"
    using assms(1) h
    by (auto simp: poll_prepare_def Let_def split: option.splits)
  have "w = (absorb_delivered_signatures w0)\<lparr>pw_state :=
      fst (check_history_boundary env (snd (install_cursors C head rw addresses
        (pw_state (absorb_delivered_signatures w0)))))\<rparr>"
    using assms(1) h n
    by (auto simp: poll_prepare_def Let_def split: prod.splits sum.splits)
  then show "om_get (cursors (pw_state w)) k =
      (case om_get (cursors (pw_state w0)) k of
         Some c \<Rightarrow> Some c
       | None \<Rightarrow> if k \<in> key_str C ` set addresses then Some \<lparr>scanned_slot = sat_sub head rw\<rparr> else None)"
    using install_get [OF oc] by simp
qed

section \<open>Contexts\<close>

text \<open>
  The contexts of a discovery index its batches: every signature of a batch has one, at its slot
  and with the batch's address, and the keys are distinct.
\<close>

definition indexes :: "codec \<Rightarrow> contexts \<Rightarrow> string \<Rightarrow> discovered_signature \<Rightarrow> bool" where
  "indexes C ctxs a d \<longleftrightarrow> (\<exists>c. map_of ctxs (ds_signature d) = Some c \<and> ctx_slot c = ds_slot d
     \<and> a \<in> set (ctx_addresses c))"

lemma map_of_update_context:
  "map_of (update_context s a cs) t =
     (if t = s then map_option (\<lambda>c. c\<lparr>ctx_addresses := oset_insert a (ctx_addresses c)\<rparr>) (map_of cs s)
      else map_of cs t)"
  by (induction s a cs rule: update_context.induct) auto

lemma keys_update_context [simp]: "map fst (update_context s a cs) = map fst cs"
  by (induction s a cs rule: update_context.induct) auto

lemma indexes_update: "indexes C ctxs b d \<Longrightarrow> indexes C (update_context s a ctxs) b d"
  by (auto simp: indexes_def map_of_update_context)

lemma indexes_new: "indexes C ctxs b d \<Longrightarrow> map_of ctxs s = None \<Longrightarrow> indexes C (ctxs @ [(s, c)]) b d"
  by (auto simp: indexes_def map_of_append map_add_def)

lemma add_contexts_keeps:
  "add_contexts C a ds ctxs = Inr ctxs' \<Longrightarrow> indexes C ctxs b x \<Longrightarrow> indexes C ctxs' b x"
proof (induction C a ds ctxs arbitrary: ctxs' rule: add_contexts.induct)
  case (2 C a d ds ctxs)
  then show ?case
    using indexes_update indexes_new by (auto split: option.splits if_splits)
qed simp

lemma add_contexts_adds:
  "add_contexts C a ds ctxs = Inr ctxs' \<Longrightarrow> x \<in> set ds \<Longrightarrow> indexes C ctxs' a x"
proof (induction C a ds ctxs arbitrary: ctxs' rule: add_contexts.induct)
  case (2 C a d ds ctxs)
  show ?case
  proof (cases "x = d")
    case True
    show ?thesis
    proof (cases "map_of ctxs (ds_signature d)")
      case None
      have "indexes C (ctxs @ [(ds_signature d, \<lparr>ctx_slot = ds_slot d, ctx_addresses = [a]\<rparr>)]) a d"
        using None by (simp add: indexes_def map_of_append map_add_def)
      with None True "2.prems" show ?thesis
        using add_contexts_keeps by simp
    next
      case (Some c)
      then have "indexes C (update_context (ds_signature d) a ctxs) a d" if "ctx_slot c = ds_slot d"
        using that by (simp add: indexes_def map_of_update_context)
      with Some True "2.prems" show ?thesis
        using add_contexts_keeps by (auto split: if_splits)
    qed
  next
    case False
    with 2 show ?thesis by (auto split: option.splits if_splits)
  qed
qed simp

lemma add_contexts_distinct:
  "add_contexts C a ds ctxs = Inr ctxs' \<Longrightarrow> distinct (map fst ctxs) \<Longrightarrow> distinct (map fst ctxs')"
  by (induction C a ds ctxs arbitrary: ctxs' rule: add_contexts.induct)
    (auto simp: map_of_eq_None_iff split: option.splits if_splits)

text \<open>
  Conversely a context stands for a signature of some batch at its slot, and an address is in a
  context only for a batch that holds the signature.
\<close>

definition grounded :: "codec \<Rightarrow> address_batch list \<Rightarrow> contexts \<Rightarrow> bool" where
  "grounded C bs ctxs \<longleftrightarrow>
     (\<forall>s c. map_of ctxs s = Some c \<longrightarrow>
        (\<exists>b \<in> set bs. \<lparr>ds_signature = s, ds_slot = ctx_slot c\<rparr> \<in> set (batch_signatures b)) \<and>
        (\<forall>k \<in> set (ctx_addresses c). \<exists>b \<in> set bs. key_str C (batch_address b) = k \<and> s \<in> ds_signature ` set (batch_signatures b)))"

lemma add_contexts_origin:
  "add_contexts C a ds ctxs = Inr ctxs' \<Longrightarrow> map_of ctxs' s = Some c \<Longrightarrow> k \<in> set (ctx_addresses c) \<Longrightarrow>
    (\<exists>c0. map_of ctxs s = Some c0 \<and> k \<in> set (ctx_addresses c0)) \<or> (k = a \<and> s \<in> ds_signature ` set ds)"
proof (induction C a ds ctxs arbitrary: ctxs' rule: add_contexts.induct)
  case (2 C a d ds ctxs)
  show ?case
  proof (cases "map_of ctxs (ds_signature d)")
    case None
    then have "(\<exists>c0. map_of (ctxs @ [(ds_signature d, \<lparr>ctx_slot = ds_slot d, ctx_addresses = [a]\<rparr>)]) s = Some c0
        \<and> k \<in> set (ctx_addresses c0)) \<or> (k = a \<and> s \<in> ds_signature ` set ds)"
      using 2 by simp
    then show ?thesis
      by (auto simp: map_of_append map_add_def split: option.splits if_splits)
  next
    case (Some e)
    then have "(\<exists>c0. map_of (update_context (ds_signature d) a ctxs) s = Some c0
        \<and> k \<in> set (ctx_addresses c0)) \<or> (k = a \<and> s \<in> ds_signature ` set ds)"
      using 2 by (simp split: if_splits)
    then show ?thesis
      using Some by (auto simp: map_of_update_context split: if_splits)
  qed
qed auto

lemma add_contexts_slot:
  "add_contexts C a ds ctxs = Inr ctxs' \<Longrightarrow> map_of ctxs' s = Some c \<Longrightarrow>
    (\<exists>c0. map_of ctxs s = Some c0 \<and> ctx_slot c0 = ctx_slot c)
    \<or> \<lparr>ds_signature = s, ds_slot = ctx_slot c\<rparr> \<in> set ds"
proof (induction C a ds ctxs arbitrary: ctxs' rule: add_contexts.induct)
  case (2 C a d ds ctxs)
  show ?case
  proof (cases "map_of ctxs (ds_signature d)")
    case None
    then have "(\<exists>c0. map_of (ctxs @ [(ds_signature d, \<lparr>ctx_slot = ds_slot d, ctx_addresses = [a]\<rparr>)]) s = Some c0
        \<and> ctx_slot c0 = ctx_slot c) \<or> \<lparr>ds_signature = s, ds_slot = ctx_slot c\<rparr> \<in> set ds"
      using 2 by simp
    then show ?thesis
      by (auto simp: map_of_append map_add_def split: option.splits if_splits)
  next
    case (Some e)
    then have "(\<exists>c0. map_of (update_context (ds_signature d) a ctxs) s = Some c0
        \<and> ctx_slot c0 = ctx_slot c) \<or> \<lparr>ds_signature = s, ds_slot = ctx_slot c\<rparr> \<in> set ds"
      using 2 by (simp split: if_splits)
    then show ?thesis
      using Some by (auto simp: map_of_update_context split: if_splits)
  qed
qed auto

section \<open>Discovery\<close>

definition polled_batch ::
  "codec \<Rightarrow> slot \<Rightarrow> poll_env \<Rightarrow> slot \<Rightarrow> polling_state \<Rightarrow> pubkey \<Rightarrow> address_batch \<Rightarrow> bool" where
  "polled_batch C rw env head st a b \<longleftrightarrow> (\<exists>c. om_get (cursors st) (key_str C a) = Some c
     \<and> discover_signatures C (pe_pages env a) a c head rw = Some (Inr b))"

definition contexts_cover :: "codec \<Rightarrow> discovery \<Rightarrow> bool" where
  "contexts_cover C d \<longleftrightarrow> distinct (map fst (dc_contexts d))
     \<and> (\<forall>b \<in> set (dc_batches d). \<forall>x \<in> set (batch_signatures b).
          indexes C (dc_contexts d) (key_str C (batch_address b)) x)
     \<and> grounded C (dc_batches d) (dc_contexts d)"

lemma add_batch_Inr:
  assumes "add_batch C env cursor b d = Inr d'"
  shows "dc_batches d' = dc_batches d @ [b]"
    and "add_contexts C (key_str C (batch_address b)) (batch_signatures b) (dc_contexts d)
      = Inr (dc_contexts d')"
  using assms by (auto simp: add_batch_def result_iff split: if_splits)

lemma grounded_extend:
  assumes g: "grounded C bs ctxs" and bs': "bs' = bs @ [b]"
    and origin: "\<And>s c k. map_of ctxs' s = Some c \<Longrightarrow> k \<in> set (ctx_addresses c) \<Longrightarrow>
      (\<exists>c0. map_of ctxs s = Some c0 \<and> k \<in> set (ctx_addresses c0))
      \<or> (k = key_str C (batch_address b) \<and> s \<in> ds_signature ` set (batch_signatures b))"
    and at: "\<And>s c. map_of ctxs' s = Some c \<Longrightarrow>
      (\<exists>c0. map_of ctxs s = Some c0 \<and> ctx_slot c0 = ctx_slot c)
      \<or> \<lparr>ds_signature = s, ds_slot = ctx_slot c\<rparr> \<in> set (batch_signatures b)"
  shows "grounded C bs' ctxs'"
  unfolding grounded_def
proof (intro allI impI conjI ballI)
  fix s c
  assume c: "map_of ctxs' s = Some c"
  show "\<exists>b \<in> set bs'. \<lparr>ds_signature = s, ds_slot = ctx_slot c\<rparr> \<in> set (batch_signatures b)"
    using at [OF c] g unfolding grounded_def bs' by fastforce
  fix k
  assume "k \<in> set (ctx_addresses c)"
  then show "\<exists>b \<in> set bs'. key_str C (batch_address b) = k \<and> s \<in> ds_signature ` set (batch_signatures b)"
    using origin [OF c] g unfolding grounded_def bs' by fastforce
qed

lemma contexts_cover_add:
  assumes "contexts_cover C d" "add_batch C env cursor b d = Inr d'"
  shows "contexts_cover C d'"
proof -
  note b = add_batch_Inr [OF assms(2)]
  have "grounded C (dc_batches d) (dc_contexts d)"
    using assms(1) by (simp add: contexts_cover_def)
  then have "grounded C (dc_batches d') (dc_contexts d')"
    using add_contexts_origin [OF b(2)] add_contexts_slot [OF b(2)]
    by (rule grounded_extend [OF _ b(1)])
  then show ?thesis
    using assms(1) b add_contexts_keeps add_contexts_adds add_contexts_distinct
    unfolding contexts_cover_def by auto
qed

lemma discover_all_Inr:
  "discover_all C rw env head st as d0 = Some (Inr d) \<Longrightarrow> contexts_cover C d0 \<Longrightarrow>
    contexts_cover C d
    \<and> (\<exists>bs. dc_batches d = dc_batches d0 @ bs \<and> map batch_address bs = as
         \<and> list_all2 (polled_batch C rw env head st) as bs)"
proof (induction C rw env head st as d0 rule: discover_all.induct)
  case (2 C rw env head st a as d0)
  from "2.prems"(1) obtain c b d1 where step: "om_get (cursors st) (key_str C a) = Some c"
      "discover_signatures C (pe_pages env a) a c head rw = Some (Inr b)"
      "add_batch C env c b d0 = Inr d1" "discover_all C rw env head st as d1 = Some (Inr d)"
    by (auto split: option.splits sum.splits)
  have cover: "contexts_cover C d1"
    by (rule contexts_cover_add [OF "2.prems"(2) step(3)])
  obtain bs where "contexts_cover C d" "dc_batches d = dc_batches d1 @ bs" "map batch_address bs = as"
      "list_all2 (polled_batch C rw env head st) as bs"
    using "2.IH" [OF step(1,2) refl step(3,4) cover] by blast
  moreover have "polled_batch C rw env head st a b" "batch_address b = a"
    using step(1,2) discover_batch_address by (auto simp: polled_batch_def)
  ultimately show ?case
    using add_batch_Inr(1) [OF step(3)] by (intro conjI exI [of _ "b # bs"]) auto
qed simp

lemma contexts_cover_empty [simp]: "contexts_cover C empty_discovery"
  by (simp add: contexts_cover_def empty_discovery_def grounded_def)

section \<open>Processing\<close>

definition is_quarantined :: "polling_state \<Rightarrow> signature \<Rightarrow> bool" where
  "is_quarantined st s \<longleftrightarrow> (\<exists>f. om_get (poison_failures st) s = Some f \<and> pf_quarantined f)"

lemma record_poison_get:
  "state_wf st \<Longrightarrow> t \<noteq> s \<Longrightarrow>
    om_get (poison_failures (snd (record_poison_failure s m st))) t = om_get (poison_failures st) t"
  by (simp add: record_poison_failure_def Let_def state_wf_def om_get_om_insert)

lemma record_poison_quarantined:
  "state_wf st \<Longrightarrow> fd_quarantined (fst (record_poison_failure s m st)) \<longleftrightarrow>
    is_quarantined (snd (record_poison_failure s m st)) s"
  by (simp add: record_poison_failure_def Let_def state_wf_def om_get_om_insert is_quarantined_def)

lemma clear_poison_get:
  "state_wf st \<Longrightarrow> t \<noteq> s \<Longrightarrow>
    om_get (poison_failures (clear_poison_failure s st)) t = om_get (poison_failures st) t"
  by (simp add: clear_poison_failure_def state_wf_def om_get_om_remove)

definition update_signature :: "update \<Rightarrow> signature option" where
  "update_signature u = (case u of TransactionUpdate t \<Rightarrow> Some (tu_signature t) | OtherUpdate _ \<Rightarrow> None)"

definition update_slot :: "update \<Rightarrow> slot" where
  "update_slot u = (case u of TransactionUpdate t \<Rightarrow> tu_slot t | OtherUpdate _ \<Rightarrow> 0)"

text \<open>
  Three outcomes of one fetched transaction: a success of that signature, a retry, or a signature
  that is quarantined and recorded. Nothing else changes.
\<close>

lemma process_one_cases:
  assumes wf: "state_wf (pr_state p)"
  obtains (success) sl u where "process_one C L ctxs (s, f) p =
      p\<lparr>pr_state := clear_poison_failure s (pr_state p), pr_successes := pr_successes p @ [(s, sl, u)]\<rparr>"
      "update_signature u = Some s" "update_slot u = sl" "\<exists>tx s'. f = Inr (s', tx) \<and> sl = et_slot tx"
  | (retry) st ms where "process_one C L ctxs (s, f) p =
      p\<lparr>pr_state := st, pr_metrics := ms, pr_retrying := pr_retrying p @ [s]\<rparr>"
      "st = pr_state p \<or> st = snd (record_poison_failure s max_transaction_failure_attempts (pr_state p))"
  | (quarantine) ms where "process_one C L ctxs (s, f) p =
      p\<lparr>pr_state := record_recent_signature s (context_slot ctxs s)
           (snd (record_poison_failure s max_transaction_failure_attempts (pr_state p))),
        pr_metrics := ms\<rparr>"
      "is_quarantined (snd (record_poison_failure s max_transaction_failure_attempts (pr_state p))) s"
proof -
  obtain fd st where rp: "record_poison_failure s max_transaction_failure_attempts (pr_state p) = (fd, st)"
    by (cases "record_poison_failure s max_transaction_failure_attempts (pr_state p)")
  have q: "fd_quarantined fd \<longleftrightarrow> is_quarantined st s"
    using record_poison_quarantined [OF wf, of s max_transaction_failure_attempts] rp by simp
  have poison: thesis if "process_fetched_transaction C L s f (pr_state p) = poisoned s e (pr_state p)" for e
    using that retry [where st = st] quarantine q
    by (cases "fd_quarantined fd") (auto simp: process_one_def poisoned_def rp)
  show thesis
  proof (cases f)
    case (Inl err)
    show thesis
    proof (cases "fe_permanent err")
      case True
      with Inl poison show thesis by (simp add: process_fetched_transaction_def)
    next
      case False
      with Inl retry [where st = "pr_state p"] show thesis
        by (simp add: process_one_def process_fetched_transaction_def)
    qed
  next
    case (Inr y)
    obtain s' tx where y: "y = (s', tx)" by (cases y)
    show thesis
    proof (cases "transaction_update L s tx")
      case None
      with Inr y poison show thesis by (simp add: process_fetched_transaction_def)
    next
      case (Some u)
      then have "update_signature u = Some s" "update_slot u = et_slot tx"
        by (auto simp: transaction_update_Some update_signature_def update_slot_def)
      with Inr y Some success [where sl = "et_slot tx" and u = u] show thesis
        by (simp add: process_one_def process_fetched_transaction_def)
    qed
  qed
qed

definition success_of :: "(signature \<times> fetched) list \<Rightarrow> signature \<times> slot \<times> update \<Rightarrow> bool" where
  "success_of fs x \<longleftrightarrow> (case x of (s, sl, u) \<Rightarrow>
     update_signature u = Some s \<and> update_slot u = sl \<and> (\<exists>tx s'. (s, Inr (s', tx)) \<in> set fs \<and> sl = et_slot tx))"

definition processed :: "contexts \<Rightarrow> (signature \<times> fetched) list \<Rightarrow> polling_state \<Rightarrow> processing \<Rightarrow> bool" where
  "processed ctxs fs st p \<longleftrightarrow>
     state_wf (pr_state p) \<and> cursors (pr_state p) = cursors st
     \<and> (\<forall>x \<in> set (pr_successes p). success_of fs x)
     \<and> distinct (map fst (pr_successes p))
     \<and> set (pr_retrying p) \<subseteq> fst ` set fs
     \<and> fst ` set (pr_successes p) \<inter> set (pr_retrying p) = {}
     \<and> (\<forall>s \<in> fst ` set fs. s \<in> fst ` set (pr_successes p) \<or> s \<in> set (pr_retrying p)
          \<or> is_quarantined (pr_state p) s)
     \<and> (\<forall>t. has_recent_signature st t \<longrightarrow> has_recent_signature (pr_state p) t)
     \<and> (\<forall>t sl. om_get (recent_signatures (pr_state p)) t = Some sl \<longrightarrow>
          om_get (recent_signatures st) t = Some sl
          \<or> (t \<in> fst ` set fs \<and> t \<notin> fst ` set (pr_successes p) \<and> sl = context_slot ctxs t))"

lemma success_of_mono: "success_of fs x \<Longrightarrow> set fs \<subseteq> set gs \<Longrightarrow> success_of gs x"
  by (auto simp: success_of_def split: prod.splits)

lemma is_quarantined_others:
  assumes "state_wf st" "t \<noteq> s"
  shows "is_quarantined (snd (record_poison_failure s m st)) t = is_quarantined st t"
    and "is_quarantined (clear_poison_failure s st) t = is_quarantined st t"
  by (simp_all add: is_quarantined_def record_poison_get clear_poison_get assms)

lemma is_quarantined_record [simp]:
  "is_quarantined (record_recent_signature r sl st) v = is_quarantined st v"
  by (simp add: is_quarantined_def)

lemma has_recent_get:
  "has_recent_signature st t \<longleftrightarrow> (\<exists>sl. om_get (recent_signatures st) t = Some sl)"
  by (auto simp: has_recent_signature_def om_contains_def)

lemma recent_record_get:
  "state_wf st \<Longrightarrow> om_get (recent_signatures (record_recent_signature s sl st)) t =
    (if t = s then Some sl else om_get (recent_signatures st) t)"
  by (simp add: record_recent_signature_def state_wf_def om_get_om_insert)

lemma processedD:
  assumes "processed ctxs fs st p"
  shows "state_wf (pr_state p)" "cursors (pr_state p) = cursors st"
    and "\<forall>x \<in> set (pr_successes p). success_of fs x"
    and "distinct (map fst (pr_successes p))"
    and "set (pr_retrying p) \<subseteq> fst ` set fs"
    and "fst ` set (pr_successes p) \<inter> set (pr_retrying p) = {}"
    and "\<forall>s \<in> fst ` set fs. s \<in> fst ` set (pr_successes p) \<or> s \<in> set (pr_retrying p)
          \<or> is_quarantined (pr_state p) s"
    and "\<forall>t. has_recent_signature st t \<longrightarrow> has_recent_signature (pr_state p) t"
    and "\<forall>t sl. om_get (recent_signatures (pr_state p)) t = Some sl \<longrightarrow>
          om_get (recent_signatures st) t = Some sl
          \<or> (t \<in> fst ` set fs \<and> t \<notin> fst ` set (pr_successes p) \<and> sl = context_slot ctxs t)"
  using assms unfolding processed_def by - (elim conjE, assumption)+

lemma success_fst: "success_of fs x \<Longrightarrow> fst x \<in> fst ` set fs"
  by (cases x) (force simp: success_of_def)

lemma processed_extend:
  assumes p: "processed ctxs fs st p" and new: "s \<notin> fst ` set fs"
    and fresh: "\<not> has_recent_signature st s"
    and wf: "state_wf (pr_state p')" and cs: "cursors (pr_state p') = cursors (pr_state p)"
    and succ: "pr_successes p' = pr_successes p @ add"
    and add: "\<And>x. x \<in> set add \<Longrightarrow> success_of [(s, f)] x" "distinct (map fst add)"
    and retry: "pr_retrying p' = pr_retrying p @ ret" "set ret \<subseteq> {s}"
    and dis: "add = [] \<or> ret = []"
    and settled: "s \<in> fst ` set add \<or> s \<in> set ret \<or> is_quarantined (pr_state p') s"
    and others: "\<And>t. t \<noteq> s \<Longrightarrow> is_quarantined (pr_state p') t = is_quarantined (pr_state p) t"
    and recent: "\<And>t. om_get (recent_signatures (pr_state p')) t = om_get (recent_signatures (pr_state p)) t
      \<or> (t = s \<and> add = [] \<and> om_get (recent_signatures (pr_state p')) t = Some (context_slot ctxs s))"
  shows "processed ctxs (fs @ [(s, f)]) st p'"
proof -
  note P = processedD [OF p]
  have sub: "fst ` set (pr_successes p) \<subseteq> fst ` set fs"
    using P(3) success_fst by auto
  have adds: "fst ` set add \<subseteq> {s}"
    using add(1) success_fst by fastforce
  have notin: "s \<notin> fst ` set (pr_successes p)" "s \<notin> set (pr_retrying p)"
    using sub P(5) new by auto
  have "\<forall>x \<in> set (pr_successes p'). success_of (fs @ [(s, f)]) x"
  proof
    fix x
    assume "x \<in> set (pr_successes p')"
    then consider "success_of fs x" | "success_of [(s, f)] x"
      using P(3) add(1) unfolding succ by (metis Un_iff set_append)
    then show "success_of (fs @ [(s, f)]) x"
      by cases (auto elim!: success_of_mono)
  qed
  moreover have "distinct (map fst (pr_successes p'))"
    using P(4) notin(1) adds add(2) unfolding succ by auto
  moreover have "set (pr_retrying p') \<subseteq> fst ` set (fs @ [(s, f)])"
    using P(5) retry by auto
  moreover have "fst ` set (pr_successes p') \<inter> set (pr_retrying p') = {}"
    using P(6) notin adds retry dis unfolding succ by auto
  moreover have "\<forall>t \<in> fst ` set (fs @ [(s, f)]). t \<in> fst ` set (pr_successes p')
      \<or> t \<in> set (pr_retrying p') \<or> is_quarantined (pr_state p') t"
  proof
    fix t
    assume t: "t \<in> fst ` set (fs @ [(s, f)])"
    show "t \<in> fst ` set (pr_successes p') \<or> t \<in> set (pr_retrying p') \<or> is_quarantined (pr_state p') t"
    proof (cases "t = s")
      case True
      then show ?thesis using settled succ retry(1) by auto
    next
      case False
      then have "t \<in> fst ` set (pr_successes p) \<or> t \<in> set (pr_retrying p)
          \<or> is_quarantined (pr_state p) t"
        using P(7) t False by auto
      then show ?thesis using others [OF False] succ retry(1) by auto
    qed
  qed
  moreover have "\<forall>t. has_recent_signature st t \<longrightarrow> has_recent_signature (pr_state p') t"
  proof (intro allI impI)
    fix t
    assume "has_recent_signature st t"
    then have "has_recent_signature (pr_state p) t" using P(8) by blast
    then show "has_recent_signature (pr_state p') t"
      using recent [of t] by (auto simp: has_recent_get)
  qed
  moreover have "\<forall>t sl. om_get (recent_signatures (pr_state p')) t = Some sl \<longrightarrow>
      om_get (recent_signatures st) t = Some sl
      \<or> (t \<in> fst ` set (fs @ [(s, f)]) \<and> t \<notin> fst ` set (pr_successes p') \<and> sl = context_slot ctxs t)"
  proof (intro allI impI)
    fix t sl
    assume g: "om_get (recent_signatures (pr_state p')) t = Some sl"
    show "om_get (recent_signatures st) t = Some sl
      \<or> (t \<in> fst ` set (fs @ [(s, f)]) \<and> t \<notin> fst ` set (pr_successes p') \<and> sl = context_slot ctxs t)"
    proof (cases "t = s")
      case True
      have "om_get (recent_signatures (pr_state p)) s \<noteq> Some sl"
        using P(9) [rule_format, of s sl] new fresh unfolding has_recent_get by blast
      then show ?thesis
        using recent [of t] g True notin(1) succ by auto
    next
      case False
      then have "om_get (recent_signatures (pr_state p)) t = Some sl"
        using recent [of t] g by simp
      then have "om_get (recent_signatures st) t = Some sl
          \<or> (t \<in> fst ` set fs \<and> t \<notin> fst ` set (pr_successes p) \<and> sl = context_slot ctxs t)"
        using P(9) by blast
      then show ?thesis using False adds succ by auto
    qed
  qed
  moreover have "cursors (pr_state p') = cursors st"
    using cs P(2) by simp
  moreover note wf
  ultimately show ?thesis
    unfolding processed_def by (intro conjI)
qed

lemma processed_step:
  assumes p: "processed ctxs fs st p" and new: "s \<notin> fst ` set fs"
    and fresh: "\<not> has_recent_signature st s"
  shows "processed ctxs (fs @ [(s, f)]) st (process_one C L ctxs (s, f) p)"
proof -
  let ?r = "snd (record_poison_failure s max_transaction_failure_attempts (pr_state p))"
  have wf: "state_wf (pr_state p)"
    using p by (simp add: processed_def)
  then have wf': "state_wf ?r" by simp
  note q = is_quarantined_others [OF wf]
  from wf show ?thesis
  proof (cases rule: process_one_cases [where C = C and L = L and ctxs = ctxs and s = s and f = f])
    case (success sl u)
    then have "success_of [(s, f)] (s, sl, u)"
      by (auto simp: success_of_def)
    then show ?thesis
      unfolding success(1)
      by (intro processed_extend [OF p new fresh, where add = "[(s, sl, u)]" and ret = "[]"])
        (simp_all add: wf q)
  next
    case (retry st' ms)
    then have "state_wf st'" "cursors st' = cursors (pr_state p)"
      "recent_signatures st' = recent_signatures (pr_state p)"
      "\<And>t. t \<noteq> s \<Longrightarrow> is_quarantined st' t = is_quarantined (pr_state p) t"
      using wf q(1) by auto
    then show ?thesis
      unfolding retry(1)
      by (intro processed_extend [OF p new fresh, where add = "[]" and ret = "[s]"]) simp_all
  next
    case (quarantine ms)
    then show ?thesis
      unfolding quarantine(1)
      by (intro processed_extend [OF p new fresh, where add = "[]" and ret = "[]"])
        (simp_all add: wf wf' q(1) recent_record_get [OF wf'])
  qed
qed

lemma process_all_processed:
  "state_wf st \<Longrightarrow> distinct (map fst fs) \<Longrightarrow> (\<forall>s \<in> fst ` set fs. \<not> has_recent_signature st s) \<Longrightarrow>
    processed ctxs fs st (process_all C L ctxs fs st)"
proof (induction fs rule: rev_induct)
  case Nil
  then show ?case by (simp add: process_all_def processed_def)
next
  case (snoc x fs)
  then show ?case
    using processed_step [of ctxs fs st "process_all C L ctxs fs st" "fst x" "snd x" C L]
    by (simp add: process_all_def)
qed

section \<open>Sending and finishing\<close>

definition completion_ok :: "poll_env \<Rightarrow> bool" where
  "completion_ok env \<longleftrightarrow> (\<forall>ss. mset (pe_completion env ss) = mset ss)"

lemma completion_set: "completion_ok env \<Longrightarrow> set (pe_completion env ss) = set ss"
  by (metis completion_ok_def set_mset_mset)

lemma completion_distinct: "completion_ok env \<Longrightarrow> distinct (pe_completion env ss) = distinct ss"
  by (metis completion_ok_def mset_eq_imp_distinct_iff)

lemma fetch_all_keys [simp]: "map fst (fetch_all L env ss) = pe_completion env ss"
  by (simp add: fetch_all_def comp_def)

abbreviation sent_pairs :: "(signature \<times> slot \<times> update) list \<Rightarrow> (signature \<times> slot) list" where
  "sent_pairs us \<equiv> map (\<lambda>x. (fst x, fst (snd x))) us"

abbreviation sent_updates :: "(signature \<times> slot \<times> update) list \<Rightarrow> update list" where
  "sent_updates us \<equiv> map (\<lambda>x. snd (snd x)) us"

lemma send_updates_prefix:
  "\<exists>k. fst (send_updates accepts n us w) =
       w\<lparr>pw_state := record_deliveries (sent_pairs (take k us)) (pw_state w),
         pw_sent := pw_sent w @ sent_updates (take k us)\<rparr>
     \<and> (snd (send_updates accepts n us w) = Inr () \<longrightarrow> k = length us)"
proof (induction accepts n us w rule: send_updates.induct)
  case (2 accepts n s sl u us w)
  show ?case
  proof (cases "accepts n")
    case True
    let ?w = "with_state (record_recent_signature s sl) (w\<lparr>pw_sent := pw_sent w @ [u]\<rparr>)"
    obtain k where "fst (send_updates accepts (Suc n) us ?w) =
        ?w\<lparr>pw_state := record_deliveries (sent_pairs (take k us)) (pw_state ?w),
          pw_sent := pw_sent ?w @ sent_updates (take k us)\<rparr>"
      "snd (send_updates accepts (Suc n) us ?w) = Inr () \<longrightarrow> k = length us"
      using "2.IH" [OF True] by blast
    then show ?thesis
      using True
      by (intro exI [of _ "Suc k"]) (simp add: record_deliveries_def with_state_def)
  next
    case False
    then show ?thesis by (intro exI [of _ 0]) (simp add: record_deliveries_def)
  qed
qed (simp add: record_deliveries_def)

lemma ready_updates_set:
  "set (ready_updates ctxs p) =
    {x \<in> set (pr_successes p). signature_is_ready (fst x) ctxs (blocked_addresses ctxs (pr_retrying p))}"
  by (auto simp: ready_updates_def)

lemma ready_updates_distinct:
  "distinct (map fst (pr_successes p)) \<Longrightarrow> distinct (map fst (ready_updates ctxs p))"
  by (auto simp: ready_updates_def distinct_map intro: inj_on_subset)

lemma ready_updates_sorted: "sorted (map (\<lambda>x. fst (snd x)) (ready_updates ctxs p))"
  unfolding ready_updates_def by (simp add: case_prod_unfold)

text \<open>The state a poll leaves when it succeeds, from the state after its sends.\<close>

definition finished_state ::
  "codec \<Rightarrow> slot \<Rightarrow> slot \<Rightarrow> address_batch list \<Rightarrow> signature list \<Rightarrow> polling_state \<Rightarrow> polling_state" where
  "finished_state C rw head bs retrying st =
     (let st' = snd (advance_ready_cursors (key_str C) bs retrying st)
      in retain_signatures_after
           (unreachable_below (case minimum_scanned_slot st' of Some m \<Rightarrow> m | None \<Rightarrow> head) rw) st')"

lemma deliver_all:
  assumes "poll_deliver C L rw env head initialized verified d w = (w', r)"
    and "contexts_cover C d" "completion_ok env" "state_wf (pw_state w)"
  obtains p fs k where
    "fst ` set fs = set (signatures_to_fetch (dc_contexts d) (pw_state w))"
    "processed (dc_contexts d) fs (pw_state w) p"
    "pw_sent w' = pw_sent w @ sent_updates (take k (ready_updates (dc_contexts d) p))"
    "case r of
       Inl e \<Rightarrow> pw_state w' =
         record_deliveries (sent_pairs (take k (ready_updates (dc_contexts d) p))) (pr_state p)
     | Inr out \<Rightarrow> k = length (ready_updates (dc_contexts d) p) \<and> queued_transactions out = k
         \<and> pw_state w' = finished_state C rw head (dc_batches d) (pr_retrying p)
             (record_deliveries (sent_pairs (ready_updates (dc_contexts d) p)) (pr_state p))"
    "set fs \<subseteq> (\<lambda>s. (s, the (fst (fetch_transaction L (pe_transactions env s) s)))) ` UNIV"
    "p = process_all C L (dc_contexts d) fs (pw_state w)" "distinct (map fst fs)"
proof -
  let ?ctxs = "dc_contexts d"
  define fs where "fs = fetch_all L env (signatures_to_fetch ?ctxs (pw_state w))"
  define p where "p = process_all C L ?ctxs fs (pw_state w)"
  define us where "us = ready_updates ?ctxs p"
  define w1 where "w1 = emit (pr_metrics p) (w\<lparr>pw_state := pr_state p\<rparr>)"
  have keys: "fst ` set fs = set (signatures_to_fetch ?ctxs (pw_state w))"
    using completion_set [OF assms(3)] fetch_all_keys
    by (metis fs_def list.set_map)
  have dist: "distinct (map fst fs)"
    using assms(2) completion_distinct [OF assms(3)]
    by (simp add: fs_def signatures_to_fetch_def contexts_cover_def)
  have proc: "processed ?ctxs fs (pw_state w) p"
    unfolding p_def using keys assms(4) dist
    by (intro process_all_processed) (auto simp: signatures_to_fetch_def)
  obtain k where k: "fst (send_updates (pe_accepts env) 0 us w1) =
       w1\<lparr>pw_state := record_deliveries (sent_pairs (take k us)) (pw_state w1),
         pw_sent := pw_sent w1 @ sent_updates (take k us)\<rparr>"
     "snd (send_updates (pe_accepts env) 0 us w1) = Inr () \<longrightarrow> k = length us"
    using send_updates_prefix by blast
  have w1: "pw_state w1 = pr_state p" "pw_sent w1 = pw_sent w"
    by (simp_all add: w1_def emit_def)
  have unfold: "poll_deliver C L rw env head initialized verified d w =
      (case send_updates (pe_accepts env) 0 us w1 of
           (w', Inl e) \<Rightarrow> (w', Inl e)
         | (w', Inr _) \<Rightarrow>
             (case poll_finish C rw env head initialized (verified \<or> dc_verified d)
                     (dc_batches d) (pr_retrying p) (length us) w' of
                (w'', out) \<Rightarrow> (w'', Inr out)))"
    unfolding poll_deliver_def Let_def fs_def p_def us_def w1_def by (rule refl)
  have fssub: "set fs \<subseteq> (\<lambda>s. (s, the (fst (fetch_transaction L (pe_transactions env s) s)))) ` UNIV"
    by (auto simp: fs_def fetch_all_def)
  show thesis
  proof (cases "snd (send_updates (pe_accepts env) 0 us w1)")
    case (Inl e)
    then have "w' = fst (send_updates (pe_accepts env) 0 us w1)" "r = Inl e"
      using assms(1) unfold by (auto simp: case_prod_unfold)
    with k w1 show thesis
      by (intro that [OF keys proc _ _ fssub p_def dist, of k]) (simp_all add: us_def)
  next
    case (Inr u)
    then have "w' = fst (poll_finish C rw env head initialized (verified \<or> dc_verified d)
                     (dc_batches d) (pr_retrying p) (length us)
                     (fst (send_updates (pe_accepts env) 0 us w1)))"
      "r = Inr (snd (poll_finish C rw env head initialized (verified \<or> dc_verified d)
                     (dc_batches d) (pr_retrying p) (length us)
                     (fst (send_updates (pe_accepts env) 0 us w1))))"
      using assms(1) unfold by (auto simp: case_prod_unfold)
    with k w1 Inr show thesis
      by (intro that [OF keys proc _ _ fssub p_def dist, of k])
        (auto simp: us_def poll_finish_def finished_state_def Let_def case_prod_unfold)
  qed
qed

lemma deliver_any:
  assumes "poll_deliver C L rw env head initialized verified d w = (w', r)"
    and "contexts_cover C d" "completion_ok env" "state_wf (pw_state w)"
  obtains p fs k where
    "fst ` set fs = set (signatures_to_fetch (dc_contexts d) (pw_state w))"
    "processed (dc_contexts d) fs (pw_state w) p"
    "pw_sent w' = pw_sent w @ sent_updates (take k (ready_updates (dc_contexts d) p))"
    "case r of
       Inl e \<Rightarrow> pw_state w' =
         record_deliveries (sent_pairs (take k (ready_updates (dc_contexts d) p))) (pr_state p)
     | Inr out \<Rightarrow> k = length (ready_updates (dc_contexts d) p) \<and> queued_transactions out = k
         \<and> pw_state w' = finished_state C rw head (dc_batches d) (pr_retrying p)
             (record_deliveries (sent_pairs (ready_updates (dc_contexts d) p)) (pr_state p))"
    "set fs \<subseteq> (\<lambda>s. (s, the (fst (fetch_transaction L (pe_transactions env s) s)))) ` UNIV"
  by (rule deliver_all [OF assms]) (rule that)

section \<open>Cursors at the end of a poll\<close>

lemma finished_wf: "state_wf st \<Longrightarrow> state_wf (finished_state C rw head bs retrying st)"
  by (simp add: finished_state_def Let_def)

lemma finished_frame [simp]:
  "poison_failures (finished_state C rw head bs retrying st) = poison_failures st"
  "cursors (finished_state C rw head bs retrying st)
     = cursors (snd (advance_ready_cursors (key_str C) bs retrying st))"
  by (simp_all add: finished_state_def Let_def)

lemma finished_quarantined [simp]:
  "is_quarantined (finished_state C rw head bs retrying st) s = is_quarantined st s"
  by (simp add: is_quarantined_def)

lemma record_deliveries_quarantined [simp]:
  "is_quarantined (record_deliveries ds st) s = is_quarantined st s"
  by (simp add: is_quarantined_def)

text \<open>
  A signature found in a batch whose address is not blocked: its context is there, and if an
  address of it is blocked then that address has a batch with the signature too.
\<close>

lemma not_ready_elsewhere:
  assumes "contexts_cover C d" "map_of (dc_contexts d) s = Some c"
    and "\<not> signature_is_ready s (dc_contexts d) (blocked_addresses (dc_contexts d) retrying)"
  obtains b where "b \<in> set (dc_batches d)" "s \<in> ds_signature ` set (batch_signatures b)"
    "\<exists>r \<in> set retrying. key_str C (batch_address b) \<in> set (context_addresses (dc_contexts d) r)"
proof -
  have g: "grounded C (dc_batches d) (dc_contexts d)"
    using assms(1) by (simp add: contexts_cover_def)
  obtain k where k: "k \<in> set (ctx_addresses c)"
    "k \<in> set (blocked_addresses (dc_contexts d) retrying)"
    using assms(2,3) by (auto simp: signature_is_ready_def)
  obtain b where b: "b \<in> set (dc_batches d)" "key_str C (batch_address b) = k"
    "s \<in> ds_signature ` set (batch_signatures b)"
    using g [unfolded grounded_def, rule_format, OF assms(2)] k(1) by blast
  then show thesis
    using that [of b] k(2) by (auto simp: blocked_addresses_def)
qed

lemma blocked_by_context:
  assumes cover: "contexts_cover C d" and inj: "inj (key_str C)"
    and dist: "distinct (map batch_address (dc_batches d))"
    and b: "b \<in> set (dc_batches d)"
    and r: "r \<in> set retrying" "key_str C (batch_address b) \<in> set (context_addresses (dc_contexts d) r)"
  shows "batch_blocked b retrying"
proof -
  obtain c where c: "map_of (dc_contexts d) r = Some c" "key_str C (batch_address b) \<in> set (ctx_addresses c)"
    using r(2) by (cases "map_of (dc_contexts d) r") (auto simp: context_addresses_def)
  have "grounded C (dc_batches d) (dc_contexts d)"
    using cover by (simp add: contexts_cover_def)
  from this [unfolded grounded_def, rule_format, OF c(1)] c(2)
  obtain b' where b': "b' \<in> set (dc_batches d)" "key_str C (batch_address b') = key_str C (batch_address b)"
    "r \<in> ds_signature ` set (batch_signatures b')" by blast
  have "batch_address b' = batch_address b"
    using inj b'(2) by (simp add: inj_eq)
  then have "b' = b"
    by (rule distinct_map_eq [OF dist b'(1) b])
  then show ?thesis
    using b'(3) r(1) by (auto simp: batch_blocked_def list_ex_iff)
qed

section \<open>The whole poll\<close>

definition newly_sent :: "poll_world \<Rightarrow> poll_world \<Rightarrow> update list" where
  "newly_sent w w' = drop (length (pw_sent w)) (pw_sent w')"

definition cursor_of :: "codec \<Rightarrow> poll_world \<Rightarrow> pubkey \<Rightarrow> address_cursor option" where
  "cursor_of C w a = om_get (cursors (pw_state w)) (key_str C a)"

definition poll_batch ::
  "codec \<Rightarrow> slot \<Rightarrow> poll_env \<Rightarrow> poll_world \<Rightarrow> slot \<Rightarrow> pubkey \<Rightarrow> address_batch \<Rightarrow> bool" where
  "poll_batch C rw env w head a b \<longleftrightarrow>
     discover_signatures C (pe_pages env a) a (polled_cursor C rw w head a) head rw = Some (Inr b)"

lemma poll_cases:
  assumes "poll C L rw addresses env w0 = Some (w', r)" "state_wf (pw_state w0)"
  obtains (early) e where "r = Inl e" "pw_sent w' = pw_sent w0"
      "\<exists>r'. poll_prepare C rw addresses env w0 = (w', r')"
  | (deliver) w head initialized verified d where
      "poll_prepare C rw addresses env w0 = (w, Inr (head, initialized, verified))"
      "discover_all C rw env head (pw_state w) addresses empty_discovery = Some (Inr d)"
      "poll_deliver C L rw env head initialized verified d w = (w', r)"
proof -
  obtain w q where pr: "poll_prepare C rw addresses env w0 = (w, q)"
    by (cases "poll_prepare C rw addresses env w0")
  have sent: "pw_sent w = pw_sent w0"
    using prepare_any [OF pr assms(2)] by simp
  show thesis
  proof (cases q)
    case (Inl e)
    with pr assms(1) sent early show thesis by (auto simp: poll_def)
  next
    case (Inr x)
    obtain head initialized verified where x: "x = (head, initialized, verified)" by (cases x)
    obtain y where y: "discover_all C rw env head (pw_state w) addresses empty_discovery = Some y"
      using assms(1) pr Inr x by (auto simp: poll_def split: option.splits)
    show thesis
    proof (cases y)
      case (Inl e)
      with pr Inr x y assms(1) sent early show thesis by (auto simp: poll_def)
    next
      case (Inr d)
      with pr \<open>q = Inr x\<close> x y assms(1) deliver show thesis by (auto simp: poll_def)
    qed
  qed
qed

lemma prepared_batches:
  assumes prep: "poll_prepare C rw addresses env w0 = (w, Inr (head, initialized, verified))"
    and disc: "discover_all C rw env head (pw_state w) addresses empty_discovery = Some (Inr d)"
    and wf: "state_wf (pw_state w0)"
  shows "contexts_cover C d" "map batch_address (dc_batches d) = addresses"
    and "b \<in> set (dc_batches d) \<Longrightarrow> poll_batch C rw env w0 head (batch_address b) b"
    and "a \<in> set addresses \<Longrightarrow> cursor_of C w a = Some (polled_cursor C rw w0 head a)"
proof -
  obtain bs where bs: "dc_batches d = bs" "map batch_address bs = addresses"
      "list_all2 (polled_batch C rw env head (pw_state w)) addresses bs"
    using discover_all_Inr [OF disc contexts_cover_empty] by (auto simp: empty_discovery_def)
  show "contexts_cover C d"
    using discover_all_Inr [OF disc] by simp
  show m: "map batch_address (dc_batches d) = addresses"
    using bs by simp
  show cur: "cursor_of C w a = Some (polled_cursor C rw w0 head a)" if "a \<in> set addresses" for a
    using prepare_ok(3) [OF prep wf, of "key_str C a"] that
    by (auto simp: cursor_of_def polled_cursor_def split: option.splits)
  assume b: "b \<in> set (dc_batches d)"
  then obtain i where i: "i < length bs" "bs ! i = b"
    using bs(1) by (auto simp: in_set_conv_nth)
  then have "polled_batch C rw env head (pw_state w) (addresses ! i) b"
    using bs(3) by (auto simp: list_all2_conv_all_nth)
  moreover have "addresses ! i = batch_address b"
    using i bs(2) by (metis nth_map)
  moreover have "batch_address b \<in> set addresses"
    using b m by auto
  ultimately show "poll_batch C rw env w0 head (batch_address b) b"
    using cur [of "batch_address b"] by (auto simp: polled_batch_def poll_batch_def cursor_of_def)
qed

lemma cursors_after_poll:
  assumes codec: "codec_ok C" and dist: "distinct addresses" and wf: "state_wf (pw_state w0)"
    and prep: "poll_prepare C rw addresses env w0 = (w, Inr (head, initialized, verified))"
    and disc: "discover_all C rw env head (pw_state w) addresses empty_discovery = Some (Inr d)"
    and final: "pw_state w' = finished_state C rw head (dc_batches d) retrying st"
    and st: "state_wf st" "cursors st = cursors (pw_state w)"
    and b: "b \<in> set (dc_batches d)"
  shows "cursor_of C w' (batch_address b) =
    Some (if batch_blocked b retrying then polled_cursor C rw w0 head (batch_address b)
          else next_cursor b)"
proof -
  have m: "map batch_address (dc_batches d) = addresses"
    by (rule prepared_batches(2) [OF prep disc wf])
  then have d: "distinct (map batch_address (dc_batches d))" and a: "batch_address b \<in> set addresses"
    using dist b by auto
  have oc: "om_wf (cursors st)" using st(1) by (simp add: state_wf_def)
  have cur: "cursor_of C w (batch_address b) = Some (polled_cursor C rw w0 head (batch_address b))"
    by (rule prepared_batches(4) [OF prep disc wf a])
  show ?thesis
    using advance_blocked_cursor [OF oc codec_key_inj [OF codec] d b, of retrying]
      advance_ready_cursor [OF oc codec_key_inj [OF codec] d b, of retrying] cur st(2)
    by (simp add: cursor_of_def final)
qed

text \<open>What became of a signature of a batch whose address advanced.\<close>

lemma advanced_signature:
  assumes cover: "contexts_cover C d"
    and keys: "fst ` set fs = set (signatures_to_fetch (dc_contexts d) st)"
    and proc: "processed (dc_contexts d) fs st p"
    and b: "b \<in> set (dc_batches d)" "\<not> batch_blocked b (pr_retrying p)"
    and x: "x \<in> set (batch_signatures b)"
  shows "has_recent_signature st (ds_signature x) \<or> is_quarantined (pr_state p) (ds_signature x)
    \<or> ds_signature x \<in> fst ` set (ready_updates (dc_contexts d) p)
    \<or> \<not> signature_is_ready (ds_signature x) (dc_contexts d)
        (blocked_addresses (dc_contexts d) (pr_retrying p))"
proof (cases "has_recent_signature st (ds_signature x)")
  case False
  have "indexes C (dc_contexts d) (key_str C (batch_address b)) x"
    using cover b(1) x by (auto simp: contexts_cover_def)
  then have "ds_signature x \<in> fst ` set (dc_contexts d)"
    by (auto simp: indexes_def dest!: map_of_SomeD intro: rev_image_eqI)
  then have "ds_signature x \<in> fst ` set fs"
    using False keys by (auto simp: signatures_to_fetch_def)
  then have "ds_signature x \<in> fst ` set (pr_successes p) \<or> ds_signature x \<in> set (pr_retrying p)
      \<or> is_quarantined (pr_state p) (ds_signature x)"
    using processedD(7) [OF proc] by blast
  moreover have "ds_signature x \<notin> set (pr_retrying p)"
    using b(2) x by (auto simp: batch_blocked_def list_ex_iff)
  ultimately show ?thesis
    by (auto simp: ready_updates_set intro: rev_image_eqI)
qed simp

text \<open>The parts of a successful poll that the properties speak of.\<close>

lemma poll_success:
  assumes "codec_ok C" "distinct addresses" "completion_ok env" "state_wf (pw_state w)"
    and "poll C L rw addresses env w = Some (w', Inr out)"
  obtains head d fs st p where
    "pe_head env = Inr head" "contexts_cover C d" "map batch_address (dc_batches d) = addresses"
    "\<And>b. b \<in> set (dc_batches d) \<Longrightarrow> poll_batch C rw env w head (batch_address b) b"
    "\<And>b. b \<in> set (dc_batches d) \<Longrightarrow> cursor_of C w' (batch_address b) =
      Some (if batch_blocked b (pr_retrying p) then polled_cursor C rw w head (batch_address b)
            else next_cursor b)"
    "\<And>t. has_recent_signature st t \<longleftrightarrow> known_signature w t"
    "fst ` set fs = set (signatures_to_fetch (dc_contexts d) st)"
    "processed (dc_contexts d) fs st p"
    "newly_sent w w' = sent_updates (ready_updates (dc_contexts d) p)"
    "\<And>s. is_quarantined (pw_state w') s = is_quarantined (pr_state p) s"
    "queued_transactions out = length (ready_updates (dc_contexts d) p)"
    "set fs \<subseteq> (\<lambda>s. (s, the (fst (fetch_transaction L (pe_transactions env s) s)))) ` UNIV"
    "p = process_all C L (dc_contexts d) fs st"
  using assms(5,4)
proof (cases rule: poll_cases)
  case (deliver w1 head initialized verified d)
  note prep = deliver(1) and disc = deliver(2)
  note batches = prepared_batches [OF prep disc assms(4)]
  have w1: "state_wf (pw_state w1)" "pw_sent w1 = pw_sent w"
      "\<And>t. has_recent_signature (pw_state w1) t \<longleftrightarrow> known_signature w t"
    using prepare_any [OF prep assms(4)] by auto
  obtain p fs k where
    keys: "fst ` set fs = set (signatures_to_fetch (dc_contexts d) (pw_state w1))"
    and proc: "processed (dc_contexts d) fs (pw_state w1) p"
    and sent: "pw_sent w' = pw_sent w1 @ sent_updates (take k (ready_updates (dc_contexts d) p))"
    and out: "k = length (ready_updates (dc_contexts d) p)" "queued_transactions out = k"
    and final: "pw_state w' = finished_state C rw head (dc_batches d) (pr_retrying p)
             (record_deliveries (sent_pairs (ready_updates (dc_contexts d) p)) (pr_state p))"
    and fs: "set fs \<subseteq> (\<lambda>s. (s, the (fst (fetch_transaction L (pe_transactions env s) s)))) ` UNIV"
    and p: "p = process_all C L (dc_contexts d) fs (pw_state w1)"
    by (rule deliver_all [OF deliver(3) batches(1) assms(3) w1(1)]) auto
  have at: "cursor_of C w' (batch_address b) =
      Some (if batch_blocked b (pr_retrying p) then polled_cursor C rw w head (batch_address b)
            else next_cursor b)" if "b \<in> set (dc_batches d)" for b
    using cursors_after_poll [OF assms(1,2,4) prep disc final _ _ that] processedD(1,2) [OF proc]
    by simp
  show thesis
    by (rule that [OF prepare_ok(1) [OF prep assms(4)] batches(1,2) batches(3) at w1(3) keys proc])
      (use sent out w1(2) final fs p in \<open>simp_all add: newly_sent_def\<close>)
qed simp

lemma ready_success:
  assumes "processed ctxs fs st p" "x \<in> set (ready_updates ctxs p)"
  shows "success_of fs x"
  using processedD(3) [OF assms(1)] assms(2) unfolding ready_updates_set by blast

lemma ready_signature:
  assumes "processed ctxs fs st p" "x \<in> set (ready_updates ctxs p)"
  shows "update_signature (snd (snd x)) = Some (fst x)" "update_slot (snd (snd x)) = fst (snd x)"
    and "fst x \<in> fst ` set fs"
  using ready_success [OF assms] success_fst [OF ready_success [OF assms]]
  by (simp_all add: success_of_def case_prod_unfold)

lemma ready_signatures:
  assumes "processed ctxs fs st p"
  shows "map update_signature (sent_updates (ready_updates ctxs p))
      = map Some (map fst (ready_updates ctxs p))"
    and "map update_slot (sent_updates (ready_updates ctxs p))
      = map (\<lambda>x. fst (snd x)) (ready_updates ctxs p)"
  using ready_signature [OF assms] by simp_all

text \<open>A signature found at a blocked address is not ready.\<close>

lemma blocked_not_ready:
  assumes cover: "contexts_cover C d" and b: "b \<in> set (dc_batches d)" "batch_blocked b retrying"
    and s: "s \<in> ds_signature ` set (batch_signatures b)"
  shows "\<not> signature_is_ready s (dc_contexts d) (blocked_addresses (dc_contexts d) retrying)"
proof -
  let ?k = "key_str C (batch_address b)"
  have idx: "indexes C (dc_contexts d) ?k x" if "x \<in> set (batch_signatures b)" for x
    using cover b(1) that by (auto simp: contexts_cover_def)
  obtain r where r: "r \<in> set (batch_signatures b)" "ds_signature r \<in> set retrying"
    using b(2) by (auto simp: batch_blocked_def list_ex_iff)
  have "?k \<in> set (context_addresses (dc_contexts d) (ds_signature r))"
    using idx [OF r(1)] by (auto simp: indexes_def context_addresses_def)
  then have "?k \<in> set (blocked_addresses (dc_contexts d) retrying)"
    using r(2) by (auto simp: blocked_addresses_def)
  moreover obtain c where "map_of (dc_contexts d) s = Some c" "?k \<in> set (ctx_addresses c)"
    using s idx by (auto simp: indexes_def)
  ultimately show ?thesis by (auto simp: signature_is_ready_def)
qed

text \<open>What becomes of the batch of an address in a successful poll.\<close>

lemma poll_batch_fate:
  assumes "codec_ok C" "distinct addresses" "completion_ok env" "state_wf (pw_state w)"
    and "poll C L rw addresses env w = Some (w', Inr out)" "a \<in> set addresses"
  shows "\<exists>head b. pe_head env = Inr head \<and> poll_batch C rw env w head a b
    \<and> (cursor_of C w' a = Some (polled_cursor C rw w head a)
       \<or> cursor_of C w' a = Some (next_cursor b)
         \<and> (\<forall>s \<in> ds_signature ` set (batch_signatures b).
              known_signature w s \<or> Some s \<in> update_signature ` set (newly_sent w w')
              \<or> is_quarantined (pw_state w') s
              \<or> (\<exists>a' \<in> set addresses. \<exists>b'. poll_batch C rw env w head a' b'
                   \<and> s \<in> ds_signature ` set (batch_signatures b')
                   \<and> cursor_of C w' a' = Some (polled_cursor C rw w head a'))))"
proof (rule poll_success [OF assms(1-5)])
  fix head d fs st p
  assume head: "pe_head env = Inr head" and cover: "contexts_cover C d"
    and addr: "map batch_address (dc_batches d) = addresses"
    and pb: "\<And>b. b \<in> set (dc_batches d) \<Longrightarrow> poll_batch C rw env w head (batch_address b) b"
    and at: "\<And>b. b \<in> set (dc_batches d) \<Longrightarrow> cursor_of C w' (batch_address b) =
      Some (if batch_blocked b (pr_retrying p) then polled_cursor C rw w head (batch_address b)
            else next_cursor b)"
    and known: "\<And>t. has_recent_signature st t \<longleftrightarrow> known_signature w t"
    and keys: "fst ` set fs = set (signatures_to_fetch (dc_contexts d) st)"
    and proc: "processed (dc_contexts d) fs st p"
    and sent: "newly_sent w w' = sent_updates (ready_updates (dc_contexts d) p)"
    and quar: "\<And>s. is_quarantined (pw_state w') s = is_quarantined (pr_state p) s"
  have dist: "distinct (map batch_address (dc_batches d))" using addr assms(2) by simp
  obtain b where b: "b \<in> set (dc_batches d)" "batch_address b = a"
    using addr assms(6) by auto
  have "known_signature w s \<or> Some s \<in> update_signature ` set (newly_sent w w')
      \<or> is_quarantined (pw_state w') s
      \<or> (\<exists>a' \<in> set addresses. \<exists>b'. poll_batch C rw env w head a' b'
           \<and> s \<in> ds_signature ` set (batch_signatures b')
           \<and> cursor_of C w' a' = Some (polled_cursor C rw w head a'))"
    if unblocked: "\<not> batch_blocked b (pr_retrying p)" and s: "s \<in> ds_signature ` set (batch_signatures b)" for s
  proof (cases "signature_is_ready s (dc_contexts d) (blocked_addresses (dc_contexts d) (pr_retrying p))")
    case True
    obtain x where x: "x \<in> set (batch_signatures b)" "s = ds_signature x" using s by auto
    have "s \<in> fst ` set (ready_updates (dc_contexts d) p) \<Longrightarrow>
        Some s \<in> update_signature ` set (newly_sent w w')"
      unfolding sent set_map [symmetric] ready_signatures(1) [OF proc] by auto
    then show ?thesis
      using advanced_signature [OF cover keys proc b(1) unblocked x(1)] x(2) known quar True by blast
  next
    case False
    obtain c where "map_of (dc_contexts d) s = Some c"
      using cover b(1) s by (fastforce simp: contexts_cover_def indexes_def)
    from not_ready_elsewhere [OF cover this False] obtain b' r where
      b': "b' \<in> set (dc_batches d)" "s \<in> ds_signature ` set (batch_signatures b')"
        "r \<in> set (pr_retrying p)" "key_str C (batch_address b') \<in> set (context_addresses (dc_contexts d) r)"
      by blast
    then have "cursor_of C w' (batch_address b') = Some (polled_cursor C rw w head (batch_address b'))"
      using at [OF b'(1)] blocked_by_context [OF cover codec_key_inj [OF assms(1)] dist] by simp
    moreover have "batch_address b' \<in> set addresses" using b'(1) addr by auto
    ultimately show ?thesis using pb [OF b'(1)] b'(2) by blast
  qed
  then show ?thesis
    using head pb [OF b(1)] at [OF b(1)] b(2)
    by (intro exI [of _ head] exI [of _ b]) (auto split: if_splits)
qed

text \<open>
  C3: A successful poll loses nothing: for every monitored address, either its cursor stays where it
  was, so that the next poll discovers the same signatures again, or it moves to the batch's next
  cursor and every signature of the batch was known before, was sent, is quarantined, or is in
  the batch of another address whose cursor stays.
\<close>

theorem poll_loses_nothing:
  assumes "codec_ok C" "distinct addresses" "completion_ok env" "state_wf (pw_state w)"
    and "poll C L rw addresses env w = Some (w', Inr out)" "a \<in> set addresses"
  shows "\<exists>head b. pe_head env = Inr head \<and> poll_batch C rw env w head a b
    \<and> (cursor_of C w' a = Some (polled_cursor C rw w head a)
       \<or> cursor_of C w' a = Some (next_cursor b)
         \<and> (\<forall>s \<in> ds_signature ` set (batch_signatures b).
              known_signature w s \<or> Some s \<in> update_signature ` set (newly_sent w w')
              \<or> is_quarantined (pw_state w') s
              \<or> (\<exists>a' \<in> set addresses. \<exists>b'. poll_batch C rw env w head a' b'
                   \<and> s \<in> ds_signature ` set (batch_signatures b')
                   \<and> cursor_of C w' a' = Some (polled_cursor C rw w head a'))))"
  by (rule poll_batch_fate [OF assms])

text \<open>
  C5: The updates a successful poll sends are of distinct signatures that were not known before, in
  slot order; and a transaction is sent only when every address it was found at advances.
\<close>

theorem poll_sends_once_in_order:
  assumes "codec_ok C" "distinct addresses" "completion_ok env" "state_wf (pw_state w)"
    and "poll C L rw addresses env w = Some (w', Inr out)"
  shows "distinct (map update_signature (newly_sent w w'))
    \<and> sorted (map update_slot (newly_sent w w'))
    \<and> queued_transactions out = length (newly_sent w w')
    \<and> (\<forall>u \<in> set (newly_sent w w'). \<exists>s. update_signature u = Some s \<and> \<not> known_signature w s
        \<and> (\<forall>a \<in> set addresses. \<forall>head b. pe_head env = Inr head \<longrightarrow> poll_batch C rw env w head a b \<longrightarrow>
              s \<in> ds_signature ` set (batch_signatures b) \<longrightarrow> cursor_of C w' a = Some (next_cursor b)))"
proof (rule poll_success [OF assms(1-5)])
  fix head d fs st p
  assume head: "pe_head env = Inr head" and cover: "contexts_cover C d"
    and addr: "map batch_address (dc_batches d) = addresses"
    and pb: "\<And>b. b \<in> set (dc_batches d) \<Longrightarrow> poll_batch C rw env w head (batch_address b) b"
    and at: "\<And>b. b \<in> set (dc_batches d) \<Longrightarrow> cursor_of C w' (batch_address b) =
      Some (if batch_blocked b (pr_retrying p) then polled_cursor C rw w head (batch_address b)
            else next_cursor b)"
    and known: "\<And>t. has_recent_signature st t \<longleftrightarrow> known_signature w t"
    and keys: "fst ` set fs = set (signatures_to_fetch (dc_contexts d) st)"
    and proc: "processed (dc_contexts d) fs st p"
    and sent: "newly_sent w w' = sent_updates (ready_updates (dc_contexts d) p)"
    and queued: "queued_transactions out = length (ready_updates (dc_contexts d) p)"
  let ?us = "ready_updates (dc_contexts d) p"
  have "distinct (map update_signature (newly_sent w w'))"
    unfolding sent ready_signatures(1) [OF proc]
    using ready_updates_distinct [OF processedD(4) [OF proc]]
    by (simp add: distinct_map [of Some] del: map_map)
  moreover have "sorted (map update_slot (newly_sent w w'))"
    unfolding sent ready_signatures(2) [OF proc] by (rule ready_updates_sorted)
  moreover have "\<exists>s. update_signature u = Some s \<and> \<not> known_signature w s
        \<and> (\<forall>a \<in> set addresses. \<forall>head b. pe_head env = Inr head \<longrightarrow> poll_batch C rw env w head a b \<longrightarrow>
              s \<in> ds_signature ` set (batch_signatures b) \<longrightarrow> cursor_of C w' a = Some (next_cursor b))"
    if u: "u \<in> set (newly_sent w w')" for u
  proof -
    obtain x where x: "x \<in> set ?us" "u = snd (snd x)" using u sent by auto
    have "fst x \<in> set (signatures_to_fetch (dc_contexts d) st)"
      using ready_signature(3) [OF proc x(1)] keys by simp
    then have "\<not> known_signature w (fst x)"
      using known by (simp add: signatures_to_fetch_def)
    moreover have "cursor_of C w' a = Some (next_cursor b)"
      if a: "a \<in> set addresses" and b: "poll_batch C rw env w head a b"
        and s: "fst x \<in> ds_signature ` set (batch_signatures b)" for a b
    proof -
      obtain b' where b': "b' \<in> set (dc_batches d)" "batch_address b' = a"
        using addr a by auto
      then have "b' = b"
        using pb [OF b'(1)] b by (simp add: poll_batch_def)
      then show ?thesis
        using at [OF b'(1)] b' s x(1) blocked_not_ready [OF cover b'(1)]
        by (auto simp: ready_updates_set)
    qed
    ultimately show ?thesis
      using head ready_signature(1) [OF proc x(1)] x(2) by auto
  qed
  ultimately show ?thesis
    using queued sent by simp
qed

end
