(* ===== verification/Poll_Runs.thy ===== *)
theory Poll_Runs
  imports Poll_Safety
begin

text \<open>
  Runs of polls: the deliveries of Yellowstone and the polls of one process alternate and overlap,
  polls fail and succeed, cursors advance, stay and regress within the skew of the endpoint's
  replicas. The invariant \<open>remembers\<close> says that everything already emitted is either still recorded
  or lies at or below a floor no discovery reaches; \<open>suppresses\<close> and \<open>suppresses_lagging\<close> add what
  keeps the floor there, for heads that do not go backwards and for heads that lag.
\<close>

section \<open>One slot per signature\<close>

text \<open>
  The endpoint and the stream name one slot for a transaction: the documented behaviour of the
  confirmed commitment the suppression relies on.
\<close>

definition env_slots :: "codec \<Rightarrow> (signature \<Rightarrow> slot) \<Rightarrow> poll_env \<Rightarrow> bool" where
  "env_slots C slot_of env \<longleftrightarrow>
     (\<forall>a floor. pages_satisfy C (pe_pages env a) floor (\<lambda>d. ds_slot d = slot_of (ds_signature d)))
     \<and> (\<forall>s k tx. pe_transactions env s k = Inr tx \<longrightarrow> et_slot tx = slot_of s)"

definition slots_agree :: "(signature \<Rightarrow> slot) \<Rightarrow> polling_state \<Rightarrow> bool" where
  "slots_agree slot_of st \<longleftrightarrow>
     (\<forall>t sl. om_get (recent_signatures st) t = Some sl \<longrightarrow> sl = slot_of t)"

definition channel_agrees :: "(signature \<Rightarrow> slot) \<Rightarrow> poll_world \<Rightarrow> bool" where
  "channel_agrees slot_of w \<longleftrightarrow>
     (\<forall>dv. pw_delivered w = Some dv \<longrightarrow> (\<forall>x \<in> set (dv_channel dv). snd x = slot_of (fst x)))"

lemma record_deliveries_get:
  "state_wf st \<Longrightarrow> om_get (recent_signatures (record_deliveries ds st)) t = Some sl \<Longrightarrow>
    om_get (recent_signatures st) t = Some sl \<or> (t, sl) \<in> set ds"
proof (induction ds arbitrary: st)
  case (Cons d ds)
  then have "om_get (recent_signatures (record_recent_signature (fst d) (snd d) st)) t = Some sl
      \<or> (t, sl) \<in> set ds"
    by (simp add: record_deliveries_def)
  then show ?case
    using Cons.prems(1) by (cases d) (auto simp: recent_record_get split: if_splits)
qed (simp add: record_deliveries_def)

lemma record_deliveries_agree:
  "state_wf st \<Longrightarrow> slots_agree slot_of st \<Longrightarrow> (\<forall>x \<in> set ds. snd x = slot_of (fst x)) \<Longrightarrow>
    slots_agree slot_of (record_deliveries ds st)"
  unfolding slots_agree_def using record_deliveries_get by fastforce

lemma absorb_agree:
  "state_wf (pw_state w) \<Longrightarrow> slots_agree slot_of (pw_state w) \<Longrightarrow> channel_agrees slot_of w \<Longrightarrow>
    slots_agree slot_of (pw_state (absorb_delivered_signatures w))"
  by (simp add: absorb_delivered_signatures_def with_state_def emit_def Let_def channel_agrees_def
      record_deliveries_agree split: option.splits)

lemma prepare_recent:
  assumes "poll_prepare C rw addresses env w0 = (w, r)"
  shows "recent_signatures (pw_state w) = recent_signatures (pw_state (absorb_delivered_signatures w0))"
  using assms
  by (auto simp: poll_prepare_def Let_def case_prod_unfold split: sum.splits option.splits)

lemma prepare_delivered:
  assumes "poll_prepare C rw addresses env w0 = (w, r)"
  shows "pw_delivered w = pw_delivered (absorb_delivered_signatures w0)"
  using assms by (auto simp: poll_prepare_def Let_def split: sum.splits option.splits prod.splits)

lemma prepare_cursors:
  assumes "poll_prepare C rw addresses env w0 = (w, r)" "state_wf (pw_state w0)"
  shows "\<exists>inst. \<forall>k. om_get (cursors (pw_state w)) k =
    (case om_get (cursors (pw_state w0)) k of
       Some c \<Rightarrow> Some c | None \<Rightarrow> if k \<in> key_str C ` set addresses then inst else None)"
proof -
  have oc: "om_wf (cursors (pw_state (absorb_delivered_signatures w0)))"
    using absorb_frame(4) [OF assms(2)] by (simp add: state_wf_def)
  consider "cursors (pw_state w) = cursors (pw_state w0)"
    | head where "cursors (pw_state w) =
        cursors (snd (install_cursors C head rw addresses (pw_state (absorb_delivered_signatures w0))))"
    using assms(1) check_boundary_frame(1)
    by (auto simp: poll_prepare_def Let_def case_prod_unfold split: sum.splits option.splits)
  then show ?thesis
  proof cases
    case 1
    then show ?thesis by (intro exI [of _ None]) (simp split: option.splits)
  next
    case 2
    then show ?thesis
      by (intro exI [of _ "Some \<lparr>scanned_slot = sat_sub head rw\<rparr>"]) (simp add: install_get [OF oc])
  qed
qed

lemma absorb_delivered:
  "pw_delivered (absorb_delivered_signatures w) = map_option (\<lambda>dv. dv\<lparr>dv_channel := []\<rparr>) (pw_delivered w)"
  by (simp add: absorb_delivered_signatures_def with_state_def emit_def Let_def split: option.splits)

section \<open>One poll\<close>

lemma deliver_delivered:
  assumes "poll_deliver C L rw env head initialized verified d w = (w', r)"
  shows "pw_delivered w' = pw_delivered w"
proof -
  have "pw_delivered (fst (send_updates acc n us w)) = pw_delivered w" for acc n us w
    using send_updates_prefix [of acc n us w] by auto
  then show ?thesis
    using assms
    by (auto simp: poll_deliver_def poll_finish_def emit_def Let_def case_prod_unfold split: sum.splits)
qed

lemma advance_values:
  "om_wf (cursors st) \<Longrightarrow> om_get (cursors (snd (advance_ready_cursors ks bs retrying st))) k = Some c \<Longrightarrow>
    om_get (cursors st) k = Some c \<or> (\<exists>b \<in> set bs. c = next_cursor b)"
proof (induction ks bs retrying st rule: advance_ready_cursors.induct)
  case (2 ks b bs retrying st)
  then show ?case
    by (cases "batch_blocked b retrying")
      (auto simp: Let_def om_wf_om_insert om_get_om_insert split: if_splits)
qed simp

lemma advance_keeps_keys:
  "om_wf (cursors st) \<Longrightarrow> om_get (cursors st) k \<noteq> None \<Longrightarrow>
    om_get (cursors (snd (advance_ready_cursors ks bs retrying st))) k \<noteq> None"
proof (induction ks bs retrying st rule: advance_ready_cursors.induct)
  case (2 ks b bs retrying st)
  then show ?case
    by (cases "batch_blocked b retrying") (auto simp: Let_def om_wf_om_insert om_get_om_insert)
qed simp

lemma minimum_scanned_le:
  "state_wf st \<Longrightarrow> minimum_scanned_slot st = Some m \<Longrightarrow> om_get (cursors st) k = Some c \<Longrightarrow>
    m \<le> scanned_slot c"
  unfolding minimum_scanned_slot_def
  by (erule minimum_opt_le)
    (auto simp: state_wf_def om_get_Some om_values_def intro: rev_image_eqI)

lemma minimum_scanned_Some:
  "state_wf st \<Longrightarrow> om_get (cursors st) k = Some c \<Longrightarrow> \<exists>m. minimum_scanned_slot st = Some m"
  by (cases "minimum_scanned_slot st")
    (auto simp: minimum_scanned_slot_def om_values_def om_get_def)

lemma finished_recent:
  assumes "state_wf st"
  shows "om_get (recent_signatures (finished_state C rw head bs retrying st)) t = Some sl \<longleftrightarrow>
    om_get (recent_signatures st) t = Some sl
    \<and> unreachable_below (case minimum_scanned_slot (snd (advance_ready_cursors (key_str C) bs retrying st)) of
        Some m \<Rightarrow> m | None \<Rightarrow> head) rw < sl"
  using assms by (simp add: finished_state_def Let_def recent_retain)

lemma context_slot_discovered:
  assumes "contexts_cover C d" "s \<in> fst ` set (dc_contexts d)"
  obtains b where "b \<in> set (dc_batches d)"
    "\<lparr>ds_signature = s, ds_slot = context_slot (dc_contexts d) s\<rparr> \<in> set (batch_signatures b)"
proof -
  obtain c where c: "map_of (dc_contexts d) s = Some c"
    using assms(2) by (metis map_of_eq_None_iff not_Some_eq)
  then show thesis
    using assms(1) that by (fastforce simp: contexts_cover_def grounded_def context_slot_def)
qed

lemma batch_slots:
  "env_slots C slot_of env \<Longrightarrow> poll_batch C rw env w head a b \<Longrightarrow> x \<in> set (batch_signatures b) \<Longrightarrow>
    ds_slot x = slot_of (ds_signature x)"
  unfolding env_slots_def poll_batch_def
  using discover_all_signatures [where P = "\<lambda>d. ds_slot d = slot_of (ds_signature d)"] by blast

lemma fetch_slots:
  assumes "env_slots C slot_of env"
    and "set fs \<subseteq> (\<lambda>s. (s, the (fst (fetch_transaction L (pe_transactions env s) s)))) ` UNIV"
    and "(s, Inr (s', tx)) \<in> set fs"
  shows "et_slot tx = slot_of s"
proof -
  have eq: "the (fst (fetch_transaction L (pe_transactions env s) s)) = Inr (s', tx)"
    using assms(2,3) by auto
  obtain f k where fk: "fst (fetch_transaction L (pe_transactions env s) s) = Some f"
    "case f of Inr (s', tx) \<Rightarrow> s' = s \<and> pe_transactions env s k = Inr tx | Inl err \<Rightarrow> True"
    using fetch_attempts_outcome [of 1 L "pe_transactions env s" s]
    by (force simp: fetch_transaction_def transaction_fetch_attempts_def split: sum.splits)
  then have "pe_transactions env s k = Inr tx"
    using eq by simp
  then show ?thesis using assms(1) by (auto simp: env_slots_def)
qed

text \<open>
  The state after the sends of a poll, before anything is pruned: everything known and everything
  sent is recorded, at its slot.
\<close>

lemma sent_state:
  assumes proc: "processed ctxs fs st p" and wf: "state_wf st" and agree: "slots_agree slot_of st"
    and ctx: "\<forall>s \<in> fst ` set fs. context_slot ctxs s = slot_of s"
    and tx: "\<forall>s s' tx. (s, Inr (s', tx)) \<in> set fs \<longrightarrow> et_slot tx = slot_of s"
    and sub: "set us \<subseteq> set (ready_updates ctxs p)"
  defines "S \<equiv> record_deliveries (sent_pairs us) (pr_state p)"
  shows "state_wf S" "slots_agree slot_of S" "cursors S = cursors st"
    and "has_recent_signature st t \<Longrightarrow> has_recent_signature S t"
    and "x \<in> set us \<Longrightarrow> has_recent_signature S (fst x)"
proof -
  note P = processedD [OF proc]
  show "state_wf S" "cursors S = cursors st"
    using P(1,2) by (simp_all add: S_def)
  show "has_recent_signature S t" if "has_recent_signature st t"
    using P(8) that by (simp add: S_def record_deliveries_recent [OF P(1)])
  show "has_recent_signature S (fst x)" if "x \<in> set us"
    using that by (auto simp: S_def record_deliveries_recent [OF P(1)] image_iff)
  have "slots_agree slot_of (pr_state p)"
    using P(9) agree ctx unfolding slots_agree_def by blast
  moreover have "snd x = slot_of (fst x)" if "x \<in> set (sent_pairs us)" for x
  proof -
    obtain y where y: "y \<in> set us" "x = (fst y, fst (snd y))" using \<open>x \<in> _\<close> by auto
    then have "success_of fs y" using ready_success [OF proc] sub by blast
    then show ?thesis using y(2) tx by (auto simp: success_of_def)
  qed
  ultimately show "slots_agree slot_of S"
    unfolding S_def by (intro record_deliveries_agree [OF P(1)]) auto
qed

definition poll_sends_fresh ::
  "codec \<Rightarrow> slot \<Rightarrow> pubkey list \<Rightarrow> poll_env \<Rightarrow> poll_world \<Rightarrow> update list \<Rightarrow> polling_state \<Rightarrow> bool" where
  "poll_sends_fresh C rw addresses env w us S \<longleftrightarrow>
     distinct (map update_signature us)
     \<and> (\<forall>u \<in> set us. \<exists>s. update_signature u = Some s \<and> \<not> known_signature w s \<and> has_recent_signature S s
          \<and> (\<exists>head a b. pe_head env = Inr head \<and> a \<in> set addresses \<and> poll_batch C rw env w head a b
               \<and> s \<in> ds_signature ` set (batch_signatures b)))"

lemma poll_any_deliver:
  assumes prep: "poll_prepare C rw addresses env w = (w1, Inr (head, initialized, verified))"
    and disc: "discover_all C rw env head (pw_state w1) addresses empty_discovery = Some (Inr d)"
    and del: "poll_deliver C L rw env head initialized verified d w1 = (w', r)"
    and wf: "state_wf (pw_state w)" and compl: "completion_ok env"
    and slots: "env_slots C slot_of env" "slots_agree slot_of (pw_state w)" "channel_agrees slot_of w"
  obtains S retrying where "state_wf S" "slots_agree slot_of S" "cursors S = cursors (pw_state w1)"
    "\<And>t. known_signature w t \<Longrightarrow> has_recent_signature S t"
    "pw_sent w' = pw_sent w @ newly_sent w w'"
    "poll_sends_fresh C rw addresses env w (newly_sent w w') S"
    "case r of Inl e \<Rightarrow> pw_state w' = S
       | Inr out \<Rightarrow> pw_state w' = finished_state C rw head (dc_batches d) retrying S"
proof -
  note batches = prepared_batches [OF prep disc wf]
  have w1: "state_wf (pw_state w1)" "pw_sent w1 = pw_sent w"
      "\<And>t. has_recent_signature (pw_state w1) t \<longleftrightarrow> known_signature w t"
    using prepare_any [OF prep wf] by auto
  have agree1: "slots_agree slot_of (pw_state w1)"
    using absorb_agree [OF wf slots(2,3)] prepare_recent [OF prep] by (simp add: slots_agree_def)
  obtain p fs k where
    keys: "fst ` set fs = set (signatures_to_fetch (dc_contexts d) (pw_state w1))"
    and proc: "processed (dc_contexts d) fs (pw_state w1) p"
    and sent: "pw_sent w' = pw_sent w1 @ sent_updates (take k (ready_updates (dc_contexts d) p))"
    and final: "case r of
       Inl e \<Rightarrow> pw_state w' =
         record_deliveries (sent_pairs (take k (ready_updates (dc_contexts d) p))) (pr_state p)
     | Inr out \<Rightarrow> k = length (ready_updates (dc_contexts d) p) \<and> queued_transactions out = k
         \<and> pw_state w' = finished_state C rw head (dc_batches d) (pr_retrying p)
             (record_deliveries (sent_pairs (ready_updates (dc_contexts d) p)) (pr_state p))"
    and fs: "set fs \<subseteq> (\<lambda>s. (s, the (fst (fetch_transaction L (pe_transactions env s) s)))) ` UNIV"
    by (rule deliver_any [OF del batches(1) compl w1(1)])
  let ?us = "take k (ready_updates (dc_contexts d) p)"
  have found: "\<exists>b \<in> set (dc_batches d).
      \<lparr>ds_signature = s, ds_slot = context_slot (dc_contexts d) s\<rparr> \<in> set (batch_signatures b)"
    if "s \<in> fst ` set fs" for s
    using that keys context_slot_discovered [OF batches(1), of s]
    by (auto simp: signatures_to_fetch_def)
  have ctx: "\<forall>s \<in> fst ` set fs. context_slot (dc_contexts d) s = slot_of s"
    using found batch_slots [OF slots(1) batches(3)] by fastforce
  have tx: "\<forall>s s' tx. (s, Inr (s', tx)) \<in> set fs \<longrightarrow> et_slot tx = slot_of s"
    using fetch_slots [OF slots(1) fs] by blast
  have sub: "set ?us \<subseteq> set (ready_updates (dc_contexts d) p)" by (rule set_take_subset)
  note S = sent_state [OF proc w1(1) agree1 ctx tx sub]
  have new: "newly_sent w w' = sent_updates ?us" "pw_sent w' = pw_sent w @ newly_sent w w'"
    using sent w1(2) by (simp_all add: newly_sent_def)
  have "map update_signature (newly_sent w w') = take k (map Some (map fst (ready_updates (dc_contexts d) p)))"
    by (simp only: new(1) take_map [symmetric] ready_signatures(1) [OF proc])
  then have dist: "distinct (map update_signature (newly_sent w w'))"
    using ready_updates_distinct [OF processedD(4) [OF proc]]
    by (simp add: distinct_map [of Some] distinct_take del: map_map)
  have fresh: "\<exists>s. update_signature u = Some s \<and> \<not> known_signature w s
      \<and> has_recent_signature (record_deliveries (sent_pairs ?us) (pr_state p)) s
      \<and> (\<exists>head a b. pe_head env = Inr head \<and> a \<in> set addresses \<and> poll_batch C rw env w head a b
           \<and> s \<in> ds_signature ` set (batch_signatures b))" if u: "u \<in> set (newly_sent w w')" for u
  proof -
    obtain x where x: "x \<in> set ?us" "u = snd (snd x)"
      using u unfolding new(1) set_map by blast
    then have xr: "x \<in> set (ready_updates (dc_contexts d) p)" using sub by blast
    have key: "fst x \<in> fst ` set fs" by (rule ready_signature(3) [OF proc xr])
    then have "\<not> known_signature w (fst x)"
      using keys w1(3) by (simp add: signatures_to_fetch_def)
    moreover obtain b where "b \<in> set (dc_batches d)" "fst x \<in> ds_signature ` set (batch_signatures b)"
      using found [OF key] by force
    moreover have "batch_address b \<in> set addresses" if "b \<in> set (dc_batches d)" for b
      using batches(2) that by auto
    ultimately show ?thesis
      using ready_signature(1) [OF proc xr] S(5) [OF x(1)] x(2) batches(3) prepare_ok(1) [OF prep wf]
      by blast
  qed
  show thesis
    by (rule that [OF S(1-4) _ _ _, of "pr_retrying p"])
      (use w1(3) new(2) dist fresh final in \<open>auto simp: poll_sends_fresh_def split: sum.splits\<close>)
qed

section \<open>The invariant of a run\<close>

definition cursors_from :: "nat \<Rightarrow> polling_state \<Rightarrow> bool" where
  "cursors_from n st \<longleftrightarrow> (\<forall>k c. om_get (cursors st) k = Some c \<longrightarrow> n \<le> unat (scanned_slot c))"

text \<open>
  The floor \<open>F\<close> bounds the slots of forgotten signatures: 0, or every monitored address has a
  cursor at least one replay window above it.
\<close>

definition remembers ::
  "codec \<Rightarrow> slot \<Rightarrow> pubkey list \<Rightarrow> (signature \<Rightarrow> slot) \<Rightarrow> signature set \<Rightarrow> nat \<Rightarrow> poll_world \<Rightarrow> bool"
where
  "remembers C rw addresses slot_of emitted F w \<longleftrightarrow>
     state_wf (pw_state w) \<and> slots_agree slot_of (pw_state w) \<and> channel_agrees slot_of w
     \<and> (\<forall>s \<in> emitted. known_signature w s \<or> unat (slot_of s) \<le> F)
     \<and> (F = 0 \<or> cursors_from (F + unat rw) (pw_state w) \<and> (\<forall>a \<in> set addresses. cursor_of C w a \<noteq> None))"

text \<open>
  With heads that do not go backwards: either all cursors are two windows above the floor or the
  last head is one window above it.
\<close>

definition suppresses ::
  "codec \<Rightarrow> slot \<Rightarrow> pubkey list \<Rightarrow> (signature \<Rightarrow> slot) \<Rightarrow> signature set \<Rightarrow> slot \<Rightarrow> nat \<Rightarrow> poll_world \<Rightarrow> bool"
where
  "suppresses C rw addresses slot_of emitted h F w \<longleftrightarrow>
     remembers C rw addresses slot_of emitted F w
     \<and> (F = 0 \<or> cursors_from (F + 2 * unat rw) (pw_state w) \<or> F + unat rw \<le> unat h)"

definition head_after :: "poll_env \<Rightarrow> slot \<Rightarrow> slot" where
  "head_after env h = (case pe_head env of Inr head \<Rightarrow> head | Inl _ \<Rightarrow> h)"

definition sent_signatures :: "update list \<Rightarrow> signature set" where
  "sent_signatures us = {s. Some s \<in> update_signature ` set us}"

text \<open>The lowest head a poll may go on with, so that no cursor regresses below one window above the floor.\<close>

definition head_allowed :: "slot \<Rightarrow> nat \<Rightarrow> poll_env \<Rightarrow> poll_world \<Rightarrow> bool" where
  "head_allowed rw F env w \<longleftrightarrow>
     (\<forall>head. pe_head env = Inr head \<longrightarrow> cursor_ahead_of_head (cursors (pw_state w)) head rw = None \<longrightarrow>
        F = 0 \<or> F + unat rw \<le> unat head)"

lemma fresh_not_emitted:
  assumes inv: "remembers C rw addresses slot_of emitted F w"
    and slots: "env_slots C slot_of env"
    and fresh: "poll_sends_fresh C rw addresses env w us S"
    and u: "u \<in> set us" "update_signature u = Some s"
  shows "s \<notin> emitted"
proof
  assume "s \<in> emitted"
  obtain head a b where new: "\<not> known_signature w s" "a \<in> set addresses"
      "poll_batch C rw env w head a b" "s \<in> ds_signature ` set (batch_signatures b)"
    using fresh u unfolding poll_sends_fresh_def by fastforce
  then have low: "unat (slot_of s) \<le> F"
    using inv \<open>s \<in> emitted\<close> by (auto simp: remembers_def)
  obtain x where x: "x \<in> set (batch_signatures b)" "s = ds_signature x" using new(4) by auto
  have "replay_floor (polled_cursor C rw w head a) rw < slot_of s"
    using discover_above [OF new(3) [unfolded poll_batch_def] x(1)] batch_slots [OF slots new(3) x(1)] x(2)
    by simp
  then have high: "unat (scanned_slot (polled_cursor C rw w head a)) - unat rw < unat (slot_of s)"
    by (simp add: replay_floor_def slot_less)
  have "F \<noteq> 0" using low high by simp
  then have "F + unat rw \<le> unat (scanned_slot (polled_cursor C rw w head a))"
    using inv new(2) by (auto simp: remembers_def cursors_from_def polled_cursor_def cursor_of_def)
  then show False using low high by simp
qed

lemma ahead_None:
  assumes "cursor_ahead_of_head cs head rw = None" "om_wf cs" "om_get cs k = Some c"
  shows "unat (scanned_slot c) \<le> unat head + unat rw"
proof -
  have "scanned_slot c \<le> sat_add head rw"
    using assms om_get_Some [OF assms(2)]
    by (auto simp: cursor_ahead_of_head_def find_None_iff not_less)
  then show ?thesis by (simp add: slot_le sat_add_u64)
qed

lemma head_above_floor:
  assumes inv: "suppresses C rw addresses slot_of emitted h F w" and ne: "addresses \<noteq> []"
    and h: "h \<le> head_after env h"
  shows "head_allowed rw F env w"
  unfolding head_allowed_def
proof (intro allI impI)
  fix head
  assume head: "pe_head env = Inr head" and ahead: "cursor_ahead_of_head (cursors (pw_state w)) head rw = None"
  have R: "remembers C rw addresses slot_of emitted F w" using inv by (simp add: suppresses_def)
  consider "F = 0" | "F \<noteq> 0" "cursors_from (F + 2 * unat rw) (pw_state w)" | "F + unat rw \<le> unat h"
    using inv by (auto simp: suppresses_def)
  then show "F = 0 \<or> F + unat rw \<le> unat head"
  proof cases
    case 2
    have "cursor_of C w (hd addresses) \<noteq> None"
      using R 2(1) hd_in_set [OF ne] unfolding remembers_def by blast
    then obtain c where c: "om_get (cursors (pw_state w)) (key_str C (hd addresses)) = Some c"
      by (auto simp: cursor_of_def)
    have "unat (scanned_slot c) \<le> unat head + unat rw"
      by (rule ahead_None [OF ahead _ c]) (use R in \<open>simp add: remembers_def state_wf_def\<close>)
    moreover have "F + 2 * unat rw \<le> unat (scanned_slot c)"
      using 2(2) c unfolding cursors_from_def by blast
    ultimately show ?thesis by simp
  next
    case 3
    then show ?thesis using h head by (simp add: slot_le head_after_def)
  qed simp
qed

lemma known_after_poll:
  assumes "pw_delivered w' = map_option (\<lambda>dv. dv\<lparr>dv_channel := []\<rparr>) d0"
  shows "known_signature w' s \<longleftrightarrow> has_recent_signature (pw_state w') s"
    and "channel_agrees slot_of w'"
  using assms by (auto simp: known_signature_def channel_agrees_def)

text \<open>A poll that ends without pruning: the floor stays.\<close>

lemma remembers_unpruned:
  assumes inv: "remembers C rw addresses slot_of emitted F w"
    and S: "state_wf (pw_state w')" "slots_agree slot_of (pw_state w')"
    and known: "\<And>t. known_signature w t \<Longrightarrow> has_recent_signature (pw_state w') t"
    and new: "\<And>t. t \<in> new \<Longrightarrow> has_recent_signature (pw_state w') t"
    and dv: "pw_delivered w' = map_option (\<lambda>dv. dv\<lparr>dv_channel := []\<rparr>) (pw_delivered w)"
    and cur: "\<And>k. om_get (cursors (pw_state w')) k =
       (case om_get (cursors (pw_state w)) k of
          Some c \<Rightarrow> Some c | None \<Rightarrow> if k \<in> key_str C ` set addresses then inst else None)"
  shows "remembers C rw addresses slot_of (emitted \<union> new) F w'
    \<and> (F \<noteq> 0 \<longrightarrow> (\<forall>n. cursors_from n (pw_state w') = cursors_from n (pw_state w)))"
proof -
  have kept: "om_get (cursors (pw_state w')) k = om_get (cursors (pw_state w)) k" if "F \<noteq> 0" for k
    using cur [of k] that inv by (auto simp: remembers_def cursor_of_def split: option.splits)
  have "\<forall>s \<in> emitted \<union> new. known_signature w' s \<or> unat (slot_of s) \<le> F"
    using inv known new known_after_poll(1) [OF dv] unfolding remembers_def by blast
  moreover have same: "F \<noteq> 0 \<Longrightarrow> cursors_from n (pw_state w') = cursors_from n (pw_state w)" for n
    by (simp add: cursors_from_def kept)
  moreover have "F \<noteq> 0 \<Longrightarrow> cursor_of C w' a = cursor_of C w a" for a
    by (simp add: cursor_of_def kept)
  ultimately show ?thesis
    using inv S known_after_poll(2) [OF dv] unfolding remembers_def by metis
qed

text \<open>
  A poll that ends by advancing and pruning: the floor may rise to two windows below the lowest
  cursor.
\<close>

lemma remembers_pruned:
  assumes inv: "remembers C rw addresses slot_of emitted F w"
    and S: "state_wf S" "slots_agree slot_of S"
    and known: "\<And>t. known_signature w t \<Longrightarrow> has_recent_signature S t"
    and new: "\<And>t. t \<in> new \<Longrightarrow> has_recent_signature S t"
    and dv: "pw_delivered w' = map_option (\<lambda>dv. dv\<lparr>dv_channel := []\<rparr>) (pw_delivered w)"
    and cur: "\<And>k. om_get (cursors S) k =
       (case om_get (cursors (pw_state w)) k of
          Some c \<Rightarrow> Some c | None \<Rightarrow> if k \<in> key_str C ` set addresses then Some inst else None)"
    and fin: "pw_state w' = finished_state C rw head bs retrying S"
    and bs: "\<And>b. b \<in> set bs \<Longrightarrow> head \<le> scanned_slot (next_cursor b)"
    and head: "F = 0 \<or> F + unat rw \<le> unat head" and ne: "addresses \<noteq> []"
    and window: "2 * unat rw < 2 ^ 64"
  shows "\<exists>F'. remembers C rw addresses slot_of (emitted \<union> new) F' w'
    \<and> (F' = F \<or> cursors_from (F' + 2 * unat rw) (pw_state w'))"
proof -
  let ?adv = "snd (advance_ready_cursors (key_str C) bs retrying S)"
  have adv: "state_wf ?adv" using S(1) by simp
  have oc: "om_wf (cursors S)" using S(1) by (simp add: state_wf_def)
  have key: "om_get (cursors ?adv) (key_str C a) \<noteq> None" if "a \<in> set addresses" for a
    using advance_keeps_keys [OF oc, of "key_str C a"] cur [of "key_str C a"] that
    by (simp split: option.splits)
  obtain m where m: "minimum_scanned_slot ?adv = Some m"
    using minimum_scanned_Some [OF adv] key [OF hd_in_set [OF ne]] by blast
  have low: "cursors_from (unat m) ?adv"
    using minimum_scanned_le [OF adv m] by (simp add: cursors_from_def slot_le)
  have low_all: "cursors_from n ?adv" if "n \<le> unat m" for n
    using low that order_trans unfolding cursors_from_def by blast
  define floor where "floor = unat m - 2 * unat rw"
  have floor: "unat (unreachable_below m rw) = floor"
    using window by (simp add: unreachable_below_def floor_def unat_word_ariths)
  have recent: "om_get (recent_signatures (pw_state w')) t = Some sl \<longleftrightarrow>
      om_get (recent_signatures S) t = Some sl \<and> floor < unat sl" for t sl
    using finished_recent [OF S(1), of C rw head bs retrying t sl] m floor
    by (simp add: fin slot_less)
  have cursors': "cursors (pw_state w') = cursors ?adv" by (simp add: fin)
  have from': "cursors_from n (pw_state w') = cursors_from n ?adv" for n
    by (simp add: cursors_from_def cursors')
  have all: "cursor_of C w' a \<noteq> None" if "a \<in> set addresses" for a
    using key [OF that] by (simp add: cursor_of_def cursors')
  have agree: "slots_agree slot_of (pw_state w')"
    using S(2) recent by (auto simp: slots_agree_def)
  have remembered: "known_signature w' t \<or> unat (slot_of t) \<le> floor" if "has_recent_signature S t" for t
  proof -
    have "om_get (recent_signatures S) t = Some (slot_of t)"
      using that S(2) by (auto simp: has_recent_get slots_agree_def)
    then have "floor < unat (slot_of t) \<Longrightarrow> has_recent_signature (pw_state w') t"
      by (simp add: has_recent_get recent)
    then show ?thesis
      unfolding known_after_poll(1) [OF dv] by (auto simp: not_less)
  qed
  have covered: "\<forall>s \<in> emitted \<union> new. known_signature w' s \<or> unat (slot_of s) \<le> G"
    if G: "F \<le> G" "floor \<le> G" for G
  proof
    fix s
    assume "s \<in> emitted \<union> new"
    then consider "unat (slot_of s) \<le> F" | "has_recent_signature S s"
      using inv known new unfolding remembers_def by blast
    then show "known_signature w' s \<or> unat (slot_of s) \<le> G"
      using remembered [of s] G by cases auto
  qed
  have wf': "state_wf (pw_state w')" using S(1) by (simp add: fin finished_wf)
  show ?thesis
  proof (cases "F \<le> floor")
    case True
    have low': "floor = 0 \<or> cursors_from (floor + 2 * unat rw) ?adv \<and> cursors_from (floor + unat rw) ?adv"
      using low_all [of "floor + 2 * unat rw"] low_all [of "floor + unat rw"]
      by (auto simp: floor_def)
    then have "remembers C rw addresses slot_of (emitted \<union> new) floor w'"
      using covered [OF True order_refl] wf' agree known_after_poll(2) [OF dv] all
      unfolding remembers_def from' by blast
    then show ?thesis using low' True unfolding from' by auto
  next
    case False
    then have F: "F \<noteq> 0" by simp
    have "F + unat rw \<le> unat (scanned_slot c)" if c: "om_get (cursors ?adv) k = Some c" for k c
    proof -
      consider "om_get (cursors S) k = Some c" | b where "b \<in> set bs" "c = next_cursor b"
        using advance_values [OF oc c] by blast
      then show ?thesis
      proof cases
        case 1
        then have "om_get (cursors (pw_state w)) k = Some c"
          using cur [of k] inv F by (auto simp: remembers_def cursor_of_def split: option.splits if_splits)
        then show ?thesis using inv F by (auto simp: remembers_def cursors_from_def)
      next
        case 2
        then show ?thesis using bs [OF 2(1)] head F by (simp add: slot_le)
      qed
    qed
    then have "remembers C rw addresses slot_of (emitted \<union> new) F w'"
      using covered [of F] False wf' agree known_after_poll(2) [OF dv] all
      unfolding remembers_def from' by (simp add: cursors_from_def)
    then show ?thesis by blast
  qed
qed

section \<open>The floor over a poll\<close>

text \<open>
  What a poll does to the floor: it raises it to two windows below the lowest cursor, or keeps it,
  with the cursors kept too or none advanced below a head one window above it.
\<close>

definition floor_step :: "slot \<Rightarrow> nat \<Rightarrow> nat \<Rightarrow> poll_env \<Rightarrow> poll_world \<Rightarrow> poll_world \<Rightarrow> bool" where
  "floor_step rw F F' env w w' \<longleftrightarrow> F' = 0 \<or> cursors_from (F' + 2 * unat rw) (pw_state w')
     \<or> F' = F \<and> ((\<forall>n. cursors_from n (pw_state w') = cursors_from n (pw_state w))
                 \<or> (\<exists>head. pe_head env = Inr head \<and> F + unat rw \<le> unat head))"

lemma remembers_poll:
  assumes inv: "remembers C rw addresses slot_of emitted F w"
    and ne: "addresses \<noteq> []" and window: "2 * unat rw < 2 ^ 64"
    and env: "completion_ok env" "env_slots C slot_of env"
    and allowed: "head_allowed rw F env w"
    and poll: "poll C L rw addresses env w = Some (w', r)"
  shows "(\<exists>S. poll_sends_fresh C rw addresses env w (newly_sent w w') S)
    \<and> (\<exists>F'. remembers C rw addresses slot_of (emitted \<union> sent_signatures (newly_sent w w')) F' w'
          \<and> floor_step rw F F' env w w')"
proof -
  have wf: "state_wf (pw_state w)" and agree: "slots_agree slot_of (pw_state w)"
    and chan: "channel_agrees slot_of w"
    using inv by (auto simp: remembers_def)
  from poll wf show ?thesis
  proof (cases rule: poll_cases)
    case (early e)
    then obtain r' where prep: "poll_prepare C rw addresses env w = (w', r')" by blast
    have none: "newly_sent w w' = []" using early by (simp add: newly_sent_def)
    note P = prepare_any [OF prep wf]
    have agree': "slots_agree slot_of (pw_state w')"
      using absorb_agree [OF wf agree chan] prepare_recent [OF prep] by (simp add: slots_agree_def)
    have dv: "pw_delivered w' = map_option (\<lambda>dv. dv\<lparr>dv_channel := []\<rparr>) (pw_delivered w)"
      using prepare_delivered [OF prep] absorb_delivered by simp
    obtain inst where cur: "\<And>k. om_get (cursors (pw_state w')) k =
       (case om_get (cursors (pw_state w)) k of
          Some c \<Rightarrow> Some c | None \<Rightarrow> if k \<in> key_str C ` set addresses then inst else None)"
      using prepare_cursors [OF prep wf] by blast
    have "remembers C rw addresses slot_of (emitted \<union> {}) F w'
      \<and> (F \<noteq> 0 \<longrightarrow> (\<forall>n. cursors_from n (pw_state w') = cursors_from n (pw_state w)))"
      by (rule remembers_unpruned [OF inv _ agree' _ _ dv cur]) (use P in auto)
    then show ?thesis
      unfolding none by (auto simp: sent_signatures_def poll_sends_fresh_def floor_step_def)
  next
    case (deliver w1 hd0 initialized verified d)
    note prep = deliver(1) and disc = deliver(2)
    note batches = prepared_batches [OF prep disc wf]
    obtain S retrying where S: "state_wf S" "slots_agree slot_of S" "cursors S = cursors (pw_state w1)"
      and known: "\<And>t. known_signature w t \<Longrightarrow> has_recent_signature S t"
      and fresh: "poll_sends_fresh C rw addresses env w (newly_sent w w') S"
      and final: "case r of Inl e \<Rightarrow> pw_state w' = S
        | Inr out \<Rightarrow> pw_state w' = finished_state C rw hd0 (dc_batches d) retrying S"
      using poll_any_deliver [OF prep disc deliver(3) wf env agree chan] by metis
    have new: "t \<in> sent_signatures (newly_sent w w') \<Longrightarrow> has_recent_signature S t" for t
      using fresh by (fastforce simp: sent_signatures_def poll_sends_fresh_def)
    have dv: "pw_delivered w' = map_option (\<lambda>dv. dv\<lparr>dv_channel := []\<rparr>) (pw_delivered w)"
      using deliver_delivered [OF deliver(3)] prepare_delivered [OF prep] absorb_delivered by simp
    note cur = prepare_ok(3) [OF prep wf, folded S(3)]
    note hd0 = prepare_ok(1) [OF prep wf]
    have floor: "F = 0 \<or> F + unat rw \<le> unat hd0"
      using allowed hd0 prepare_ok(2) [OF prep wf] unfolding head_allowed_def by blast
    have "\<exists>F'. remembers C rw addresses slot_of (emitted \<union> sent_signatures (newly_sent w w')) F' w'
        \<and> floor_step rw F F' env w w'"
    proof (cases r)
      case (Inl e)
      then have w': "pw_state w' = S" using final by simp
      have "remembers C rw addresses slot_of (emitted \<union> sent_signatures (newly_sent w w')) F w'
        \<and> (F \<noteq> 0 \<longrightarrow> (\<forall>n. cursors_from n (pw_state w') = cursors_from n (pw_state w)))"
        by (rule remembers_unpruned [OF inv _ _ _ _ dv])
          (use S known new cur w' in auto)
      then show ?thesis by (auto simp: floor_step_def)
    next
      case (Inr out)
      then have w': "pw_state w' = finished_state C rw hd0 (dc_batches d) retrying S" using final by simp
      have bs: "hd0 \<le> scanned_slot (next_cursor b)" if "b \<in> set (dc_batches d)" for b
        using batches(3) [OF that] discover_next_cursor by (auto simp: poll_batch_def)
      show ?thesis
        using remembers_pruned [OF inv S(1,2) known new dv cur w' bs floor ne window] floor hd0
        by (auto simp: floor_step_def)
    qed
    with fresh show ?thesis by blast
  qed
qed

lemma suppresses_poll:
  assumes inv: "suppresses C rw addresses slot_of emitted h F w"
    and ne: "addresses \<noteq> []" and window: "2 * unat rw < 2 ^ 64"
    and env: "completion_ok env" "env_slots C slot_of env"
    and head: "h \<le> head_after env h"
    and poll: "poll C L rw addresses env w = Some (w', r)"
  shows "(\<exists>S. poll_sends_fresh C rw addresses env w (newly_sent w w') S)
    \<and> (\<exists>F'. suppresses C rw addresses slot_of (emitted \<union> sent_signatures (newly_sent w w'))
          (head_after env h) F' w')"
proof -
  have R: "remembers C rw addresses slot_of emitted F w" using inv by (simp add: suppresses_def)
  have "suppresses C rw addresses slot_of E (head_after env h) F' w'"
    if "remembers C rw addresses slot_of E F' w'" and "floor_step rw F F' env w w'" for E F'
  proof -
    have "F' = 0 \<or> cursors_from (F' + 2 * unat rw) (pw_state w')
      \<or> F' = F \<and> (\<forall>n. cursors_from n (pw_state w') = cursors_from n (pw_state w))
      \<or> F' = F \<and> F + unat rw \<le> unat (head_after env h)"
      using that(2) by (auto simp: floor_step_def head_after_def)
    then consider "F' = 0" | "cursors_from (F' + 2 * unat rw) (pw_state w')"
      | "F' = F" "\<And>n. cursors_from n (pw_state w') = cursors_from n (pw_state w)"
      | "F' = F" "F + unat rw \<le> unat (head_after env h)"
      by blast
    then show ?thesis
    proof cases
      case 3
      then show ?thesis
        using that(1) inv head by (auto simp: suppresses_def slot_le)
    qed (use that(1) in \<open>simp_all add: suppresses_def\<close>)
  qed
  then show ?thesis
    using remembers_poll [OF R ne window env head_above_floor [OF inv ne head] poll] by blast
qed

section \<open>Runs\<close>

text \<open>
  The heads of an endpoint may go backwards: behind one address there are backends that lag. The
  cursors hold the heads observed, so the highest of them is what a lag is measured from; the
  tolerance the code documents for it is one replay window. A poll that notices a greater lag
  itself stops before it does anything.
\<close>

definition highest_cursor :: "polling_state \<Rightarrow> nat" where
  "highest_cursor st = fold max (map (\<lambda>c. unat (scanned_slot c)) (om_values (cursors st))) 0"

definition skew_tolerated :: "slot \<Rightarrow> nat \<Rightarrow> poll_env \<Rightarrow> poll_world \<Rightarrow> bool" where
  "skew_tolerated rw h env w \<longleftrightarrow>
     (\<forall>head. pe_head env = Inr head \<longrightarrow> cursor_ahead_of_head (cursors (pw_state w)) head rw = None \<longrightarrow>
        h \<le> unat head + unat rw)"

lemma fold_max_le: "n \<le> fold max xs (n :: nat)" "x \<in> set xs \<Longrightarrow> x \<le> fold max xs n"
proof (induction xs arbitrary: n)
  case (Cons y ys)
  { case 1 show ?case using Cons(1) [of "max y n"] by simp }
  { case 2 then show ?case using Cons(1) [of "max y n"] Cons(2) [of "max y n"] by auto }
qed simp_all

lemma cursor_highest:
  assumes "om_wf (cursors st)" "om_get (cursors st) k = Some c"
  shows "unat (scanned_slot c) \<le> highest_cursor st"
proof -
  have "c \<in> set (om_values (cursors st))"
    using om_get_Some [OF assms(1)] assms(2) by (force simp: om_values_def)
  then show ?thesis unfolding highest_cursor_def by (intro fold_max_le(2)) auto
qed

text \<open>Updates the stream hands over while a poll runs are recorded behind the part that absorbs.\<close>

definition record_during :: "(signature \<Rightarrow> slot) \<Rightarrow> signature list \<Rightarrow> poll_world \<Rightarrow> poll_world" where
  "record_during slot_of ss w =
     w\<lparr>pw_delivered := map_option (fold (\<lambda>s. record_delivery s (slot_of s)) ss) (pw_delivered w)\<rparr>"

text \<open>
  Everything a process emits: the transactions Yellowstone delivered and recorded, before a poll or
  while it runs, and the ones the poller sent; with the highest slot a cursor has held.
\<close>

inductive poll_history ::
  "codec \<Rightarrow> rpc_library \<Rightarrow> slot \<Rightarrow> pubkey list \<Rightarrow> (signature \<Rightarrow> slot)
   \<Rightarrow> poll_world \<Rightarrow> nat \<Rightarrow> signature set \<Rightarrow> bool"
  for C L rw addresses slot_of
where
  history_start: "pw_state w = polling_state_default \<Longrightarrow> pw_sent w = [] \<Longrightarrow>
    pw_delivered w \<in> {None, Some new_delivered} \<Longrightarrow> poll_history C L rw addresses slot_of w 0 {}"
| history_delivery: "poll_history C L rw addresses slot_of w h emitted \<Longrightarrow>
    pw_delivered w = Some dv \<Longrightarrow> dv_recording dv \<Longrightarrow>
    poll_history C L rw addresses slot_of (record_during slot_of [s] w) h (insert s emitted)"
| history_poll: "poll_history C L rw addresses slot_of w h emitted \<Longrightarrow>
    completion_ok env \<Longrightarrow> env_slots C slot_of env \<Longrightarrow> skew_tolerated rw h env w \<Longrightarrow>
    poll C L rw addresses env w = Some (w', r) \<Longrightarrow>
    during = [] \<or> (\<exists>dv. pw_delivered w = Some dv \<and> dv_recording dv) \<Longrightarrow>
    poll_history C L rw addresses slot_of (record_during slot_of during w')
      (max h (highest_cursor (pw_state w')))
      (emitted \<union> sent_signatures (newly_sent w w') \<union> set during)"

lemma remembers_during:
  assumes "remembers C rw addresses slot_of emitted F w"
    and "ss = [] \<or> (\<exists>dv. pw_delivered w = Some dv \<and> dv_recording dv)"
  shows "remembers C rw addresses slot_of (emitted \<union> set ss) F (record_during slot_of ss w)"
proof (cases "ss = []")
  case True
  then show ?thesis using assms(1) by (simp add: record_during_def option.map_id0 [unfolded id_def] map_option_idI)
next
  case False
  then obtain dv where dv: "pw_delivered w = Some dv" "dv_recording dv" using assms(2) by blast
  have channel: "dv_channel (fold (\<lambda>s. record_delivery s (slot_of s)) ss dv) = dv_channel dv @ map (\<lambda>s. (s, slot_of s)) ss"
    using dv(2) by (induction ss arbitrary: dv) (simp_all add: record_delivery_def send_delivery_def)
  have "known_signature (record_during slot_of ss w) t \<longleftrightarrow> t \<in> set ss \<or> known_signature w t" for t
    by (auto simp: known_signature_def record_during_def dv(1) channel image_iff)
  moreover have "channel_agrees slot_of (record_during slot_of ss w)"
    using assms(1) by (auto simp: remembers_def channel_agrees_def record_during_def dv(1) channel)
  ultimately show ?thesis
    using assms(1) by (auto simp: remembers_def record_during_def cursor_of_def)
qed

text \<open>With heads that lag: the floor is two windows below the highest cursor so far.\<close>

definition suppresses_lagging ::
  "codec \<Rightarrow> slot \<Rightarrow> pubkey list \<Rightarrow> (signature \<Rightarrow> slot) \<Rightarrow> signature set \<Rightarrow> nat \<Rightarrow> nat \<Rightarrow> poll_world \<Rightarrow> bool"
where
  "suppresses_lagging C rw addresses slot_of emitted h F w \<longleftrightarrow>
     remembers C rw addresses slot_of emitted F w \<and> (F = 0 \<or> F + 2 * unat rw \<le> h)"

lemma lagging_poll:
  assumes inv: "suppresses_lagging C rw addresses slot_of emitted h F w"
    and ne: "addresses \<noteq> []" and window: "2 * unat rw < 2 ^ 64"
    and env: "completion_ok env" "env_slots C slot_of env" and skew: "skew_tolerated rw h env w"
    and poll: "poll C L rw addresses env w = Some (w', r)"
  shows "(\<exists>S. poll_sends_fresh C rw addresses env w (newly_sent w w') S)
    \<and> (\<exists>F'. suppresses_lagging C rw addresses slot_of (emitted \<union> sent_signatures (newly_sent w w'))
          (max h (highest_cursor (pw_state w'))) F' w')"
proof -
  have R: "remembers C rw addresses slot_of emitted F w" and h: "F = 0 \<or> F + 2 * unat rw \<le> h"
    using inv by (simp_all add: suppresses_lagging_def)
  have "head_allowed rw F env w"
    using h skew by (fastforce simp: head_allowed_def skew_tolerated_def)
  note next_poll = remembers_poll [OF R ne window env this poll]
  have "suppresses_lagging C rw addresses slot_of E (max h (highest_cursor (pw_state w'))) F' w'"
    if E: "remembers C rw addresses slot_of E F' w'" and step: "floor_step rw F F' env w w'" for E F'
  proof -
    have "F' + 2 * unat rw \<le> highest_cursor (pw_state w')"
      if "F' \<noteq> 0" "cursors_from (F' + 2 * unat rw) (pw_state w')"
    proof -
      have "cursor_of C w' (hd addresses) \<noteq> None"
        using E that(1) hd_in_set [OF ne] unfolding remembers_def by blast
      then obtain c where c: "om_get (cursors (pw_state w')) (key_str C (hd addresses)) = Some c"
        by (auto simp: cursor_of_def)
      moreover have "om_wf (cursors (pw_state w'))" using E by (simp add: remembers_def state_wf_def)
      ultimately show ?thesis
        using that(2) cursor_highest unfolding cursors_from_def by (meson order_trans)
    qed
    then show ?thesis
      using E h step by (fastforce simp: suppresses_lagging_def floor_step_def)
  qed
  then show ?thesis using next_poll by blast
qed

lemma poll_recording:
  assumes "poll C L rw addresses env w = Some (w', r)" "state_wf (pw_state w)"
  shows "pw_delivered w' = map_option (\<lambda>dv. dv\<lparr>dv_channel := []\<rparr>) (pw_delivered w)"
  using assms
proof (cases rule: poll_cases)
  case (early e)
  then show ?thesis using prepare_delivered absorb_delivered by metis
next
  case (deliver w1 head initialized verified d)
  then show ?thesis using deliver_delivered prepare_delivered absorb_delivered by metis
qed

lemma history_suppresses:
  assumes "poll_history C L rw addresses slot_of w h emitted"
    and "addresses \<noteq> []" "2 * unat rw < 2 ^ 64"
  shows "\<exists>F. suppresses_lagging C rw addresses slot_of emitted h F w"
  using assms(1)
proof induction
  case (history_start w)
  then have "suppresses_lagging C rw addresses slot_of {} 0 0 w"
    by (auto simp: suppresses_lagging_def remembers_def slots_agree_def channel_agrees_def polling_state_default_def
        state_wf_def new_delivered_def om_get_def)
  then show ?case ..
next
  case (history_delivery w h emitted dv s)
  then show ?case
    using remembers_during [of C rw addresses slot_of emitted _ w "[s]"] by (auto simp: suppresses_lagging_def)
next
  case (history_poll w h emitted env w' r during)
  obtain F where F: "suppresses_lagging C rw addresses slot_of emitted h F w" using history_poll.IH by blast
  obtain F' where F': "suppresses_lagging C rw addresses slot_of (emitted \<union> sent_signatures (newly_sent w w'))
      (max h (highest_cursor (pw_state w'))) F' w'"
    using lagging_poll [OF F assms(2,3) history_poll(2-5)] by blast
  have "state_wf (pw_state w)" using F by (simp add: suppresses_lagging_def remembers_def)
  then have rec: "during = [] \<or> (\<exists>dv. pw_delivered w' = Some dv \<and> dv_recording dv)"
    using history_poll(6) poll_recording [OF history_poll(5)] by auto
  have "remembers C rw addresses slot_of (emitted \<union> sent_signatures (newly_sent w w') \<union> set during)
      F' (record_during slot_of during w')"
    using F' remembers_during [OF _ rec] unfolding suppresses_lagging_def by blast
  then show ?case
    using F' unfolding suppresses_lagging_def by blast
qed

text \<open>
  C4: Over any run of polls and deliveries, with failures, retries, partial sends, prunings, and heads
  that lag up to a replay window behind the highest cursor so far, a poll never sends a signature
  that an earlier poll sent, or that the stream had recorded when the poll began. What the stream
  records while a poll runs is behind it: only the deduplication filters of the pipeline drop that.
\<close>

theorem never_emitted_twice:
  assumes "poll_history C L rw addresses slot_of w h emitted"
    and "addresses \<noteq> []" "2 * unat rw < 2 ^ 64"
    and "completion_ok env" "env_slots C slot_of env" "skew_tolerated rw h env w"
    and "poll C L rw addresses env w = Some (w', r)"
  shows "distinct (map update_signature (newly_sent w w'))
    \<and> None \<notin> update_signature ` set (newly_sent w w')
    \<and> sent_signatures (newly_sent w w') \<inter> emitted = {}"
proof -
  obtain F where F: "suppresses_lagging C rw addresses slot_of emitted h F w"
    using history_suppresses [OF assms(1-3)] by blast
  obtain S where S: "poll_sends_fresh C rw addresses env w (newly_sent w w') S"
    using lagging_poll [OF F assms(2-7)] by blast
  then have "None \<notin> update_signature ` set (newly_sent w w')"
    by (fastforce simp: poll_sends_fresh_def)
  moreover have "sent_signatures (newly_sent w w') \<inter> emitted = {}"
    using fresh_not_emitted [OF _ assms(5) S] F by (auto simp: sent_signatures_def suppresses_lagging_def)
  ultimately show ?thesis
    using S by (simp add: poll_sends_fresh_def)
qed

text \<open>
  C9: A poll that fails, wherever it fails, moves no cursor that existed, keeps everything it knew and
  records every update that had gone to the pipeline before the failure.
\<close>

theorem failed_poll_keeps_progress:
  assumes "state_wf (pw_state w)" "completion_ok env"
    and "poll C L rw addresses env w = Some (w', Inl e)"
  shows "(\<forall>k c. om_get (cursors (pw_state w)) k = Some c \<longrightarrow> om_get (cursors (pw_state w')) k = Some c)
    \<and> (\<forall>s. known_signature w s \<longrightarrow> has_recent_signature (pw_state w') s)
    \<and> sent_signatures (newly_sent w w') \<subseteq> {s. has_recent_signature (pw_state w') s}"
  using assms(3,1)
proof (cases rule: poll_cases)
  case (early e')
  then show ?thesis
    using prepare_any assms(1) by (fastforce simp: newly_sent_def sent_signatures_def)
next
  case (deliver w1 head initialized verified d)
  note batches = prepared_batches [OF deliver(1,2) assms(1)]
  have w1: "state_wf (pw_state w1)" "pw_sent w1 = pw_sent w"
      "\<And>t. has_recent_signature (pw_state w1) t \<longleftrightarrow> known_signature w t"
      "\<And>k c. om_get (cursors (pw_state w)) k = Some c \<Longrightarrow> om_get (cursors (pw_state w1)) k = Some c"
    using prepare_any [OF deliver(1) assms(1)] by auto
  obtain p fs k where proc: "processed (dc_contexts d) fs (pw_state w1) p"
    and sent: "pw_sent w' = pw_sent w1 @ sent_updates (take k (ready_updates (dc_contexts d) p))"
    and final: "pw_state w' =
         record_deliveries (sent_pairs (take k (ready_updates (dc_contexts d) p))) (pr_state p)"
    by (rule deliver_any [OF deliver(3) batches(1) assms(2) w1(1)]) simp
  note P = processedD [OF proc]
  have "sent_signatures (newly_sent w w') = fst ` set (take k (ready_updates (dc_contexts d) p))"
  proof -
    have "update_signature (snd (snd x)) = Some (fst x)"
      if "x \<in> set (take k (ready_updates (dc_contexts d) p))" for x
      using ready_signature(1) [OF proc] in_set_takeD [OF that] by blast
    then show ?thesis
      using sent w1(2) by (force simp: sent_signatures_def newly_sent_def image_iff)
  qed
  then show ?thesis
    using P(2,8) w1(3,4) by (auto simp: final record_deliveries_recent [OF P(1)] image_iff)
qed

lemma discover_all_returns:
  assumes "codec_ok C"
  shows "(\<forall>a \<in> set addresses. \<exists>h. serves_history C h (pe_pages env a)) \<Longrightarrow>
    discover_all C rw env head st addresses d \<noteq> None"
proof (induction addresses arbitrary: d)
  case (Cons a as)
  then obtain h where h: "serves_history C h (pe_pages env a)" by auto
  show ?case
  proof (cases "om_get (cursors st) (key_str C a)")
    case (Some cursor)
    obtain b where "discover_signatures C (pe_pages env a) a cursor head rw = Some (Inr b)"
      using discover_history [OF assms h] by blast
    then show ?thesis
      using Some Cons by (auto split: sum.splits)
  qed simp
qed simp

text \<open>
  C8: A poll returns: against an endpoint that serves the histories of the monitored addresses every
  crawl ends, however many pages it takes, so the poll gives an outcome or an error.
\<close>

theorem poll_returns:
  assumes "codec_ok C" "list_all (\<lambda>a. \<exists>h. serves_history C h (pe_pages env a)) addresses"
  shows "\<exists>w' r. poll C L rw addresses env w = Some (w', r)"
proof -
  obtain w1 q where prep: "poll_prepare C rw addresses env w = (w1, q)"
    by (cases "poll_prepare C rw addresses env w")
  show ?thesis
  proof (cases q)
    case (Inr x)
    obtain head initialized verified where x: "x = (head, initialized, verified)" by (cases x)
    obtain y where "discover_all C rw env head (pw_state w1) addresses empty_discovery = Some y"
      using discover_all_returns [OF assms(1)] assms(2) by (fastforce simp: list_all_iff)
    then show ?thesis
      using prep Inr x by (cases y) (auto simp: poll_def)
  qed (use prep in \<open>auto simp: poll_def\<close>)
qed

end
