(* ===== verification/Poll_Examples.thy ===== *)
theory Poll_Examples
  imports Poll_Runs
begin

text \<open>
  One concrete poll: an endpoint that serves a history of one transaction, a process that starts
  from nothing. The witnesses of the polling properties apply them here.
\<close>

definition demo_history :: "discovered_signature list" where
  "demo_history = [\<lparr>ds_signature = 7, ds_slot = 100\<rparr>]"

definition demo_meta :: ui_meta where
  "demo_meta = \<lparr>um_inner_instructions = SerSome [], um_log_messages = SerSome [], um_rest = []\<rparr>"

definition demo_transaction :: encoded_transaction where
  "demo_transaction = \<lparr>et_slot = 100, et_block_time = Some 1700000000, et_meta = Some demo_meta,
     et_transaction = ''tx''\<rparr>"

definition demo_library :: rpc_library where
  "demo_library = \<lparr>decode_transaction = Some,
     convert_meta = (\<lambda>m. Inr \<lparr>tm_failed = False, tm_log_messages = Some [], tm_rest = um_rest m\<rparr>),
     unsupported_version = - 32015\<rparr>"

definition demo_env :: poll_env where
  "demo_env = \<lparr>pe_head = Inr 120, pe_now = 0, pe_unix = 1700000100, pe_boundary_check = Inr 0,
     pe_boundary_discovery = Inr 0,
     pe_pages = (\<lambda>a n before mc. Inr (serve_page decimal_codec demo_history before)),
     pe_transactions = (\<lambda>s k. Inr demo_transaction),
     pe_completion = (\<lambda>ss. ss), pe_accepts = (\<lambda>n. True)\<rparr>"

definition demo_world :: poll_world where
  "demo_world = \<lparr>pw_state = polling_state_default, pw_delivered = Some new_delivered, pw_sent = [],
     pw_metrics = [], pw_health = initial_health\<rparr>"

definition demo_update :: update where
  "demo_update = TransactionUpdate
     \<lparr>tu_signature = 7, tu_transaction = ''tx'',
      tu_meta = \<lparr>tm_failed = False, tm_log_messages = Some [], tm_rest = []\<rparr>,
      tu_is_vote = False, tu_slot = 100, tu_index = None, tu_block_time = Some 1700000000,
      tu_block_hash = None\<rparr>"

lemma demo_serves: "serves_history decimal_codec demo_history (pe_pages demo_env a)"
  by (simp add: serves_history_def demo_env_def demo_history_def)

lemma demo_fetch: "fetch_transaction demo_library (pe_transactions demo_env s) s
    = (Some (Inr (s, demo_transaction)), [])"
  by (simp add: fetch_transaction_def fetch_attempts.simps demo_env_def transaction_fetch_attempts_def)

lemma demo_conversion: "transaction_update demo_library 7 demo_transaction = Some demo_update"
  by (simp add: transaction_update_def demo_transaction_def demo_meta_def demo_library_def
      demo_update_def)

lemma demo_discovery:
  "discover_signatures decimal_codec (pe_pages demo_env a) a \<lparr>scanned_slot = 90\<rparr> 120 30 =
    Some (Inr \<lparr>batch_address = a, batch_signatures = demo_history,
      next_cursor = \<lparr>scanned_slot = 120\<rparr>, reached_replay_floor = False\<rparr>)"
  by (simp add: discover_history [OF decimal_codec_ok demo_serves] demo_history_def replay_floor_def
      sat_sub_def newest_of_def max_def)

lemma demo_prepare:
  "poll_prepare decimal_codec 30 [5] demo_env demo_world =
    (demo_world\<lparr>pw_state := \<lparr>cursors = [(show_u64 (5 :: pubkey), \<lparr>scanned_slot = 90\<rparr>)],
        recent_signatures = [], poison_failures = [], last_history_boundary_check = Some 0\<rparr>\<rparr>,
     Inr (120, True, True))"
  by (simp add: poll_prepare_def demo_env_def demo_world_def absorb_delivered_signatures_def
      new_delivered_def polling_state_default_def cursor_ahead_of_head_def om_contains_def om_get_def
      check_history_boundary_def history_boundary_check_due_def minimum_scanned_slot_def
      minimum_opt_def om_values_def record_history_boundary_check_def sat_add_def sat_sub_def
      decimal_codec_def Let_def)

lemma demo_discover_all:
  assumes "om_get (cursors st) (show_u64 (5 :: pubkey)) = Some \<lparr>scanned_slot = 90\<rparr>"
  shows "discover_all decimal_codec 30 demo_env 120 st [5] empty_discovery =
    Some (Inr \<lparr>dc_batches = [\<lparr>batch_address = 5, batch_signatures = demo_history,
        next_cursor = \<lparr>scanned_slot = 120\<rparr>, reached_replay_floor = False\<rparr>],
      dc_contexts = [(7, \<lparr>ctx_slot = 100, ctx_addresses = [show_u64 (5 :: pubkey)]\<rparr>)],
      dc_first_available = Some 0, dc_verified = True\<rparr>)"
proof -
  have k: "key_str decimal_codec 5 = show_u64 (5 :: pubkey)" by (simp add: decimal_codec_def)
  have "discovery_boundary demo_env None \<lparr>scanned_slot = 90\<rparr> = Inr 0"
    by (simp add: discovery_boundary_def demo_env_def sat_add_def)
  then show ?thesis
    using assms demo_discovery [of 5]
    by (simp add: add_batch_def empty_discovery_def k) (simp add: demo_history_def)
qed

definition demo_after :: poll_world where
  "demo_after = \<lparr>pw_state = \<lparr>cursors = [(show_u64 (5 :: pubkey), \<lparr>scanned_slot = 120\<rparr>)],
       recent_signatures = [(7, 100)], poison_failures = [], last_history_boundary_check = Some 0\<rparr>,
     pw_delivered = Some new_delivered, pw_sent = [demo_update],
     pw_metrics = set_rpc_quarantined_transactions 0 @ set_rpc_recent_signatures 1
       @ snd (record_rpc_poll_success 1700000100 1700000100 120 120 1 initial_health),
     pw_health = record_poll_success 1700000100 initial_health\<rparr>"

lemma demo_deliver:
  assumes "w = demo_world\<lparr>pw_state := \<lparr>cursors = [(show_u64 (5 :: pubkey), \<lparr>scanned_slot = 90\<rparr>)],
        recent_signatures = [], poison_failures = [], last_history_boundary_check = Some 0\<rparr>\<rparr>"
    and "d = \<lparr>dc_batches = [\<lparr>batch_address = 5, batch_signatures = demo_history,
        next_cursor = \<lparr>scanned_slot = 120\<rparr>, reached_replay_floor = False\<rparr>],
      dc_contexts = [(7, \<lparr>ctx_slot = 100, ctx_addresses = [show_u64 (5 :: pubkey)]\<rparr>)],
      dc_first_available = Some 0, dc_verified = True\<rparr>"
  shows "poll_deliver decimal_codec demo_library 30 demo_env 120 True True d w =
    (demo_after, Inr \<lparr>queued_transactions = 1, checkpoint_urgent = True, history_boundary_verified = True\<rparr>)"
proof -
  have k: "key_str decimal_codec 5 = show_u64 (5 :: pubkey)" by (simp add: decimal_codec_def)
  have f: "signatures_to_fetch (dc_contexts d) (pw_state w) = [7]"
    by (simp add: assms signatures_to_fetch_def has_recent_signature_def om_contains_def om_get_def)
  have fs: "fetch_all demo_library demo_env [7] = [(7, Inr (7, demo_transaction))]"
    by (simp add: fetch_all_def demo_fetch) (simp add: demo_env_def)
  have p: "process_all decimal_codec demo_library (dc_contexts d) [(7, Inr (7, demo_transaction))] (pw_state w)
      = \<lparr>pr_state = pw_state w, pr_metrics = [], pr_successes = [(7, 100, demo_update)], pr_retrying = []\<rparr>"
    by (simp add: process_all_def process_one_def process_fetched_transaction_def demo_conversion assms
        clear_poison_failure_def om_remove_def) (simp add: demo_transaction_def)
  have r: "ready_updates (dc_contexts d)
      \<lparr>pr_state = pw_state w, pr_metrics = [], pr_successes = [(7, 100, demo_update)], pr_retrying = []\<rparr>
      = [(7, 100, demo_update)]"
    by (simp add: ready_updates_def signature_is_ready_def assms blocked_addresses_def oset_of_list_def)
  have env: "pe_accepts demo_env n" "pe_unix demo_env = 1700000100" for n
    by (simp_all add: demo_env_def)
  show ?thesis
    unfolding poll_deliver_def Let_def f fs p r
    by (simp add: env emit_def with_state_def record_recent_signature_def assms demo_world_def
        poll_finish_def batch_blocked_def k minimum_scanned_slot_def minimum_opt_def om_values_def
        retain_signatures_after_def om_retain_def unreachable_below_def sat_sub_def
        quarantined_transaction_count_def quarantined_signatures_def recent_signature_count_def
        record_rpc_poll_success_def demo_after_def demo_history_def Let_def)
qed

lemma demo_poll: "poll decimal_codec demo_library 30 [5] demo_env demo_world =
    Some (demo_after, Inr \<lparr>queued_transactions = 1, checkpoint_urgent = True, history_boundary_verified = True\<rparr>)"
  unfolding poll_def demo_prepare
  by (simp add: demo_discover_all om_get_def demo_deliver [OF refl refl] del: discover_all.simps)

lemma demo_sent: "newly_sent demo_world demo_after = [demo_update]"
  by (simp add: newly_sent_def demo_world_def demo_after_def)

lemma demo_completion: "completion_ok demo_env"
  by (simp add: completion_ok_def demo_env_def)

lemma demo_wf: "state_wf (pw_state demo_world)"
  by (simp add: demo_world_def)

text \<open>The demonstration is a first poll of a history.\<close>

lemma demo_start: "poll_history decimal_codec demo_library 30 [5] (\<lambda>s. 100) demo_world 0 {}"
  by (rule history_start) (simp_all add: demo_world_def)

lemma demo_slots: "env_slots decimal_codec (\<lambda>s. 100) demo_env"
proof -
  have "fst e = 100" if "e \<in> set (serve_page decimal_codec demo_history before)" for e before
    using that
    by (auto simp: serve_page_def encode_history_def demo_history_def split: option.splits if_splits
        dest!: in_set_takeD)
  then show ?thesis
    by (auto simp: env_slots_def pages_satisfy_def demo_env_def demo_transaction_def)
qed

theorem poll_loses_nothing_witness:
  "cursor_of decimal_codec demo_after 5 = Some \<lparr>scanned_slot = 120\<rparr>
   \<and> (\<exists>head b. pe_head demo_env = Inr head \<and> poll_batch decimal_codec 30 demo_env demo_world head 5 b)"
  using poll_loses_nothing [OF decimal_codec_ok _ demo_completion demo_wf demo_poll, of 5]
  by (auto simp: cursor_of_def demo_after_def decimal_codec_def om_get_def)

theorem poll_sends_once_in_order_witness:
  "distinct (map update_signature [demo_update]) \<and> \<not> known_signature demo_world 7"
  using poll_sends_once_in_order [OF decimal_codec_ok _ demo_completion demo_wf demo_poll]
  by (simp add: demo_sent update_signature_def demo_update_def)

text \<open>Any poll of this endpoint returns, whatever the state and whatever the head.\<close>

lemma demo_any_poll:
  "\<exists>w' r. poll decimal_codec demo_library 30 [5] (demo_env\<lparr>pe_head := head\<rparr>) w = Some (w', r)"
proof -
  obtain w1 q where prep: "poll_prepare decimal_codec 30 [5] (demo_env\<lparr>pe_head := head\<rparr>) w = (w1, q)"
    by (cases "poll_prepare decimal_codec 30 [5] (demo_env\<lparr>pe_head := head\<rparr>) w")
  have "\<forall>a \<in> set [5]. \<exists>h. serves_history decimal_codec h (pe_pages (demo_env\<lparr>pe_head := head\<rparr>) a)"
    using demo_serves by auto
  note returns = discover_all_returns [OF decimal_codec_ok this]
  show ?thesis
    using returns prep unfolding poll_def
    by (cases q) (auto simp del: discover_all.simps split: option.splits sum.splits)
qed

lemma demo_slots_head: "env_slots decimal_codec (\<lambda>s. 100) (demo_env\<lparr>pe_head := head\<rparr>)"
  using demo_slots by (simp add: env_slots_def)

lemma demo_completion_head: "completion_ok (demo_env\<lparr>pe_head := head\<rparr>)"
  using demo_completion by (simp add: completion_ok_def)

text \<open>
  The poll sends signature 7 while the stream records 8, and the next poll reaches a backend that
  lags behind the cursor and serves 7 again.
\<close>

abbreviation demo_lagging :: poll_env where
  "demo_lagging \<equiv> demo_env\<lparr>pe_head := Inr 110\<rparr>"

lemma demo_sent_signatures: "sent_signatures (newly_sent demo_world demo_after) = {7}"
  by (auto simp: demo_sent sent_signatures_def update_signature_def demo_update_def)

lemma demo_highest: "highest_cursor (pw_state demo_after) = 120"
  by (simp add: highest_cursor_def demo_after_def om_values_def)

lemma demo_polled:
  "poll_history decimal_codec demo_library 30 [5] (\<lambda>s. 100)
     (record_during (\<lambda>s. 100) [8] demo_after) 120 {7, 8}"
proof -
  have "skew_tolerated 30 0 demo_env demo_world" by (simp add: skew_tolerated_def)
  moreover have "\<exists>dv. pw_delivered demo_world = Some dv \<and> dv_recording dv"
    by (simp add: demo_world_def new_delivered_def)
  ultimately show ?thesis
    using history_poll [OF demo_start demo_completion demo_slots _ demo_poll, of "[8]"]
    by (simp add: demo_sent_signatures demo_highest insert_commute)
qed

theorem never_emitted_twice_witness:
  "\<exists>w' r. poll decimal_codec demo_library 30 [5] demo_lagging (record_during (\<lambda>s. 100) [8] demo_after)
      = Some (w', r)
    \<and> 7 \<notin> sent_signatures (newly_sent (record_during (\<lambda>s. 100) [8] demo_after) w')"
proof -
  obtain w' r where p: "poll decimal_codec demo_library 30 [5] demo_lagging
      (record_during (\<lambda>s. 100) [8] demo_after) = Some (w', r)"
    using demo_any_poll by blast
  have "skew_tolerated 30 120 demo_lagging (record_during (\<lambda>s. 100) [8] demo_after)"
    by (simp add: skew_tolerated_def)
  then show ?thesis
    using never_emitted_twice [OF demo_polled _ _ demo_completion_head demo_slots_head _ p] p by auto
qed

theorem poll_returns_witness:
  "\<exists>w' r. poll decimal_codec demo_library 30 [5] demo_env demo_world = Some (w', r)"
  by (rule poll_returns [OF decimal_codec_ok]) (use demo_serves in auto)

text \<open>An endpoint whose head cannot be read fails the poll.\<close>

lemma demo_failed_poll:
  "poll decimal_codec demo_library 30 [5] (demo_env\<lparr>pe_head := Inl ''unreachable''\<rparr>) demo_world =
    Some (demo_world, Inl (Anyhow ''failed to read the confirmed RPC slot''))"
  by (simp add: poll_def poll_prepare_def absorb_delivered_signatures_def demo_world_def
      new_delivered_def)

theorem failed_poll_keeps_progress_witness:
  "sent_signatures (newly_sent demo_world demo_world)
    \<subseteq> {s. has_recent_signature (pw_state demo_world) s}"
  using failed_poll_keeps_progress [OF demo_wf _ demo_failed_poll]
  by (simp add: completion_ok_def demo_env_def)

end
