(* ===== verification/Runtime.thy ===== *)
theory Runtime
  imports Checkpoint Shipped Poll_Examples
begin

text \<open>
  The polling process (\<open>rpc_polling/runtime.rs\<close> and the construction in \<open>rpc_polling.rs\<close>): the
  genesis hash, the load of the checkpoint with its attempts, the state a start resumes from, and
  the turns of the loop, each of which saves the processed progress, compacts the journal, polls
  and may disable recovery. A turn gets its answers, clocks and faults from its environment.
\<close>

section \<open>Construction\<close>

definition state_file_name :: string where "state_file_name = ''rpc-polling.json''"
definition shipped_journal_file_name :: string where "shipped_journal_file_name = ''shipped.log''"

record rpc_polling_datasource =
  rd_rpc_url :: string
  rd_program_id :: pubkey
  rd_multisig_state :: "pubkey option"
  rd_poll_interval :: duration
  rd_replay_window :: slot
  rd_state_dir :: string
  rd_checkpoint_name :: string
  rd_delivered :: "delivered_handle option"

text \<open>
  The URL syntax is a library's: \<open>parse_url\<close> gives the scheme of a valid URL. A panic is \<open>Inl\<close>;
  the journal the construction installs is the second component.
\<close>

type_synonym url_parser = "string \<Rightarrow> string option"

definition valid_rpc_url :: "url_parser \<Rightarrow> string \<Rightarrow> bool" where
  "valid_rpc_url parse_url value =
     (case parse_url value of
        None \<Rightarrow> False
      | Some scheme \<Rightarrow> scheme \<in> {''http'', ''https''})"

definition from_env ::
  "url_parser \<Rightarrow> (string \<Rightarrow> string option) \<Rightarrow> pubkey \<Rightarrow> pubkey option \<Rightarrow> duration \<Rightarrow> slot
   \<Rightarrow> delivered_handle option \<Rightarrow> journal option
   \<Rightarrow> string + (rpc_polling_datasource option \<times> journal option)"
where
  "from_env parse_url var program_id multisig_state poll_interval replay_window delivered j =
     (case (case var ''RPC_URL'' of Some url \<Rightarrow> if url = [] then None else Some url | None \<Rightarrow> None) of
        None \<Rightarrow> Inr (None, j)
      | Some rpc_url \<Rightarrow>
          if \<not> valid_rpc_url parse_url rpc_url then Inl ''RPC_URL must be a valid HTTP(S) URL''
          else Inr (Some \<lparr>rd_rpc_url = rpc_url, rd_program_id = program_id,
                 rd_multisig_state = multisig_state, rd_poll_interval = poll_interval,
                 rd_replay_window = replay_window,
                 rd_state_dir = (case var ''MICROSCOPE_STATE_DIR'' of
                    Some dir \<Rightarrow> dir | None \<Rightarrow> ''.microscope-state''),
                 rd_checkpoint_name = state_file_name, rd_delivered = delivered\<rparr>,
               install_journal shipped_journal_file_name j))"

definition require_from_env ::
  "url_parser \<Rightarrow> (string \<Rightarrow> string option) \<Rightarrow> pubkey \<Rightarrow> pubkey option \<Rightarrow> duration \<Rightarrow> slot
   \<Rightarrow> journal option \<Rightarrow> string + (rpc_polling_datasource \<times> journal option)"
where
  "require_from_env parse_url var program_id multisig_state poll_interval replay_window j =
     (case from_env parse_url var program_id multisig_state poll_interval replay_window None j of
        Inl e \<Rightarrow> Inl e
      | Inr (Some ds, j') \<Rightarrow> Inr (ds, j')
      | Inr (None, j') \<Rightarrow> Inl ''RPC_URL env var must be set when datasource.mode is rpc'')"

section \<open>The state of the process\<close>

definition checkpoint_load_attempts :: nat where "checkpoint_load_attempts = 3"
definition recovery_disable_after_consecutive :: u32 where "recovery_disable_after_consecutive = 3"

record history_gap_tracker =
  consecutive :: u32

definition record_gap :: "history_gap_tracker \<Rightarrow> bool \<times> history_gap_tracker" where
  "record_gap t =
     (let t' = t\<lparr>consecutive := consecutive t + 1\<rparr>
      in (recovery_disable_after_consecutive \<le> consecutive t', t'))"

definition record_recovered :: "history_gap_tracker \<Rightarrow> history_gap_tracker" where
  "record_recovered t = t\<lparr>consecutive := 0\<rparr>"

text \<open>The progress a checkpoint may hold: cursors, recorded and quarantined signatures.\<close>

record progress_snapshot =
  ps_cursors :: "(string, address_cursor) omap"
  ps_recent :: "(signature, slot) omap"
  ps_quarantined :: "signature list"

definition snapshot_of :: "polling_state \<Rightarrow> progress_snapshot" where
  "snapshot_of st = \<lparr>ps_cursors = cursors st, ps_recent = recent_signatures st,
     ps_quarantined = quarantined_signatures st\<rparr>"

record runtime =
  rt_world :: poll_world
  rt_store :: checkpoint_store
  rt_directory :: directory
  rt_journal :: "journal option"
  rt_processed :: progress_snapshot
  rt_urgent :: bool
  rt_history_gaps :: history_gap_tracker
  rt_cursors_ahead :: history_gap_tracker

datatype turn_end = Running | Parked string | Cancelled

definition emit_rt :: "metric list \<Rightarrow> runtime \<Rightarrow> runtime" where
  "emit_rt ms rt = rt\<lparr>rt_world := emit ms (rt_world rt)\<rparr>"

text \<open>\<open>wait_with_recovery_disabled\<close>: it returns only when the process is cancelled.\<close>

definition park :: "string \<Rightarrow> runtime \<Rightarrow> runtime" where
  "park reason rt =
     emit_rt (record_rpc_recovery_disabled reason)
       (rt\<lparr>rt_world := (rt_world rt)\<lparr>pw_delivered := map_option stop (pw_delivered (rt_world rt))\<rparr>\<rparr>)"

text \<open>Nothing is in flight: the channel is empty and the pipeline's counters agree.\<close>

definition pipeline_drained :: "bool \<Rightarrow> metrics_snapshot \<Rightarrow> bool" where
  "pipeline_drained channel_empty snapshot =
     (if \<not> channel_empty then False
      else case (carbon_counter snapshot ''carbon_updates_received_total'',
                 carbon_counter snapshot ''carbon_updates_processed_total'') of
        (Some received, Some handled) \<Rightarrow> received = handled
      | _ \<Rightarrow> True)"

section \<open>Starting\<close>

definition journal_identity_of :: "codec \<Rightarrow> string \<Rightarrow> pubkey \<Rightarrow> pubkey list \<Rightarrow> string" where
  "journal_identity_of C genesis_hash program_id addresses =
     genesis_hash @ '' '' @ key_str C program_id @ '' ''
       @ join_with '','' (sort (map (key_str C) addresses))"

text \<open>
  The genesis hash is asked for until it is answered or the process is cancelled: the metrics of
  the failures, and the hash (\<open>None\<close> when cancelled).
\<close>

partial_function (option) read_genesis_hash ::
  "(nat \<Rightarrow> string + string) \<Rightarrow> (nat \<Rightarrow> bool) \<Rightarrow> nat \<Rightarrow> metric list \<Rightarrow> (metric list \<times> string option) option"
where
  "read_genesis_hash answer cancelled n ms =
     (case answer n of
        Inr genesis_hash \<Rightarrow> Some (ms, Some genesis_hash)
      | Inl e \<Rightarrow>
          if cancelled n then Some (ms @ record_rpc_poll_failure, None)
          else read_genesis_hash answer cancelled (Suc n) (ms @ record_rpc_poll_failure))"

record load_attempt =
  la_faults :: load_faults
  la_timestamp :: nat
  la_cancelled :: bool

record journal_faults =
  jf_restore :: restore_faults
  jf_remove :: bool
  jf_truncate :: bool

definition discard_journal :: "journal_faults \<Rightarrow> string \<Rightarrow> runtime \<Rightarrow> runtime" where
  "discard_journal jf identity rt =
     (case discard (jf_remove jf) (jf_truncate jf) identity (rt_journal rt) (rt_directory rt) of
        (j, d) \<Rightarrow> rt\<lparr>rt_journal := j, rt_directory := d\<rparr>)"

text \<open>The load: a mismatch disables recovery at once, an I/O error after three attempts.\<close>

function load_checkpoint ::
  "codec \<Rightarrow> document_codec \<Rightarrow> (nat \<Rightarrow> load_attempt) \<Rightarrow> journal_faults \<Rightarrow> string \<Rightarrow> nat \<Rightarrow> runtime
   \<Rightarrow> runtime \<times> (turn_end + checkpoint_load_outcome)"
where
  "load_checkpoint C J env jf identity attempts rt =
     (case load C J (la_faults (env attempts)) (la_timestamp (env attempts)) (rt_store rt)
             (rt_directory rt) of
        (d, Inr outcome) \<Rightarrow> (rt\<lparr>rt_directory := d\<rparr>, Inr outcome)
      | (d, Inl (CheckpointMismatch e)) \<Rightarrow>
          (park ''checkpoint_load''
             (emit_rt record_rpc_checkpoint_failure (discard_journal jf identity (rt\<lparr>rt_directory := d\<rparr>))),
           Inl (Parked ''checkpoint_load''))
      | (d, Inl (CheckpointIo e)) \<Rightarrow>
          let rt' = emit_rt record_rpc_checkpoint_failure (rt\<lparr>rt_directory := d\<rparr>)
          in if checkpoint_load_attempts \<le> Suc attempts
             then (park ''checkpoint_load'' rt', Inl (Parked ''checkpoint_load''))
             else if la_cancelled (env attempts) then (rt', Inl Cancelled)
             else load_checkpoint C J env jf identity (Suc attempts) rt')"
  by pat_completeness auto
termination
  by (relation "measure (\<lambda>(_, _, _, _, _, attempts, _). checkpoint_load_attempts - attempts)")
    (auto simp: checkpoint_load_attempts_def)

declare load_checkpoint.simps [simp del]

text \<open>The state the process resumes from.\<close>

definition resume_state :: "checkpoint_snapshot \<Rightarrow> polling_state" where
  "resume_state snapshot =
     restore_quarantined (sn_quarantined_signatures snapshot)
       (polling_state_default\<lparr>cursors := sn_cursors snapshot,
          recent_signatures := sn_recent_signatures snapshot\<rparr>)"

definition resume ::
  "codec \<Rightarrow> journal_faults \<Rightarrow> string \<Rightarrow> checkpoint_load_outcome \<Rightarrow> runtime \<Rightarrow> runtime" where
  "resume C jf identity outcome rt0 =
     (let rt = rt0\<lparr>rt_world := (rt_world rt0)\<lparr>pw_state := polling_state_default\<rparr>\<rparr>;
          rt' =
            (case outcome of
               Missing \<Rightarrow> discard_journal jf identity rt
             | Corrupt backup reason \<Rightarrow>
                 discard_journal jf identity (emit_rt record_rpc_checkpoint_corrupt rt)
             | Loaded snapshot \<Rightarrow>
                 let st = resume_state snapshot;
                     rt1 = emit_rt (set_rpc_quarantined_transactions
                              (of_nat (quarantined_transaction_count st))) rt
                 in (case restore C (jf_restore jf) identity (rt_journal rt1) (rt_directory rt1) of
                       (shipped, j, d) \<Rightarrow>
                         rt1\<lparr>rt_journal := j, rt_directory := d,
                           rt_world := (rt_world rt1)\<lparr>pw_state := record_deliveries shipped st\<rparr>\<rparr>))
      in rt'\<lparr>rt_processed := snapshot_of (pw_state (rt_world rt')), rt_urgent := False,
           rt_history_gaps := \<lparr>consecutive = 0\<rparr>, rt_cursors_ahead := \<lparr>consecutive = 0\<rparr>\<rparr>)"

record startup_env =
  se_unix :: u64
  se_genesis :: "nat \<Rightarrow> string + string"
  se_genesis_cancelled :: "nat \<Rightarrow> bool"
  se_load :: "nat \<Rightarrow> load_attempt"
  se_journal :: journal_faults

text \<open>
  The prologue of \<open>consume\<close>, up to the first turn of the loop. The initial world is what the
  process holds when the datasource is started: its metrics, health and delivered signatures.
\<close>

definition blank_runtime :: "poll_world \<Rightarrow> checkpoint_store \<Rightarrow> journal option \<Rightarrow> directory \<Rightarrow> runtime" where
  "blank_runtime w cs j d =
     \<lparr>rt_world = w, rt_store = cs, rt_directory = d, rt_journal = j,
      rt_processed = \<lparr>ps_cursors = [], ps_recent = [], ps_quarantined = []\<rparr>, rt_urgent = False,
      rt_history_gaps = \<lparr>consecutive = 0\<rparr>, rt_cursors_ahead = \<lparr>consecutive = 0\<rparr>\<rparr>"

definition startup ::
  "codec \<Rightarrow> document_codec \<Rightarrow> rpc_polling_datasource \<Rightarrow> startup_env \<Rightarrow> poll_world \<Rightarrow> journal option
   \<Rightarrow> directory \<Rightarrow> (runtime \<times> turn_end) option"
where
  "startup C J ds env w0 j d =
     (let addresses = monitored_addresses (rd_program_id ds) (rd_multisig_state ds);
          w = emit (initialize_rpc_polling (se_unix env)) w0
      in case read_genesis_hash (se_genesis env) (se_genesis_cancelled env) 0 [] of
           None \<Rightarrow> None
         | Some (ms, None) \<Rightarrow>
             Some (blank_runtime (emit ms w) (new_store (rd_checkpoint_name ds) [] [] [] 0) j d, Cancelled)
         | Some (ms, Some genesis_hash) \<Rightarrow>
             let identity = journal_identity_of C genesis_hash (rd_program_id ds) addresses;
                 cs = new_store (rd_checkpoint_name ds) genesis_hash (key_str C (rd_program_id ds))
                        (map (key_str C) addresses) (rd_replay_window ds)
             in Some (case load_checkpoint C J (se_load env) (se_journal env) identity 0
                            (blank_runtime (emit ms w) cs j d) of
                        (rt, Inl e) \<Rightarrow> (rt, e)
                      | (rt, Inr outcome) \<Rightarrow> (resume C (se_journal env) identity outcome rt, Running)))"

section \<open>One turn of the loop\<close>

record turn_env =
  te_cancelled :: bool                        \<comment> \<open>at the top of the turn\<close>
  te_listing :: "string + string list option" \<comment> \<open>the state directory, for the corrupt copies\<close>
  te_channel_empty :: bool
  te_snapshot :: metrics_snapshot
  te_now :: instant
  te_saved_at :: instant
  te_unix :: u64
  te_save_faults :: write_faults
  te_journal_unreadable :: bool
  te_journal_faults :: write_faults
  te_poll :: poll_env
  te_elapsed :: duration
  te_cancelled_asleep :: bool

definition count_quarantined_files :: "turn_env \<Rightarrow> runtime \<Rightarrow> runtime" where
  "count_quarantined_files env rt =
     (case quarantined_file_count (rt_store rt) (te_listing env) of
        Inr files \<Rightarrow> emit_rt (set_rpc_checkpoint_quarantined_files (of_nat files)) rt
      | Inl e \<Rightarrow> rt)"

text \<open>The checkpoint may advance to the present progress only when nothing is in flight.\<close>

definition advance_processed :: "turn_env \<Rightarrow> runtime \<Rightarrow> runtime" where
  "advance_processed env rt =
     (if pipeline_drained (te_channel_empty env) (te_snapshot env)
      then rt\<lparr>rt_processed := snapshot_of (pw_state (rt_world rt))\<rparr> else rt)"

definition lowest_cursor :: "(string, address_cursor) omap \<Rightarrow> slot" where
  "lowest_cursor cs = (case minimum_opt (map scanned_slot (om_values cs)) of Some m \<Rightarrow> m | None \<Rightarrow> 0)"

text \<open>
  Save what was processed; after a write, drop from the journal what the durable slot makes
  unreachable.
\<close>

definition save_progress :: "codec \<Rightarrow> document_codec \<Rightarrow> turn_env \<Rightarrow> runtime \<Rightarrow> runtime" where
  "save_progress C J env rt =
     (let p = rt_processed rt
      in case save_if_due C J (te_save_faults env) (te_now env) (te_saved_at env) (ps_cursors p)
                (ps_recent p) (ps_quarantined p) (rt_urgent rt) (rt_store rt) (rt_directory rt) of
           (cs, d, Inr True) \<Rightarrow>
             let slot = lowest_cursor (ps_cursors p);
                 rt' = emit_rt (record_rpc_checkpoint_success (te_unix env) slot)
                         (rt\<lparr>rt_store := cs, rt_directory := d\<rparr>)
             in (case compact C (te_journal_unreadable env) (te_journal_faults env)
                        (unreachable_below slot (cs_replay_window cs)) (rt_journal rt') (rt_directory rt') of
                   (j, d') \<Rightarrow> rt'\<lparr>rt_journal := j, rt_directory := d'\<rparr>)
         | (cs, d, Inr False) \<Rightarrow> rt\<lparr>rt_store := cs, rt_directory := d\<rparr>
         | (cs, d, Inl e) \<Rightarrow>
             emit_rt record_rpc_checkpoint_failure (rt\<lparr>rt_store := cs, rt_directory := d\<rparr>))"

definition before_poll :: "codec \<Rightarrow> document_codec \<Rightarrow> turn_env \<Rightarrow> runtime \<Rightarrow> runtime" where
  "before_poll C J env rt =
     save_progress C J env (advance_processed env (count_quarantined_files env rt))"

text \<open>What a poll's result changes, and whether it disables recovery.\<close>

definition after_poll :: "poll_error + poll_outcome \<Rightarrow> runtime \<Rightarrow> runtime \<times> turn_end" where
  "after_poll r rt =
     (case r of
        Inr outcome \<Rightarrow>
          (rt\<lparr>rt_urgent := checkpoint_urgent outcome,
              rt_cursors_ahead := record_recovered (rt_cursors_ahead rt),
              rt_history_gaps := (if history_boundary_verified outcome
                                  then record_recovered (rt_history_gaps rt) else rt_history_gaps rt)\<rparr>,
           Running)
      | Inl (CursorAheadOfHead a c h) \<Rightarrow>
          (case record_gap (rt_cursors_ahead rt) of
             (disable, t) \<Rightarrow>
               if disable then (park ''cursor_ahead_of_head'' (rt\<lparr>rt_cursors_ahead := t\<rparr>),
                                Parked ''cursor_ahead_of_head'')
               else (rt\<lparr>rt_cursors_ahead := t\<rparr>, Running))
      | Inl (HistoryUnavailable b c) \<Rightarrow>
          (case record_gap (rt_history_gaps rt) of
             (disable, t) \<Rightarrow>
               let rt' = emit_rt record_rpc_history_unavailable (rt\<lparr>rt_history_gaps := t\<rparr>)
               in if disable then (park ''history_unavailable'' rt', Parked ''history_unavailable'')
                  else (rt', Running))
      | Inl (Anyhow e) \<Rightarrow> (emit_rt record_rpc_poll_failure rt, Running))"

definition turn_delay :: "duration \<Rightarrow> turn_env \<Rightarrow> duration" where
  "turn_delay poll_interval env = poll_interval - te_elapsed env"

definition turn_poll ::
  "codec \<Rightarrow> rpc_library \<Rightarrow> pubkey list \<Rightarrow> turn_env \<Rightarrow> runtime
   \<Rightarrow> (poll_world \<times> (poll_error + poll_outcome)) option"
where
  "turn_poll C L addresses env rt =
     poll C L (cs_replay_window (rt_store rt)) addresses (te_poll env) (rt_world rt)"

definition turn ::
  "codec \<Rightarrow> document_codec \<Rightarrow> rpc_library \<Rightarrow> pubkey list \<Rightarrow> turn_env \<Rightarrow> runtime
   \<Rightarrow> (runtime \<times> turn_end) option"
where
  "turn C J L addresses env rt0 =
     (if te_cancelled env then Some (rt0, Cancelled)
      else
        let rt = before_poll C J env rt0
        in case turn_poll C L addresses env rt of
             None \<Rightarrow> None
           | Some (w, r) \<Rightarrow>
               (case after_poll r (rt\<lparr>rt_world := w\<rparr>) of
                  (rt', Running) \<Rightarrow>
                    Some (rt', if te_cancelled_asleep env then Cancelled else Running)
                | (rt', e) \<Rightarrow> Some (rt', e)))"

text \<open>The turns of a process, until it is parked or cancelled.\<close>

fun turns ::
  "codec \<Rightarrow> document_codec \<Rightarrow> rpc_library \<Rightarrow> pubkey list \<Rightarrow> turn_env list \<Rightarrow> runtime
   \<Rightarrow> (runtime \<times> turn_end) option"
where
  "turns C J L addresses [] rt = Some (rt, Running)"
| "turns C J L addresses (env # envs) rt =
     (case turn C J L addresses env rt of
        Some (rt', Running) \<Rightarrow> turns C J L addresses envs rt'
      | r \<Rightarrow> r)"

end
