(* ===== verification/Pipeline.thy ===== *)
theory Pipeline
  imports Runtime
begin

text \<open>
  What the poller's loop relies on of the pipeline (\<open>pipeline_drained\<close> in \<open>rpc_polling/runtime.rs\<close>).
  The pipeline is a library's and not modelled; these are hypotheses about it, as the comment and the
  tests at \<open>pipeline_drained\<close> state them: it dequeues an update before it processes it, and one
  counter counts what it received, another what it has processed. The loop reads whether the channel
  is empty and the two counters, and nothing else. Dequeuing and counting are one step here.
\<close>

section \<open>The machine\<close>

text \<open>An update counts by the signature it carries, if it is a transaction.\<close>

record pipeline =
  pl_channel :: "signature option list"
  pl_in_hand :: "signature option list"
  pl_received :: nat
  pl_handled :: nat

definition idle_pipeline :: pipeline where
  "idle_pipeline = \<lparr>pl_channel = [], pl_in_hand = [], pl_received = 0, pl_handled = 0\<rparr>"

definition enqueue_updates :: "signature option list \<Rightarrow> pipeline \<Rightarrow> pipeline" where
  "enqueue_updates us P = P\<lparr>pl_channel := pl_channel P @ us\<rparr>"

text \<open>
  Which update is dequeued first is left open. So what the pipeline does while a poll sends can be
  listed after the poll.
\<close>

definition dequeue_update :: "signature option \<Rightarrow> pipeline \<Rightarrow> pipeline option" where
  "dequeue_update u P =
     (if u \<in> set (pl_channel P)
      then Some (P\<lparr>pl_channel := remove1 u (pl_channel P), pl_in_hand := u # pl_in_hand P,
                   pl_received := Suc (pl_received P)\<rparr>)
      else None)"

definition finish_update :: "signature option \<Rightarrow> pipeline \<Rightarrow> pipeline option" where
  "finish_update u P =
     (if u \<in> set (pl_in_hand P)
      then Some (P\<lparr>pl_in_hand := remove1 u (pl_in_hand P), pl_handled := Suc (pl_handled P)\<rparr>)
      else None)"

text \<open>
  What the loop reads is the machine's: the state of the channel, and the counters, which the
  registry holds at the latest when the first update has been dequeued.
\<close>

definition reported :: "pipeline \<Rightarrow> bool \<Rightarrow> metrics_snapshot \<Rightarrow> bool" where
  "reported P channel_empty snapshot \<longleftrightarrow>
     (channel_empty \<longleftrightarrow> pl_channel P = []) \<and> pl_received P < 2 ^ 64
     \<and> (0 < pl_received P \<longrightarrow>
          carbon_counter snapshot ''carbon_updates_received_total'' = Some (of_nat (pl_received P))
          \<and> carbon_counter snapshot ''carbon_updates_processed_total'' = Some (of_nat (pl_handled P)))"

section \<open>What was emitted is somewhere\<close>

definition carries :: "pipeline \<Rightarrow> signature set \<Rightarrow> signature set \<Rightarrow> bool" where
  "carries P emitted finished \<longleftrightarrow>
     pl_received P = pl_handled P + length (pl_in_hand P)
     \<and> (\<forall>s \<in> emitted. s \<in> finished \<or> Some s \<in> set (pl_channel P) \<union> set (pl_in_hand P))"

lemma carries_idle: "carries idle_pipeline {} finished"
  by (simp add: carries_def idle_pipeline_def)

lemma carries_enqueue:
  "carries P emitted finished \<Longrightarrow> emitted' \<subseteq> emitted \<union> {s. Some s \<in> set us} \<Longrightarrow>
    carries (enqueue_updates us P) emitted' finished"
  by (auto simp: carries_def enqueue_updates_def)

lemma carries_dequeue:
  assumes "carries P emitted finished" "dequeue_update u P = Some P'"
  shows "carries P' emitted finished"
proof -
  have P': "P' = P\<lparr>pl_channel := remove1 u (pl_channel P), pl_in_hand := u # pl_in_hand P,
      pl_received := Suc (pl_received P)\<rparr>"
    using assms(2) by (auto simp: dequeue_update_def split: if_splits)
  have "x \<in> set (pl_channel P) \<longleftrightarrow> x \<in> insert u (set (remove1 u (pl_channel P)))" if "x \<noteq> u" for x
    using that by (simp add: in_set_remove1)
  then show ?thesis
    using assms(1) unfolding carries_def P' by fastforce
qed

lemma carries_more: "carries P emitted finished \<Longrightarrow> finished \<subseteq> finished' \<Longrightarrow> carries P emitted finished'"
  by (auto simp: carries_def)

lemma carries_finish:
  assumes "carries P emitted finished" "finish_update u P = Some P'"
  shows "carries P' emitted (finished \<union> set_option u)"
proof -
  have u: "u \<in> set (pl_in_hand P)"
    and P': "P' = P\<lparr>pl_in_hand := remove1 u (pl_in_hand P), pl_handled := Suc (pl_handled P)\<rparr>"
    using assms(2) by (auto simp: finish_update_def split: if_splits)
  have "s \<in> finished \<union> set_option u \<or> Some s \<in> set (pl_channel P) \<union> set (remove1 u (pl_in_hand P))"
    if "s \<in> emitted" for s
    using assms(1) that in_set_remove1 [of "Some s" u "pl_in_hand P"]
    by (cases "Some s = u") (auto simp: carries_def)
  then show ?thesis
    using assms(1) length_remove1_in [OF u] by (simp add: carries_def P')
qed

text \<open>
  The decision of the loop is right: it takes the pipeline as drained only when everything emitted
  has been finished.
\<close>

lemma drained_finished:
  assumes "carries P emitted finished" "reported P channel_empty snapshot"
    and "pipeline_drained channel_empty snapshot"
  shows "emitted \<subseteq> finished"
proof -
  have channel: "pl_channel P = []"
    using assms(2,3) by (auto simp: reported_def pipeline_drained_def split: if_splits)
  have "pl_in_hand P = []"
  proof (cases "pl_received P = 0")
    case False
    then have "(of_nat (pl_received P) :: u64) = of_nat (pl_handled P)"
      using assms(2,3) by (simp add: reported_def pipeline_drained_def split: if_splits)
    moreover have "pl_received P < 2 ^ 64" "pl_handled P \<le> pl_received P"
      using assms(1,2) by (simp_all add: reported_def carries_def)
    ultimately have "pl_received P = pl_handled P"
      by (simp add: word_of_nat_eq_iff take_bit_nat_eq_self)
    then show ?thesis using assms(1) by (simp add: carries_def)
  qed (use assms(1) in \<open>simp add: carries_def\<close>)
  then show ?thesis using assms(1) channel by (auto simp: carries_def)
qed

end
