(* ===== verification/Runtime_Safety.thy ===== *)
theory Runtime_Safety
  imports Pipeline
begin

text \<open>
  What the polling process guarantees over its turns: when it disables recovery, that the
  checkpoint holds only progress the pipeline has finished, and that a restart does not emit again
  what the checkpoint and the journal record.
\<close>

section \<open>Frames\<close>

lemma emit_rt_frame [simp]:
  "pw_state (rt_world (emit_rt ms rt)) = pw_state (rt_world rt)"
  "pw_sent (rt_world (emit_rt ms rt)) = pw_sent (rt_world rt)"
  "pw_delivered (rt_world (emit_rt ms rt)) = pw_delivered (rt_world rt)"
  "rt_store (emit_rt ms rt) = rt_store rt" "rt_directory (emit_rt ms rt) = rt_directory rt"
  "rt_journal (emit_rt ms rt) = rt_journal rt" "rt_processed (emit_rt ms rt) = rt_processed rt"
  "rt_urgent (emit_rt ms rt) = rt_urgent rt" "rt_history_gaps (emit_rt ms rt) = rt_history_gaps rt"
  "rt_cursors_ahead (emit_rt ms rt) = rt_cursors_ahead rt"
  by (simp_all add: emit_rt_def emit_def)

lemma park_frame [simp]:
  "pw_state (rt_world (park reason rt)) = pw_state (rt_world rt)"
  "pw_delivered (rt_world (park reason rt)) =
     map_option (\<lambda>dv. dv\<lparr>dv_recording := False, dv_channel := []\<rparr>) (pw_delivered (rt_world rt))"
  "rt_directory (park reason rt) = rt_directory rt" "rt_journal (park reason rt) = rt_journal rt"
  "rt_store (park reason rt) = rt_store rt" "rt_processed (park reason rt) = rt_processed rt"
  by (simp_all add: park_def stop_def cong: option.map_cong)

lemma count_frame [simp]:
  "pw_state (rt_world (count_quarantined_files env rt)) = pw_state (rt_world rt)"
  "pw_sent (rt_world (count_quarantined_files env rt)) = pw_sent (rt_world rt)"
  "pw_delivered (rt_world (count_quarantined_files env rt)) = pw_delivered (rt_world rt)"
  "rt_store (count_quarantined_files env rt) = rt_store rt"
  "rt_directory (count_quarantined_files env rt) = rt_directory rt"
  "rt_journal (count_quarantined_files env rt) = rt_journal rt"
  "rt_processed (count_quarantined_files env rt) = rt_processed rt"
  "rt_history_gaps (count_quarantined_files env rt) = rt_history_gaps rt"
  "rt_cursors_ahead (count_quarantined_files env rt) = rt_cursors_ahead rt"
  by (simp_all add: count_quarantined_files_def split: sum.splits)

lemma advance_frame_rt [simp]:
  "rt_world (advance_processed env rt) = rt_world rt" "rt_store (advance_processed env rt) = rt_store rt"
  "rt_directory (advance_processed env rt) = rt_directory rt"
  "rt_journal (advance_processed env rt) = rt_journal rt"
  "rt_history_gaps (advance_processed env rt) = rt_history_gaps rt"
  "rt_cursors_ahead (advance_processed env rt) = rt_cursors_ahead rt"
  by (simp_all add: advance_processed_def)

lemma save_if_due_store:
  assumes "save_if_due C J f now at curs recent q act cs d = (cs', d', r)"
  shows "cs_name cs' = cs_name cs" "cs_identity cs' = cs_identity cs"
    "cs_replay_window cs' = cs_replay_window cs"
  using assms by (auto simp: save_if_due_def split: if_splits prod.splits sum.splits)

lemma save_frame [simp]:
  "pw_state (rt_world (save_progress C J env rt)) = pw_state (rt_world rt)"
  "pw_sent (rt_world (save_progress C J env rt)) = pw_sent (rt_world rt)"
  "pw_delivered (rt_world (save_progress C J env rt)) = pw_delivered (rt_world rt)"
  "cs_name (rt_store (save_progress C J env rt)) = cs_name (rt_store rt)"
  "cs_identity (rt_store (save_progress C J env rt)) = cs_identity (rt_store rt)"
  "cs_replay_window (rt_store (save_progress C J env rt)) = cs_replay_window (rt_store rt)"
  "rt_processed (save_progress C J env rt) = rt_processed rt"
  "rt_history_gaps (save_progress C J env rt) = rt_history_gaps rt"
  "rt_cursors_ahead (save_progress C J env rt) = rt_cursors_ahead rt"
  by (auto simp: save_progress_def Let_def emit_rt_def emit_def
      split: prod.splits sum.splits bool.splits dest: save_if_due_store)

lemma before_poll_frame [simp]:
  "pw_state (rt_world (before_poll C J env rt)) = pw_state (rt_world rt)"
  "pw_sent (rt_world (before_poll C J env rt)) = pw_sent (rt_world rt)"
  "pw_delivered (rt_world (before_poll C J env rt)) = pw_delivered (rt_world rt)"
  "cs_name (rt_store (before_poll C J env rt)) = cs_name (rt_store rt)"
  "cs_identity (rt_store (before_poll C J env rt)) = cs_identity (rt_store rt)"
  "cs_replay_window (rt_store (before_poll C J env rt)) = cs_replay_window (rt_store rt)"
  "rt_history_gaps (before_poll C J env rt) = rt_history_gaps rt"
  "rt_cursors_ahead (before_poll C J env rt) = rt_cursors_ahead rt"
  by (simp_all add: before_poll_def)

lemma before_poll_processed:
  "rt_processed (before_poll C J env rt) =
    (if pipeline_drained (te_channel_empty env) (te_snapshot env)
     then snapshot_of (pw_state (rt_world rt)) else rt_processed rt)"
  by (simp add: before_poll_def advance_processed_def)

lemma after_poll_frame [simp]:
  "pw_state (rt_world (fst (after_poll r rt))) = pw_state (rt_world rt)"
  "rt_processed (fst (after_poll r rt)) = rt_processed rt"
  "rt_directory (fst (after_poll r rt)) = rt_directory rt"
  "rt_journal (fst (after_poll r rt)) = rt_journal rt"
  "rt_store (fst (after_poll r rt)) = rt_store rt"
  by (simp_all add: after_poll_def Let_def split: sum.splits poll_error.splits prod.splits)

text \<open>A turn that is not cancelled at its top, in one equation.\<close>

lemma turn_cases:
  assumes "turn C J L addresses env rt = Some (rt', e)" "\<not> te_cancelled env"
  obtains w r where "turn_poll C L addresses env (before_poll C J env rt) = Some (w, r)"
    "rt' = fst (after_poll r (before_poll C J env rt\<lparr>rt_world := w\<rparr>))"
    "e = (case snd (after_poll r (before_poll C J env rt\<lparr>rt_world := w\<rparr>)) of
            Running \<Rightarrow> if te_cancelled_asleep env then Cancelled else Running | p \<Rightarrow> p)"
  using assms
  by (auto simp: turn_def Let_def split: option.splits prod.splits turn_end.splits)

section \<open>When recovery is disabled\<close>

text \<open>
  The polls since the last one that showed the endpoint has caught up: a success for a cursor ahead
  of the head, a success with a verified history boundary for a gap in the history. Other failures
  do not end a streak.
\<close>

definition ahead_streak :: "(poll_error + poll_outcome) list \<Rightarrow> nat" where
  "ahead_streak rs = foldl (\<lambda>n r. case r of
       Inr out \<Rightarrow> 0 | Inl (CursorAheadOfHead a c h) \<Rightarrow> Suc n | Inl _ \<Rightarrow> n) 0 rs"

definition gap_streak :: "(poll_error + poll_outcome) list \<Rightarrow> nat" where
  "gap_streak rs = foldl (\<lambda>n r. case r of
       Inr out \<Rightarrow> if history_boundary_verified out then 0 else n
     | Inl (HistoryUnavailable b c) \<Rightarrow> Suc n | Inl _ \<Rightarrow> n) 0 rs"

text \<open>The results of the polls of a process that is still running.\<close>

inductive polling_run ::
  "codec \<Rightarrow> document_codec \<Rightarrow> rpc_library \<Rightarrow> pubkey list \<Rightarrow> runtime
   \<Rightarrow> (poll_error + poll_outcome) list \<Rightarrow> bool"
  for C J L addresses
where
  run_start: "polling_run C J L addresses (resume C jf identity outcome rt) []"
| run_turn: "polling_run C J L addresses rt rs \<Longrightarrow> \<not> te_cancelled env \<Longrightarrow>
    turn C J L addresses env rt = Some (rt', Running) \<Longrightarrow>
    turn_poll C L addresses env (before_poll C J env rt) = Some (w, r) \<Longrightarrow>
    polling_run C J L addresses rt' (rs @ [r])"

inductive_cases polling_run_snoc: "polling_run C J L addresses rt (rs @ [r])"

definition trackers_count :: "runtime \<Rightarrow> (poll_error + poll_outcome) list \<Rightarrow> bool" where
  "trackers_count rt rs \<longleftrightarrow>
     ahead_streak rs < 3 \<and> consecutive (rt_cursors_ahead rt) = of_nat (ahead_streak rs)
     \<and> gap_streak rs < 3 \<and> consecutive (rt_history_gaps rt) = of_nat (gap_streak rs)"

lemma streak_step:
  "ahead_streak (rs @ [r]) = (case r of
     Inr out \<Rightarrow> 0 | Inl (CursorAheadOfHead a c h) \<Rightarrow> Suc (ahead_streak rs) | Inl _ \<Rightarrow> ahead_streak rs)"
  "gap_streak (rs @ [r]) = (case r of
     Inr out \<Rightarrow> if history_boundary_verified out then 0 else gap_streak rs
   | Inl (HistoryUnavailable b c) \<Rightarrow> Suc (gap_streak rs) | Inl _ \<Rightarrow> gap_streak rs)"
  by (simp_all add: ahead_streak_def gap_streak_def split: sum.splits poll_error.splits)

lemma record_gap_counts:
  assumes "n < 3" "consecutive t = of_nat n"
  shows "fst (record_gap t) \<longleftrightarrow> Suc n = 3" "consecutive (snd (record_gap t)) = of_nat (Suc n)"
proof -
  have "n = 0 \<or> n = 1 \<or> n = 2" using assms(1) by auto
  then show "fst (record_gap t) \<longleftrightarrow> Suc n = 3" "consecutive (snd (record_gap t)) = of_nat (Suc n)"
    using assms(2) by (auto simp: record_gap_def Let_def recovery_disable_after_consecutive_def
        word_le_nat_alt)
qed

lemma after_poll_counts:
  assumes "trackers_count rt rs"
  shows "snd (after_poll r rt) = Parked ''cursor_ahead_of_head'' \<longleftrightarrow> ahead_streak (rs @ [r]) = 3"
    and "snd (after_poll r rt) = Parked ''history_unavailable'' \<longleftrightarrow> gap_streak (rs @ [r]) = 3"
    and "snd (after_poll r rt) = Running \<Longrightarrow> trackers_count (fst (after_poll r rt)) (rs @ [r])"
    and "snd (after_poll r rt) \<in> {Running, Parked ''cursor_ahead_of_head'', Parked ''history_unavailable''}"
    and "snd (after_poll r rt) \<noteq> Running \<Longrightarrow> pw_delivered (rt_world (fst (after_poll r rt))) =
      map_option (\<lambda>dv. dv\<lparr>dv_recording := False, dv_channel := []\<rparr>) (pw_delivered (rt_world rt))"
proof -
  note ahead = record_gap_counts [of "ahead_streak rs" "rt_cursors_ahead rt"]
    and gaps = record_gap_counts [of "gap_streak rs" "rt_history_gaps rt"]
  have t: "ahead_streak rs < 3" "consecutive (rt_cursors_ahead rt) = of_nat (ahead_streak rs)"
    "gap_streak rs < 3" "consecutive (rt_history_gaps rt) = of_nat (gap_streak rs)"
    using assms by (auto simp: trackers_count_def)
  show "snd (after_poll r rt) = Parked ''cursor_ahead_of_head'' \<longleftrightarrow> ahead_streak (rs @ [r]) = 3"
    "snd (after_poll r rt) = Parked ''history_unavailable'' \<longleftrightarrow> gap_streak (rs @ [r]) = 3"
    "snd (after_poll r rt) \<in> {Running, Parked ''cursor_ahead_of_head'', Parked ''history_unavailable''}"
    using t ahead(1) gaps(1)
    by (auto simp: after_poll_def Let_def streak_step case_prod_unfold
        split: sum.splits poll_error.splits)
  show "trackers_count (fst (after_poll r rt)) (rs @ [r])" if "snd (after_poll r rt) = Running"
    using that t ahead gaps
    by (auto simp: after_poll_def Let_def streak_step case_prod_unfold trackers_count_def
        record_recovered_def split: sum.splits poll_error.splits if_splits)
  show "pw_delivered (rt_world (fst (after_poll r rt))) =
      map_option (\<lambda>dv. dv\<lparr>dv_recording := False, dv_channel := []\<rparr>) (pw_delivered (rt_world rt))"
    if "snd (after_poll r rt) \<noteq> Running"
    using that
    by (auto simp: after_poll_def Let_def case_prod_unfold split: sum.splits poll_error.splits if_splits)
qed

lemma trackers_count_world [simp]: "trackers_count (rt\<lparr>rt_world := w\<rparr>) rs = trackers_count rt rs"
  by (simp add: trackers_count_def)

lemma trackers_count_before [simp]:
  "trackers_count (before_poll C J env rt) rs = trackers_count rt rs"
  by (simp add: trackers_count_def)

lemma run_counts: "polling_run C J L addresses rt rs \<Longrightarrow> trackers_count rt rs"
proof (induction rule: polling_run.induct)
  case (run_start jf identity outcome rt)
  show ?case by (simp add: trackers_count_def resume_def Let_def ahead_streak_def gap_streak_def)
next
  case (run_turn rt rs env rt' w r)
  show ?case
  proof (rule turn_cases [OF run_turn(3,2)])
    fix w' r'
    assume t: "turn_poll C L addresses env (before_poll C J env rt) = Some (w', r')"
      "rt' = fst (after_poll r' (before_poll C J env rt\<lparr>rt_world := w'\<rparr>))"
      "Running = (case snd (after_poll r' (before_poll C J env rt\<lparr>rt_world := w'\<rparr>)) of
            Running \<Rightarrow> if te_cancelled_asleep env then Cancelled else Running | p \<Rightarrow> p)"
    have "trackers_count (before_poll C J env rt\<lparr>rt_world := w'\<rparr>) rs"
      using run_turn.IH by simp
    moreover have "snd (after_poll r' (before_poll C J env rt\<lparr>rt_world := w'\<rparr>)) = Running"
      using t(3) by (simp split: turn_end.splits)
    moreover have "r' = r" using t(1) run_turn(4) by simp
    ultimately show ?thesis using after_poll_counts(3) t(2) by blast
  qed
qed

text \<open>
  C22: Recovery is disabled exactly by the third gap of its kind since the endpoint last showed it had
  caught up: a lagging replica that answers once or twice does not disable it, and other failures
  between the gaps do not hide them. A parked poller has stopped the recording of deliveries and
  emptied their channel.
\<close>

theorem parks_after_third_gap:
  assumes "polling_run C J L addresses rt rs" "\<not> te_cancelled env"
    and "turn C J L addresses env rt = Some (rt', e)"
    and "turn_poll C L addresses env (before_poll C J env rt) = Some (w, r)"
  shows "(e = Parked ''cursor_ahead_of_head'' \<longleftrightarrow> ahead_streak (rs @ [r]) = 3)
    \<and> (e = Parked ''history_unavailable'' \<longleftrightarrow> gap_streak (rs @ [r]) = 3)
    \<and> ahead_streak rs < 3 \<and> gap_streak rs < 3
    \<and> (e \<in> {Running, Cancelled}
       \<or> pw_delivered (rt_world rt') = map_option (\<lambda>dv. dv\<lparr>dv_recording := False, dv_channel := []\<rparr>) (pw_delivered w))"
proof (rule turn_cases [OF assms(3,2)])
  fix w' r'
  let ?rt = "before_poll C J env rt\<lparr>rt_world := w'\<rparr>"
  assume t: "turn_poll C L addresses env (before_poll C J env rt) = Some (w', r')"
    "rt' = fst (after_poll r' ?rt)"
    "e = (case snd (after_poll r' ?rt) of
            Running \<Rightarrow> if te_cancelled_asleep env then Cancelled else Running | p \<Rightarrow> p)"
  have eq: "w' = w" "r' = r" using t(1) assms(4) by simp_all
  have count: "trackers_count ?rt rs" using run_counts [OF assms(1)] by simp
  note A = after_poll_counts [OF count, of r]
  have "ahead_streak rs < 3" "gap_streak rs < 3"
    using count by (auto simp: trackers_count_def)
  then show ?thesis
    using A(1,2,4,5) t(2,3) unfolding eq by (auto split: turn_end.splits)
qed

section \<open>Where recorded signatures come from\<close>

lemma quarantined_list: "state_wf st \<Longrightarrow> s \<in> set (quarantined_signatures st) \<longleftrightarrow> is_quarantined st s"
  by (force simp: quarantined_signatures_def is_quarantined_def state_wf_def om_get_Some)

text \<open>
  Processing the fetched transactions records only signatures it quarantines, and leaves the
  quarantine of the others alone.
\<close>

definition only_quarantine :: "signature set \<Rightarrow> polling_state \<Rightarrow> polling_state \<Rightarrow> bool" where
  "only_quarantine S st st' \<longleftrightarrow> state_wf st'
     \<and> (\<forall>t. has_recent_signature st' t \<longrightarrow> has_recent_signature st t \<or> t \<in> S \<and> is_quarantined st' t)
     \<and> (\<forall>t. t \<notin> S \<longrightarrow> is_quarantined st' t = is_quarantined st t)"

lemma process_all_quarantines:
  "state_wf st \<Longrightarrow> distinct (map fst fs) \<Longrightarrow>
    only_quarantine (fst ` set fs) st (pr_state (process_all C L ctxs fs st))"
proof (induction fs rule: rev_induct)
  case Nil
  then show ?case by (simp add: process_all_def only_quarantine_def)
next
  case (snoc x fs)
  obtain s f where x: "x = (s, f)" by (cases x)
  define p where "p = process_all C L ctxs fs st"
  have ih: "only_quarantine (fst ` set fs) st (pr_state p)" and new: "s \<notin> fst ` set fs"
    using snoc x by (auto simp: p_def)
  then have wf: "state_wf (pr_state p)" by (simp add: only_quarantine_def)
  have step: "process_all C L ctxs (fs @ [(s, f)]) st = process_one C L ctxs (s, f) p"
    by (simp add: process_all_def p_def)
  note others = is_quarantined_others [OF wf]
  from wf show ?case
  proof (cases rule: process_one_cases [where C = C and L = L and ctxs = ctxs and s = s and f = f])
    case (success sl u)
    show ?thesis
      using ih new wf others unfolding x step success(1)
      by (auto simp: only_quarantine_def) (metis others(2))
  next
    case (retry st' ms)
    then show ?thesis
      using ih new wf others unfolding x step retry(1)
      by (auto simp: only_quarantine_def) (metis others(1))+
  next
    case (quarantine ms)
    then show ?thesis
      using ih new wf others unfolding x step quarantine(1)
      by (auto simp: only_quarantine_def) (metis others(1))+
  qed
qed

text \<open>
  A signature a poll leaves recorded was known before, was sent by the poll, or is quarantined; and
  the quarantine of a known signature is not touched.
\<close>

definition recorded_from :: "poll_world \<Rightarrow> poll_world \<Rightarrow> bool" where
  "recorded_from w w' \<longleftrightarrow> state_wf (pw_state w')
     \<and> (\<forall>t. has_recent_signature (pw_state w') t \<longrightarrow>
          known_signature w t \<or> t \<in> sent_signatures (newly_sent w w') \<or> is_quarantined (pw_state w') t)
     \<and> (\<forall>t. known_signature w t \<longrightarrow> is_quarantined (pw_state w') t = is_quarantined (pw_state w) t)"

lemma finished_recent_before:
  assumes "state_wf st" "has_recent_signature (finished_state C rw head bs retrying st) t"
  shows "has_recent_signature st t"
  using assms finished_recent by (auto simp: has_recent_get)

lemma poll_recorded_from:
  assumes "poll C L rw addresses env w = Some (w', r)" "state_wf (pw_state w)" "completion_ok env"
  shows "recorded_from w w'"
  using assms(1,2)
proof (cases rule: poll_cases)
  case (early e)
  then show ?thesis
    using prepare_any assms(2) by (fastforce simp: recorded_from_def is_quarantined_def)
next
  case (deliver w1 head initialized verified d)
  note batches = prepared_batches [OF deliver(1,2) assms(2)]
  have w1: "state_wf (pw_state w1)" "pw_sent w1 = pw_sent w"
      "\<And>t. has_recent_signature (pw_state w1) t \<longleftrightarrow> known_signature w t"
      "\<And>t. is_quarantined (pw_state w1) t = is_quarantined (pw_state w) t"
    using prepare_any [OF deliver(1) assms(2)] by (auto simp: is_quarantined_def)
  obtain p fs k where keys: "fst ` set fs = set (signatures_to_fetch (dc_contexts d) (pw_state w1))"
    and proc: "processed (dc_contexts d) fs (pw_state w1) p"
    and sent: "pw_sent w' = pw_sent w1 @ sent_updates (take k (ready_updates (dc_contexts d) p))"
    and final: "case r of
       Inl e \<Rightarrow> pw_state w' =
         record_deliveries (sent_pairs (take k (ready_updates (dc_contexts d) p))) (pr_state p)
     | Inr out \<Rightarrow> k = length (ready_updates (dc_contexts d) p) \<and> queued_transactions out = k
         \<and> pw_state w' = finished_state C rw head (dc_batches d) (pr_retrying p)
             (record_deliveries (sent_pairs (ready_updates (dc_contexts d) p)) (pr_state p))"
    and p: "p = process_all C L (dc_contexts d) fs (pw_state w1)" "distinct (map fst fs)"
    by (rule deliver_all [OF deliver(3) batches(1) assms(3) w1(1)]) blast
  let ?us = "take k (ready_updates (dc_contexts d) p)"
  let ?S = "record_deliveries (sent_pairs ?us) (pr_state p)"
  have only: "only_quarantine (fst ` set fs) (pw_state w1) (pr_state p)"
    unfolding p(1) by (rule process_all_quarantines [OF w1(1) p(2)])
  then have wf: "state_wf (pr_state p)" by (simp add: only_quarantine_def)
  have "update_signature (snd (snd x)) = Some (fst x)" if "x \<in> set ?us" for x
    using ready_signature(1) [OF proc] in_set_takeD [OF that] by blast
  then have sentS: "sent_signatures (newly_sent w w') = fst ` set ?us"
    using sent w1(2) by (force simp: sent_signatures_def newly_sent_def image_iff)
  have state: "state_wf (pw_state w')"
    "\<And>t. has_recent_signature (pw_state w') t \<Longrightarrow> has_recent_signature ?S t"
    "\<And>t. is_quarantined (pw_state w') t = is_quarantined (pr_state p) t"
    using final wf finished_recent_before [of ?S C rw head "dc_batches d" "pr_retrying p"]
    by (auto simp: finished_wf split: sum.splits)
  have known: "t \<notin> fst ` set fs" if "known_signature w t" for t
    using that keys w1(3) by (auto simp: signatures_to_fetch_def)
  show ?thesis
    unfolding recorded_from_def
  proof (intro conjI allI impI)
    fix t
    assume "has_recent_signature (pw_state w') t"
    then have "has_recent_signature (pr_state p) t \<or> t \<in> fst ` set ?us"
      using state(2) record_deliveries_recent [OF wf, of "sent_pairs ?us" t] by (auto simp: image_iff)
    then show "known_signature w t \<or> t \<in> sent_signatures (newly_sent w w') \<or> is_quarantined (pw_state w') t"
      using only w1(3) state(3) by (auto simp: sentS only_quarantine_def)
  next
    fix t
    assume "known_signature w t"
    then show "is_quarantined (pw_state w') t = is_quarantined (pw_state w) t"
      using only known [of t] w1(4) by (simp add: state(3) only_quarantine_def)
  qed (rule state(1))
qed

section \<open>The files a turn writes\<close>

lemma save_file:
  assumes "om_wf d" "save_if_due C J f now at curs recent q act cs d = (cs', d', r)"
  shows "om_wf d'"
    and "om_get d' (cs_name cs) \<in> {om_get d (cs_name cs), Some (checkpoint_text C J cs curs recent q)}"
    and "m \<noteq> cs_name cs \<Longrightarrow> m \<noteq> temporary_path (cs_name cs) \<Longrightarrow> om_get d' m = om_get d m"
proof -
  have "om_wf d' \<and> om_get d' (cs_name cs) \<in> {om_get d (cs_name cs), Some (checkpoint_text C J cs curs recent q)}
      \<and> (m \<noteq> cs_name cs \<longrightarrow> m \<noteq> temporary_path (cs_name cs) \<longrightarrow> om_get d' m = om_get d m)"
    using assms(2)
  proof (cases rule: save_cases)
    case 2
    then show ?thesis
      using checkpoint_file.law_old_or_new [OF assms(1)] checkpoint_file.law_frame [OF assms(1)]
        checkpoint_file.law_wf [OF assms(1)] by auto
  qed (use assms(1) in auto)
  then show "om_wf d'"
    "om_get d' (cs_name cs) \<in> {om_get d (cs_name cs), Some (checkpoint_text C J cs curs recent q)}"
    "m \<noteq> cs_name cs \<Longrightarrow> m \<noteq> temporary_path (cs_name cs) \<Longrightarrow> om_get d' m = om_get d m"
    by blast+
qed

lemma rewrite_cases:
  assumes "rewrite C u f name minimum js d = ((js', d'), r)"
  obtains "d' = d" | c where "d' = fst (replace f name c ''shipped journal'' d)"
proof (cases "read_journal C u name d")
  case (Inl e)
  then show thesis using assms that(1) by (simp add: rewrite_def)
next
  case (Inr q)
  obtain header es where q: "q = (header, es)" by (cases q)
  let ?kept = "filter (\<lambda>e. minimum < snd e) es"
  obtain d2 x where rep: "install_compacted f name (compacted_text C header ?kept) d = (d2, x)"
    by (cases "install_compacted f name (compacted_text C header ?kept) d")
  have "d' = (if length ?kept = length es then d else d2)"
    using assms Inr q rep by (cases x; simp add: rewrite_def Let_def split: if_splits)
  then show thesis using that(1) that(2) [of "compacted_text C header ?kept"] rep
      install_compacted_replace(1) [of f name "compacted_text C header ?kept" d "''shipped journal''"]
    by (cases "length ?kept = length es") simp_all
qed

definition journal_clear_of :: "journal option \<Rightarrow> string \<Rightarrow> bool" where
  "journal_clear_of j name \<longleftrightarrow>
     (case j of None \<Rightarrow> True | Some jn \<Rightarrow> name \<noteq> jn_name jn \<and> name \<noteq> temporary_path (jn_name jn))"

lemma compact_file:
  assumes "om_wf d" "compact C u f minimum j d = (j', d')"
  shows "om_wf d'" "journal_clear_of j m \<Longrightarrow> om_get d' m = om_get d m"
proof -
  have "om_wf d' \<and> (journal_clear_of j m \<longrightarrow> om_get d' m = om_get d m)"
  proof (cases j)
    case (Some jn)
    obtain js r where "rewrite C u f (jn_name jn) minimum (jn_state jn) d = ((js, d'), r)"
      using assms(2) Some by (auto simp: compact_def split: prod.splits)
    then show ?thesis
      using assms(1) Some
      by (cases rule: rewrite_cases)
        (auto simp: journal_clear_of_def replaced.law_wf replaced.law_frame)
  qed (use assms in \<open>simp add: compact_def\<close>)
  then show "om_wf d'" "journal_clear_of j m \<Longrightarrow> om_get d' m = om_get d m" by blast+
qed

text \<open>The checkpoint a turn leaves: the previous one, or the document of the processed progress.\<close>

definition processed_text :: "codec \<Rightarrow> document_codec \<Rightarrow> checkpoint_store \<Rightarrow> progress_snapshot \<Rightarrow> string" where
  "processed_text C J cs p = checkpoint_text C J cs (ps_cursors p) (ps_recent p) (ps_quarantined p)"

lemma save_progress_file:
  assumes "om_wf (rt_directory rt)" "journal_clear_of (rt_journal rt) (cs_name (rt_store rt))"
  shows "om_get (rt_directory (save_progress C J env rt)) (cs_name (rt_store rt)) \<in>
    {om_get (rt_directory rt) (cs_name (rt_store rt)), Some (processed_text C J (rt_store rt) (rt_processed rt))}"
proof -
  let ?p = "rt_processed rt"
  obtain cs d r where s: "save_if_due C J (te_save_faults env) (te_now env) (te_saved_at env) (ps_cursors ?p)
      (ps_recent ?p) (ps_quarantined ?p) (rt_urgent rt) (rt_store rt) (rt_directory rt) = (cs, d, r)"
    by (metis prod_cases3)
  note F = save_file [OF assms(1) s]
  show ?thesis
  proof (cases "r = Inr True")
    case True
    obtain j d' where c: "compact C (te_journal_unreadable env) (te_journal_faults env)
        (unreachable_below (lowest_cursor (ps_cursors ?p)) (cs_replay_window cs)) (rt_journal rt) d = (j, d')"
      by (cases "compact C (te_journal_unreadable env) (te_journal_faults env)
        (unreachable_below (lowest_cursor (ps_cursors ?p)) (cs_replay_window cs)) (rt_journal rt) d")
    have "rt_directory (save_progress C J env rt) = d'"
      using s c True by (simp add: save_progress_def Let_def)
    then show ?thesis
      using compact_file(2) [OF F(1) c assms(2)] F(2) by (simp add: processed_text_def)
  next
    case False
    then have "rt_directory (save_progress C J env rt) = d"
      using s by (cases r) (auto simp: save_progress_def Let_def split: bool.splits)
    then show ?thesis using F(2) by (simp add: processed_text_def)
  qed
qed

text \<open>A save that is due and meets no fault writes the document.\<close>

lemma due_save_written:
  assumes "om_wf (rt_directory rt)" "journal_clear_of (rt_journal rt) (cs_name (rt_store rt))"
    and "om_keys (ps_cursors (rt_processed rt)) = ci_addresses (cs_identity (rt_store rt))"
    and "checkpoint_due (rt_store rt) (te_now env) (rt_urgent rt)" "te_save_faults env = no_faults"
  shows "om_get (rt_directory (save_progress C J env rt)) (cs_name (rt_store rt))
    = Some (processed_text C J (rt_store rt) (rt_processed rt))"
proof -
  let ?p = "rt_processed rt" and ?t = "processed_text C J (rt_store rt) (rt_processed rt)"
  have ok: "snd (write_checkpoint no_faults (cs_name (rt_store rt)) ?t (rt_directory rt)) = Inr ()"
    by (simp add: write_checkpoint_def no_faults_def write_file_def)
  then obtain d where d: "write_checkpoint no_faults (cs_name (rt_store rt)) ?t (rt_directory rt) = (d, Inr ())"
    by (metis prod.collapse)
  have held: "om_get d (cs_name (rt_store rt)) = Some ?t" and wf: "om_wf d"
    using checkpoint_file.law_success [OF assms(1), of no_faults "cs_name (rt_store rt)" ?t]
      checkpoint_file.law_wf [OF assms(1), of no_faults "cs_name (rt_store rt)" ?t] d by simp_all
  have s: "save_if_due C J (te_save_faults env) (te_now env) (te_saved_at env) (ps_cursors ?p)
      (ps_recent ?p) (ps_quarantined ?p) (rt_urgent rt) (rt_store rt) (rt_directory rt)
    = (rt_store rt\<lparr>cs_last_write_completed_at := Some (te_saved_at env)\<rparr>, d, Inr True)"
    using assms(3-5) d by (simp add: save_if_due_def processed_text_def)
  obtain j d' where c: "compact C (te_journal_unreadable env) (te_journal_faults env)
      (unreachable_below (lowest_cursor (ps_cursors ?p)) (cs_replay_window (rt_store rt))) (rt_journal rt) d = (j, d')"
    by (cases "compact C (te_journal_unreadable env) (te_journal_faults env)
      (unreachable_below (lowest_cursor (ps_cursors ?p)) (cs_replay_window (rt_store rt))) (rt_journal rt) d")
  then have "rt_directory (save_progress C J env rt) = d'"
    using s by (simp add: save_progress_def Let_def)
  then show ?thesis using compact_file(2) [OF wf c assms(2)] held by simp
qed

lemma before_poll_file:
  assumes "om_wf (rt_directory rt)" "journal_clear_of (rt_journal rt) (cs_name (rt_store rt))"
  shows "om_get (rt_directory (before_poll C J env rt)) (cs_name (rt_store rt)) \<in>
    {om_get (rt_directory rt) (cs_name (rt_store rt)),
     Some (processed_text C J (rt_store rt) (rt_processed (before_poll C J env rt)))}"
  using save_progress_file [of "advance_processed env (count_quarantined_files env rt)" C J env] assms
  by (simp add: before_poll_def)

section \<open>The checkpoint holds processed progress\<close>

text \<open>
  The process and its pipeline. Yellowstone and the poller send into the pipeline's channel, and so do
  updates that are no transactions; the pipeline dequeues and finishes what it holds in any order;
  and the loop takes its turns, in two steps, so that anything may happen between the part that
  saves and the poll.
\<close>

inductive pipeline_run ::
  "codec \<Rightarrow> document_codec \<Rightarrow> rpc_library \<Rightarrow> pubkey list \<Rightarrow> signature set
   \<Rightarrow> runtime \<Rightarrow> pipeline \<Rightarrow> signature set \<Rightarrow> signature set \<Rightarrow> bool"
  for C J L addresses restored
where
  pipeline_start: "state_wf (pw_state (rt_world rt)) \<Longrightarrow>
    restored = {s. has_recent_signature (pw_state (rt_world rt)) s} \<Longrightarrow>
    rt_processed rt = snapshot_of (pw_state (rt_world rt)) \<Longrightarrow>
    pw_delivered (rt_world rt) \<in> {None, Some new_delivered} \<Longrightarrow>
    pipeline_run C J L addresses restored rt idle_pipeline {} {}"
| pipeline_delivery: "pipeline_run C J L addresses restored rt P emitted shipped \<Longrightarrow>
    pw_delivered (rt_world rt) = Some dv \<Longrightarrow>
    pipeline_run C J L addresses restored
      (rt\<lparr>rt_world := (rt_world rt)\<lparr>pw_delivered := Some (record_delivery s sl dv)\<rparr>\<rparr>)
      (enqueue_updates [Some s] P) (insert s emitted) shipped"
| pipeline_other: "pipeline_run C J L addresses restored rt P emitted shipped \<Longrightarrow>
    pipeline_run C J L addresses restored rt (enqueue_updates [None] P) emitted shipped"
| pipeline_dequeue: "pipeline_run C J L addresses restored rt P emitted shipped \<Longrightarrow>
    dequeue_update u P = Some P' \<Longrightarrow>
    pipeline_run C J L addresses restored rt P' emitted shipped"
| pipeline_finish: "pipeline_run C J L addresses restored rt P emitted shipped \<Longrightarrow>
    finish_update u P = Some P' \<Longrightarrow>
    pipeline_run C J L addresses restored rt P' emitted (shipped \<union> set_option u)"
| pipeline_save: "pipeline_run C J L addresses restored rt P emitted shipped \<Longrightarrow>
    reported P (te_channel_empty env) (te_snapshot env) \<Longrightarrow>
    pipeline_run C J L addresses restored (before_poll C J env rt) P emitted shipped"
| pipeline_poll: "pipeline_run C J L addresses restored rt P emitted shipped \<Longrightarrow>
    completion_ok (te_poll env) \<Longrightarrow> turn_poll C L addresses env rt = Some (w, r) \<Longrightarrow>
    pipeline_run C J L addresses restored (fst (after_poll r (rt\<lparr>rt_world := w\<rparr>)))
      (enqueue_updates (map update_signature (newly_sent (rt_world rt) w)) P)
      (emitted \<union> sent_signatures (newly_sent (rt_world rt) w)) shipped"

lemma run_carries: "pipeline_run C J L addresses restored rt P emitted shipped \<Longrightarrow> carries P emitted shipped"
proof (induction rule: pipeline_run.induct)
  case (pipeline_poll rt P emitted shipped env w r)
  then show ?case by (elim carries_enqueue) (auto simp: sent_signatures_def image_iff)
qed (auto intro: carries_idle carries_enqueue carries_dequeue carries_finish)

definition accounted :: "signature set \<Rightarrow> runtime \<Rightarrow> signature set \<Rightarrow> bool" where
  "accounted restored rt emitted \<longleftrightarrow> state_wf (pw_state (rt_world rt))
     \<and> (\<forall>t. known_signature (rt_world rt) t \<longrightarrow>
          t \<in> restored \<or> t \<in> emitted \<or> is_quarantined (pw_state (rt_world rt)) t)"

definition snapshot_accounted :: "signature set \<Rightarrow> progress_snapshot \<Rightarrow> signature set \<Rightarrow> bool" where
  "snapshot_accounted restored p shipped \<longleftrightarrow>
     {s. om_contains (ps_recent p) s} \<subseteq> restored \<union> shipped \<union> set (ps_quarantined p)"

lemma after_poll_sent [simp]: "pw_sent (rt_world (fst (after_poll r rt))) = pw_sent (rt_world rt)"
  by (auto simp: after_poll_def Let_def park_def emit_rt_def emit_def
      split: sum.splits poll_error.splits prod.splits)

lemma after_poll_known:
  "known_signature (rt_world (fst (after_poll r rt))) t \<Longrightarrow> known_signature (rt_world rt) t"
  by (auto simp: after_poll_def Let_def known_signature_def
      split: sum.splits poll_error.splits prod.splits if_splits)

lemma drained_snapshot:
  assumes "accounted restored rt emitted" "emitted \<subseteq> shipped"
  shows "snapshot_accounted restored (snapshot_of (pw_state (rt_world rt))) shipped"
proof -
  let ?st = "pw_state (rt_world rt)"
  have "s \<in> restored \<or> s \<in> shipped \<or> s \<in> set (quarantined_signatures ?st)"
    if "has_recent_signature ?st s" for s
    using that assms quarantined_list [of ?st s] unfolding accounted_def known_signature_def by blast
  then show ?thesis
    by (auto simp: snapshot_accounted_def snapshot_of_def has_recent_signature_def)
qed

lemma save_accounts:
  assumes "accounted restored rt emitted" "snapshot_accounted restored (rt_processed rt) shipped"
    and "pipeline_drained (te_channel_empty env) (te_snapshot env) \<Longrightarrow> emitted \<subseteq> shipped"
  shows "accounted restored (before_poll C J env rt) emitted"
    and "snapshot_accounted restored (rt_processed (before_poll C J env rt)) shipped"
  using assms drained_snapshot [OF assms(1)]
  by (auto simp: accounted_def known_signature_def before_poll_processed)

lemma poll_accounts:
  assumes p: "turn_poll C L addresses env rt = Some (w, r)" and ok: "completion_ok (te_poll env)"
    and inv: "accounted restored rt emitted"
  shows "accounted restored (fst (after_poll r (rt\<lparr>rt_world := w\<rparr>)))
    (emitted \<union> sent_signatures (newly_sent (rt_world rt) w))"
proof -
  let ?rt' = "fst (after_poll r (rt\<lparr>rt_world := w\<rparr>))"
  have poll: "poll C L (cs_replay_window (rt_store rt)) addresses (te_poll env) (rt_world rt) = Some (w, r)"
    using p by (simp add: turn_poll_def)
  have wf: "state_wf (pw_state (rt_world rt))" using inv by (simp add: accounted_def)
  note R = poll_recorded_from [OF poll wf ok]
  have known_w: "known_signature w t = has_recent_signature (pw_state w) t" for t
    by (rule known_after_poll(1) [OF poll_recording [OF poll wf]])
  have state: "pw_state (rt_world ?rt') = pw_state w" by simp
  show ?thesis
    unfolding accounted_def state
  proof (intro conjI allI impI)
    show "state_wf (pw_state w)" using R by (simp add: recorded_from_def)
    fix t
    assume "known_signature (rt_world ?rt') t"
    then have "has_recent_signature (pw_state w) t"
      using after_poll_known [of r "rt\<lparr>rt_world := w\<rparr>" t] by (simp add: known_w)
    then consider "known_signature (rt_world rt) t" "is_quarantined (pw_state w) t = is_quarantined (pw_state (rt_world rt)) t"
      | "t \<in> sent_signatures (newly_sent (rt_world rt) w)" | "is_quarantined (pw_state w) t"
      using R by (auto simp: recorded_from_def)
    then show "t \<in> restored \<or> t \<in> emitted \<union> sent_signatures (newly_sent (rt_world rt) w)
        \<or> is_quarantined (pw_state w) t"
      using inv by cases (auto simp: accounted_def)
  qed
qed

lemma run_accounted:
  "pipeline_run C J L addresses restored rt P emitted shipped \<Longrightarrow>
    accounted restored rt emitted \<and> snapshot_accounted restored (rt_processed rt) shipped"
proof (induction rule: pipeline_run.induct)
  case (pipeline_start rt)
  then show ?case
    by (auto simp: accounted_def snapshot_accounted_def snapshot_of_def known_signature_def
        new_delivered_def has_recent_signature_def)
next
  case (pipeline_delivery rt P emitted shipped dv s sl)
  then show ?case
    by (auto simp: accounted_def known_signature_def record_delivery_def send_delivery_def)
next
  case (pipeline_finish rt P emitted shipped u P')
  then show ?case by (auto simp: snapshot_accounted_def)
next
  case (pipeline_save rt P emitted shipped env)
  note save_accounts [OF conjunct1 [OF pipeline_save.IH] conjunct2 [OF pipeline_save.IH]
      drained_finished [OF run_carries [OF pipeline_save(1)] pipeline_save(2)]]
  then show ?case by blast
next
  case (pipeline_poll rt P emitted shipped env w r)
  then show ?case using poll_accounts [OF pipeline_poll(3,2)] by simp
qed auto

text \<open>
  C21: The checkpoint never runs ahead of the pipeline, whatever the channel and the counters of the
  pipeline went through: what a turn leaves in the checkpoint file is what was there or the document
  of the processed progress, and every signature that document suppresses was restored at the
  start, has been finished by the pipeline, or is quarantined in the same document. A kill
  therefore loses no emitted transaction to its own checkpoint.
\<close>

theorem checkpoint_holds_processed_progress:
  assumes "pipeline_run C J L addresses restored rt P emitted shipped"
    and "\<not> te_cancelled env" "reported P (te_channel_empty env) (te_snapshot env)"
    and "om_wf (rt_directory rt)" "journal_clear_of (rt_journal rt) (cs_name (rt_store rt))"
    and "turn C J L addresses env rt = Some (rt', e)"
  shows "om_get (rt_directory rt') (cs_name (rt_store rt)) \<in>
      {om_get (rt_directory rt) (cs_name (rt_store rt)),
       Some (processed_text C J (rt_store rt) (rt_processed rt'))}
    \<and> {s. om_contains (ps_recent (rt_processed rt')) s}
        \<subseteq> restored \<union> shipped \<union> set (ps_quarantined (rt_processed rt'))"
proof -
  let ?b = "before_poll C J env rt"
  obtain w r where "rt' = fst (after_poll r (?b\<lparr>rt_world := w\<rparr>))"
    by (rule turn_cases [OF assms(6,2)])
  then have files: "rt_directory rt' = rt_directory ?b" "rt_processed rt' = rt_processed ?b"
    by simp_all
  have "snapshot_accounted restored (rt_processed ?b) shipped"
    using run_accounted [OF pipeline_save [OF assms(1,3)]] by blast
  then show ?thesis
    using before_poll_file [OF assms(4,5), of C J env] unfolding files snapshot_accounted_def by simp
qed

end
