(* ===== verification/Restart.thy ===== *)
theory Restart
  imports Runtime_Safety
begin

text \<open>
  The restart: the state resumed from a checkpoint and a journal suppresses what either records and
  everything at or below a floor two replay windows under the durable slot, so the polls of the
  next process do not emit it again. Then the failing loads, and examples of a first turn.
\<close>

section \<open>The resumed state\<close>

text \<open>The shape every snapshot of a well-formed polling state has, with a cursor for each address.\<close>

definition snapshot_ok :: "codec \<Rightarrow> checkpoint_store \<Rightarrow> pubkey list \<Rightarrow> progress_snapshot \<Rightarrow> bool" where
  "snapshot_ok C cs addresses p \<longleftrightarrow>
     om_wf (ps_cursors p) \<and> om_wf (ps_recent p)
     \<and> sorted (ps_quarantined p) \<and> distinct (ps_quarantined p)
     \<and> om_keys (ps_cursors p) = ci_addresses (cs_identity cs)
     \<and> key_str C ` set addresses \<subseteq> set (om_keys (ps_cursors p))"

lemma snapshot_of_shape:
  assumes "state_wf st"
  shows "om_wf (ps_cursors (snapshot_of st))" "om_wf (ps_recent (snapshot_of st))"
    "sorted (ps_quarantined (snapshot_of st))" "distinct (ps_quarantined (snapshot_of st))"
proof -
  have "om_wf (filter (\<lambda>e. pf_quarantined (snd e)) (poison_failures st))"
    using assms by (simp add: state_wf_def om_wf_filter)
  then show "sorted (ps_quarantined (snapshot_of st))" "distinct (ps_quarantined (snapshot_of st))"
    by (simp_all add: snapshot_of_def quarantined_signatures_def om_wf_def om_keys_def
        strict_sorted_iff)
qed (use assms in \<open>simp_all add: snapshot_of_def state_wf_def\<close>)

lemma lowest_cursor_le:
  assumes "(k, c) \<in> set cs"
  shows "lowest_cursor cs \<le> scanned_slot c"
proof -
  have m: "scanned_slot c \<in> set (map scanned_slot (om_values cs))"
    using assms by (force simp: om_values_def)
  show ?thesis
    using minimum_opt_le [OF _ m] by (auto simp: lowest_cursor_def split: option.splits)
qed

lemma resume_state_frame:
  "cursors (resume_state sn) = sn_cursors sn"
  "recent_signatures (resume_state sn) = sn_recent_signatures sn"
  by (simp_all add: resume_state_def)

lemma resume_state_wf:
  assumes "om_wf (sn_cursors sn)" "om_wf (sn_recent_signatures sn)"
  shows "state_wf (resume_state sn)"
  unfolding resume_state_def
  by (rule state_wf_restore) (use assms in \<open>simp add: state_wf_def polling_state_default_def\<close>)

lemma resume_loaded:
  assumes "om_get d (jn_name jn) = Some (compacted_text C (Some identity) es)"
    and "codec_ok C" "plain_line identity" "\<not> rf_read (jf_restore jf)"
    and "rt_journal rt = Some jn" "rt_directory rt = d"
  shows "pw_state (rt_world (resume C jf identity (Loaded sn) rt)) = record_deliveries es (resume_state sn)"
    and "pw_delivered (rt_world (resume C jf identity (Loaded sn) rt)) = pw_delivered (rt_world rt)"
    and "rt_processed (resume C jf identity (Loaded sn) rt) = snapshot_of (record_deliveries es (resume_state sn))"
proof -
  have read: "read_journal C (rf_read (jf_restore jf)) (jn_name jn) d = Inr (Some identity, es)"
    using assms read_compacted [OF assms(2,3), of es "[]"] by (simp add: read_journal_def)
  show "pw_state (rt_world (resume C jf identity (Loaded sn) rt)) = record_deliveries es (resume_state sn)"
    "pw_delivered (rt_world (resume C jf identity (Loaded sn) rt)) = pw_delivered (rt_world rt)"
    "rt_processed (resume C jf identity (Loaded sn) rt) = snapshot_of (record_deliveries es (resume_state sn))"
    using read assms(5,6) by (simp_all add: resume_def restore_def Let_def)
qed

section \<open>Suppression across the restart\<close>

text \<open>What the files of a dead process record, and everything at or below the floor.\<close>

definition recorded_by :: "(signature \<Rightarrow> slot) \<Rightarrow> nat \<Rightarrow> progress_snapshot \<Rightarrow> entry list \<Rightarrow> signature set" where
  "recorded_by slot_of floor p es =
     {s. om_contains (ps_recent p) s} \<union> fst ` set es \<union> {s. unat (slot_of s) \<le> floor}"

definition files_agree :: "(signature \<Rightarrow> slot) \<Rightarrow> progress_snapshot \<Rightarrow> entry list \<Rightarrow> bool" where
  "files_agree slot_of p es \<longleftrightarrow>
     (\<forall>s sl. om_get (ps_recent p) s = Some sl \<longrightarrow> sl = slot_of s) \<and> (\<forall>e \<in> set es. snd e = slot_of (fst e))"

definition floor_ok :: "nat \<Rightarrow> slot \<Rightarrow> progress_snapshot \<Rightarrow> slot \<Rightarrow> bool" where
  "floor_ok floor rw p h \<longleftrightarrow>
     floor = 0 \<or> floor + 2 * unat rw \<le> unat (lowest_cursor (ps_cursors p)) \<and> floor + unat rw \<le> unat h"

abbreviation rewound :: "slot \<Rightarrow> (string, address_cursor) omap \<Rightarrow> (string, address_cursor) omap" where
  "rewound rw cs \<equiv> map (\<lambda>e. (fst e, \<lparr>scanned_slot = sat_sub (scanned_slot (snd e)) rw\<rparr>)) cs"

lemma rewound_from:
  assumes "om_wf cs" "n + unat rw \<le> unat (lowest_cursor cs)" "om_get (rewound rw cs) k = Some c"
  shows "n \<le> unat (scanned_slot c)"
proof -
  obtain c0 where c0: "om_get cs k = Some c0" "c = \<lparr>scanned_slot = sat_sub (scanned_slot c0) rw\<rparr>"
    using assms(3) om_get_map_values [of "\<lambda>c. \<lparr>scanned_slot = sat_sub (scanned_slot c) rw\<rparr>" cs k]
    by auto
  have "lowest_cursor cs \<le> scanned_slot c0"
    using c0(1) om_get_Some [OF assms(1)] lowest_cursor_le by blast
  then have "n + unat rw \<le> unat (scanned_slot c0)"
    using assms(2) by (simp add: word_le_nat_alt)
  then show ?thesis by (simp add: c0(2) unat_sat_sub)
qed

lemma resumed_suppresses:
  assumes shape: "snapshot_ok C cs addresses p" and agree: "files_agree slot_of p es"
    and floor: "floor_ok floor rw p h"
    and state: "pw_state w = record_deliveries es (resume_state
      \<lparr>sn_cursors = rewound rw (ps_cursors p), sn_recent_signatures = ps_recent p,
       sn_quarantined_signatures = q\<rparr>)"
    and dv: "pw_delivered w \<in> {None, Some new_delivered}"
  shows "suppresses C rw addresses slot_of (recorded_by slot_of floor p es) h floor w"
proof -
  let ?sn = "\<lparr>sn_cursors = rewound rw (ps_cursors p), sn_recent_signatures = ps_recent p,
       sn_quarantined_signatures = q\<rparr>"
  have wf0: "state_wf (resume_state ?sn)"
    using shape by (intro resume_state_wf) (simp_all add: snapshot_ok_def)
  have wf: "state_wf (pw_state w)" unfolding state by (rule record_deliveries_wf [OF wf0])
  have cursors: "cursors (pw_state w) = rewound rw (ps_cursors p)"
    by (simp add: state resume_state_frame)
  have recent: "has_recent_signature (pw_state w) t \<longleftrightarrow> om_contains (ps_recent p) t \<or> t \<in> fst ` set es" for t
    unfolding state record_deliveries_recent [OF wf0]
    by (simp add: has_recent_signature_def resume_state_frame)
  have "slots_agree slot_of (resume_state ?sn)"
    using agree by (simp add: slots_agree_def files_agree_def resume_state_frame)
  then have "slots_agree slot_of (pw_state w)"
    unfolding state using agree by (intro record_deliveries_agree [OF wf0]) (auto simp: files_agree_def)
  moreover have "channel_agrees slot_of w"
    using dv by (auto simp: channel_agrees_def new_delivered_def)
  moreover have "\<forall>s \<in> recorded_by slot_of floor p es. known_signature w s \<or> unat (slot_of s) \<le> floor"
    using recent by (auto simp: recorded_by_def known_signature_def)
  moreover have "cursors_from (floor + unat rw) (pw_state w)" if "floor \<noteq> 0"
  proof -
    have "floor + unat rw + unat rw \<le> unat (lowest_cursor (ps_cursors p))"
      using floor that by (simp add: floor_ok_def)
    then show ?thesis
      unfolding cursors_from_def cursors
      using rewound_from shape by (meson snapshot_ok_def)
  qed
  moreover have "cursor_of C w a \<noteq> None" if "a \<in> set addresses" for a
  proof -
    have "key_str C a \<in> set (om_keys (ps_cursors p))"
      using shape that by (auto simp: snapshot_ok_def)
    then show ?thesis
      using shape om_get_map_values [of "\<lambda>c. \<lparr>scanned_slot = sat_sub (scanned_slot c) rw\<rparr>"
          "ps_cursors p" "key_str C a"]
        om_get_Some [of "ps_cursors p" "key_str C a"]
      by (auto simp: cursor_of_def cursors snapshot_ok_def set_om_keys)
  qed
  ultimately show ?thesis
    using wf floor unfolding suppresses_def remembers_def floor_ok_def by blast
qed

text \<open>
  C20: A restart does not emit again: after the load of the checkpoint and of the journal of the same
  deployment, the first poll sends none of the transactions the checkpoint recorded, none of the
  journalled ones and none at or below a floor two replay windows under the durable slot, and
  leaves a state that keeps suppressing them in the polls that follow.
\<close>

theorem restart_resumes_suppression:
  assumes codec: "codec_ok C" "plain_line identity"
    and shape: "snapshot_ok C cs addresses p" and agree: "files_agree slot_of p es"
    and json: "json_restores J (checkpoint_document_of C cs (ps_cursors p) (ps_recent p) (ps_quarantined p))"
    and files: "om_get d (cs_name cs) = Some (processed_text C J cs p)"
      "om_get d (jn_name jn) = Some (compacted_text C (Some identity) es)"
    and rt0: "rt_store rt0 = cs" "rt_directory rt0 = d" "rt_journal rt0 = Some jn"
      "pw_delivered (rt_world rt0) \<in> {None, Some new_delivered}"
    and answers: "\<not> fail_read (la_faults (lenv 0))" "\<not> rf_read (jf_restore jf)"
    and start: "load_checkpoint C J lenv jf identity 0 rt0 = (rt1, Inr outcome)"
    and floor: "floor_ok floor (cs_replay_window cs) p h"
    and window: "addresses \<noteq> []" "2 * unat (cs_replay_window cs) < 2 ^ 64"
    and env: "completion_ok env" "env_slots C slot_of env" "h \<le> head_after env h"
    and poll: "poll C L (cs_replay_window cs) addresses env (rt_world (resume C jf identity outcome rt1)) = Some (w', r)"
  shows "sent_signatures (newly_sent (rt_world (resume C jf identity outcome rt1)) w')
        \<inter> recorded_by slot_of floor p es = {}
    \<and> (\<exists>F. suppresses C (cs_replay_window cs) addresses slot_of
         (recorded_by slot_of floor p es
           \<union> sent_signatures (newly_sent (rt_world (resume C jf identity outcome rt1)) w'))
         (head_after env h) F w')"
proof -
  let ?rw = "cs_replay_window cs"
  let ?sn = "\<lparr>sn_cursors = rewound ?rw (ps_cursors p), sn_recent_signatures = ps_recent p,
       sn_quarantined_signatures = ps_quarantined p\<rparr>"
  have "load C J (la_faults (lenv 0)) (la_timestamp (lenv 0)) cs d = (d, Inr (Loaded ?sn))"
    using shape by (intro load_saved_document [OF codec(1) _ _ _ _ json _ answers(1)])
      (simp_all add: snapshot_ok_def files(1) [unfolded processed_text_def])
  then have loaded: "rt1 = rt0\<lparr>rt_directory := d\<rparr>" "outcome = Loaded ?sn"
    using start rt0 by (simp_all add: load_checkpoint.simps [of C J lenv jf identity 0 rt0])
  let ?w = "rt_world (resume C jf identity (Loaded ?sn) rt1)"
  have rt1: "rt_journal rt1 = Some jn" "rt_directory rt1 = d"
    "pw_delivered (rt_world rt1) \<in> {None, Some new_delivered}"
    using rt0 by (simp_all add: loaded(1))
  note resumed = resume_loaded [OF files(2) codec answers(2) rt1(1,2), of ?sn]
  have inv: "suppresses C ?rw addresses slot_of (recorded_by slot_of floor p es) h floor ?w"
    using rt1(3) by (intro resumed_suppresses [OF shape agree floor resumed(1)]) (simp add: resumed(2))
  then have remembered: "remembers C ?rw addresses slot_of (recorded_by slot_of floor p es) floor ?w"
    by (simp add: suppresses_def)
  note poll' = poll [unfolded loaded(2)]
  note next_poll = suppresses_poll [OF inv window env poll']
  then obtain S where fresh: "poll_sends_fresh C ?rw addresses env ?w (newly_sent ?w w') S" by blast
  have "s \<notin> recorded_by slot_of floor p es" if "s \<in> sent_signatures (newly_sent ?w w')" for s
    using that fresh_not_emitted [OF remembered env(2) fresh] by (auto simp: sent_signatures_def)
  then show ?thesis
    using next_poll unfolding loaded(2) by blast
qed

section \<open>Loads that fail\<close>

definition checkpoint_failures :: "runtime \<Rightarrow> nat" where
  "checkpoint_failures rt =
     counter_total ''microscope_rpc_checkpoint_failures_total'' (pw_metrics (rt_world rt))"

definition unreadable :: "load_attempt \<Rightarrow> bool" where
  "unreadable a \<longleftrightarrow> fail_read (la_faults a) \<and> \<not> la_cancelled a"

definition note_failures :: "nat \<Rightarrow> runtime \<Rightarrow> runtime" where
  "note_failures k rt = (emit_rt record_rpc_checkpoint_failure ^^ k) rt"

lemma checkpoint_failures_emit [simp]:
  "checkpoint_failures (emit_rt record_rpc_checkpoint_failure rt) = Suc (checkpoint_failures rt)"
  "checkpoint_failures (park reason rt) = checkpoint_failures rt"
  "checkpoint_failures (rt\<lparr>rt_directory := d\<rparr>) = checkpoint_failures rt"
  "checkpoint_failures (discard_journal jf identity rt) = checkpoint_failures rt"
  by (simp_all add: checkpoint_failures_def emit_rt_def emit_def record_rpc_checkpoint_failure_def
      park_def record_rpc_recovery_disabled_def set_rpc_recovery_enabled_def discard_journal_def
      split: prod.splits)

lemma note_failures_frame [simp]:
  "rt_store (note_failures k rt) = rt_store rt" "rt_directory (note_failures k rt) = rt_directory rt"
  "rt_journal (note_failures k rt) = rt_journal rt"
  "pw_delivered (rt_world (note_failures k rt)) = pw_delivered (rt_world rt)"
  "checkpoint_failures (note_failures k rt) = checkpoint_failures rt + k"
  by (induction k) (simp_all add: note_failures_def)

lemma unreadable_attempt:
  assumes "fail_read (la_faults (env n))"
  shows "load_checkpoint C J env jf identity n rt =
    (let rt' = note_failures 1 rt
     in if checkpoint_load_attempts \<le> Suc n
        then (park ''checkpoint_load'' rt', Inl (Parked ''checkpoint_load''))
        else if la_cancelled (env n) then (rt', Inl Cancelled)
        else load_checkpoint C J env jf identity (Suc n) rt')"
  using assms
  by (subst load_checkpoint.simps) (simp add: load_def note_failures_def Let_def)

lemma unreadable_attempts:
  "list_all (\<lambda>i. unreadable (env i)) [0..<k] \<Longrightarrow> k < 3 \<Longrightarrow>
    load_checkpoint C J env jf identity 0 rt = load_checkpoint C J env jf identity k (note_failures k rt)"
proof (induction k)
  case 0
  then show ?case by (simp add: note_failures_def)
next
  case (Suc k)
  then have u: "fail_read (la_faults (env k))" "\<not> la_cancelled (env k)"
    by (simp_all add: unreadable_def)
  have "load_checkpoint C J env jf identity k (note_failures k rt) =
      load_checkpoint C J env jf identity (Suc k) (note_failures 1 (note_failures k rt))"
    using Suc.prems(2) u by (simp add: unreadable_attempt checkpoint_load_attempts_def Let_def)
  then show ?case using Suc by (simp add: note_failures_def)
qed

lemma discard_file:
  assumes "om_wf d" "discard fr ft identity j d = (j', d')" "journal_clear_of j m"
  shows "om_get d' m = om_get d m"
  using assms
  by (auto simp: discard_def purge_def Let_def journal_clear_of_def om_get_om_remove om_get_om_insert
      split: option.splits if_splits prod.splits)

text \<open>
  C23: A checkpoint that cannot be used disables recovery instead of being replaced: a mismatch at once,
  an unreadable file after the third attempt. Every failed attempt is counted, the recording of
  deliveries is stopped, and no file but the journal is touched, so the checkpoint of the other
  deployment stays as it is.
\<close>

theorem unusable_checkpoint_parks:
  assumes "om_wf (rt_directory rt)" "list_all (\<lambda>i. unreadable (env i)) [0..<k]" "k < 3"
    and "k = 2 \<and> fail_read (la_faults (env k))
      \<or> load C J (la_faults (env k)) (la_timestamp (env k)) (rt_store rt) (rt_directory rt)
          = (rt_directory rt, Inl (CheckpointMismatch e))"
  shows "\<exists>rt'. load_checkpoint C J env jf identity 0 rt = (rt', Inl (Parked ''checkpoint_load''))
    \<and> checkpoint_failures rt' = checkpoint_failures rt + k + 1
    \<and> pw_delivered (rt_world rt') =
        map_option (\<lambda>dv. dv\<lparr>dv_recording := False, dv_channel := []\<rparr>) (pw_delivered (rt_world rt))
    \<and> (\<forall>m. journal_clear_of (rt_journal rt) m \<longrightarrow> om_get (rt_directory rt') m = om_get (rt_directory rt) m)"
  using assms(4)
proof
  assume "k = 2 \<and> fail_read (la_faults (env k))"
  then have k: "k = 2" "fail_read (la_faults (env k))" by auto
  have "load_checkpoint C J env jf identity k (note_failures k rt) =
      (park ''checkpoint_load'' (note_failures 1 (note_failures k rt)), Inl (Parked ''checkpoint_load''))"
    unfolding unreadable_attempt [where env = env and n = k, OF k(2)]
    using k(1) by (simp add: checkpoint_load_attempts_def Let_def)
  then show ?thesis
    unfolding unreadable_attempts [OF assms(2,3)] by (simp add: exI)
next
  let ?rt = "note_failures k rt"
  assume mismatch: "load C J (la_faults (env k)) (la_timestamp (env k)) (rt_store rt) (rt_directory rt)
          = (rt_directory rt, Inl (CheckpointMismatch e))"
  obtain j' d' where dis: "discard (jf_remove jf) (jf_truncate jf) identity (rt_journal rt) (rt_directory rt) = (j', d')"
    by (cases "discard (jf_remove jf) (jf_truncate jf) identity (rt_journal rt) (rt_directory rt)")
  let ?r = "park ''checkpoint_load'' (emit_rt record_rpc_checkpoint_failure
      (discard_journal jf identity (?rt\<lparr>rt_directory := rt_directory rt\<rparr>)))"
  have "load_checkpoint C J env jf identity k ?rt = (?r, Inl (Parked ''checkpoint_load''))"
    using mismatch by (subst load_checkpoint.simps) simp
  moreover have "rt_directory ?r = d'" "pw_delivered (rt_world ?r) =
      map_option (\<lambda>dv. dv\<lparr>dv_recording := False, dv_channel := []\<rparr>) (pw_delivered (rt_world rt))"
    using dis by (simp_all add: discard_journal_def)
  ultimately show ?thesis
    unfolding unreadable_attempts [OF assms(2,3)] using discard_file [OF assms(1) dis] by simp
qed

end
