(* ===== verification/Runtime_Examples.thy ===== *)
theory Runtime_Examples
  imports Restart
begin

text \<open>
  A process of the demonstration deployment: its first turn, a restart from its files, and the
  loads that park it. The witnesses of the runtime's properties apply them here.
\<close>

definition demo_turn_env :: turn_env where
  "demo_turn_env = \<lparr>te_cancelled = False, te_listing = Inl ''denied'', te_channel_empty = True,
     te_snapshot = [], te_now = 0, te_saved_at = 1, te_unix = 1700000100, te_save_faults = no_faults,
     te_journal_unreadable = False, te_journal_faults = no_faults, te_poll = demo_env, te_elapsed = 0,
     te_cancelled_asleep = False\<rparr>"

definition demo_journal_faults :: journal_faults where
  "demo_journal_faults = \<lparr>jf_restore = no_restore_faults, jf_remove = False, jf_truncate = False\<rparr>"

definition demo_blank :: runtime where
  "demo_blank = blank_runtime demo_world demo_store None []"

definition demo_runtime :: runtime where
  "demo_runtime = resume decimal_codec demo_journal_faults ''g'' Missing demo_blank"

lemma demo_runtime_eq: "demo_runtime = demo_blank"
  by (simp add: demo_runtime_def resume_def discard_journal_def discard_def demo_blank_def
      blank_runtime_def demo_world_def snapshot_of_def polling_state_default_def
      quarantined_signatures_def Let_def)

lemma demo_before_poll: "before_poll decimal_codec demo_json demo_turn_env demo_runtime = demo_runtime"
  by (simp add: before_poll_def count_quarantined_files_def quarantined_file_count_def
      demo_turn_env_def advance_processed_def pipeline_drained_def carbon_counter_def demo_runtime_eq
      demo_blank_def blank_runtime_def save_progress_def save_if_due_def snapshot_of_def demo_world_def
      polling_state_default_def quarantined_signatures_def om_keys_def Let_def)

abbreviation demo_outcome :: poll_outcome where
  "demo_outcome \<equiv> \<lparr>queued_transactions = 1, checkpoint_urgent = True, history_boundary_verified = True\<rparr>"

lemma demo_turn_poll:
  "turn_poll decimal_codec demo_library [5] demo_turn_env
     (before_poll decimal_codec demo_json demo_turn_env demo_runtime) = Some (demo_after, Inr demo_outcome)"
  unfolding demo_before_poll
  using demo_poll by (simp add: turn_poll_def demo_turn_env_def demo_runtime_eq demo_blank_def
      blank_runtime_def)

definition demo_runtime_after :: runtime where
  "demo_runtime_after = demo_runtime\<lparr>rt_world := demo_after, rt_urgent := True,
     rt_cursors_ahead := \<lparr>consecutive = 0\<rparr>, rt_history_gaps := \<lparr>consecutive = 0\<rparr>\<rparr>"

lemma demo_turn:
  "turn decimal_codec demo_json demo_library [5] demo_turn_env demo_runtime = Some (demo_runtime_after, Running)"
  unfolding turn_def Let_def demo_turn_poll unfolding demo_before_poll
  by (simp add: after_poll_def demo_runtime_after_def record_recovered_def demo_turn_env_def
      demo_runtime_eq demo_blank_def blank_runtime_def)

lemma demo_turn_running: "\<not> te_cancelled demo_turn_env" "te_poll demo_turn_env = demo_env"
  by (simp_all add: demo_turn_env_def)

theorem parks_after_third_gap_witness:
  "(Running = Parked ''cursor_ahead_of_head'') = (ahead_streak ([] @ [Inr demo_outcome]) = 3)
   \<and> gap_streak [] < 3"
  using parks_after_third_gap [OF run_start [of decimal_codec demo_json demo_library "[5]"
        demo_journal_faults "''g''" Missing demo_blank, folded demo_runtime_def]
      demo_turn_running(1) demo_turn demo_turn_poll]
  by blast

text \<open>
  The turn's poll sends signature 7; the pipeline dequeues it and is busy with it when the next turn
  looks: the channel is empty, but one update has been received and none processed.
\<close>

definition counters :: "u64 \<Rightarrow> u64 \<Rightarrow> metrics_snapshot" where
  "counters received handled = [(''carbon_updates_received_total'', '''', received),
     (''carbon_updates_processed_total'', '''', handled)]"

definition demo_busy :: pipeline where
  "demo_busy = \<lparr>pl_channel = [], pl_in_hand = [Some 7], pl_received = 1, pl_handled = 0\<rparr>"

abbreviation demo_busy_env :: turn_env where
  "demo_busy_env \<equiv> demo_turn_env\<lparr>te_snapshot := counters 1 0\<rparr>"

lemma demo_env_head: "demo_env\<lparr>pe_head := Inr 120\<rparr> = demo_env"
  by (simp add: demo_env_def)

lemma demo_counters [simp]:
  "carbon_counter (counters received handled) ''carbon_updates_received_total'' = Some received"
  "carbon_counter (counters received handled) ''carbon_updates_processed_total'' = Some handled"
  by (simp_all add: carbon_counter_def counters_def)

lemma demo_turn_fields [simp]:
  "te_channel_empty demo_turn_env" "te_snapshot demo_turn_env = []" "te_poll demo_turn_env = demo_env"
  by (simp_all add: demo_turn_env_def)

lemma demo_after_poll:
  "fst (after_poll (Inr demo_outcome) (demo_runtime\<lparr>rt_world := demo_after\<rparr>)) = demo_runtime_after"
  by (simp add: after_poll_def demo_runtime_after_def record_recovered_def)

lemma demo_runtime_world: "rt_world demo_runtime = demo_world"
  by (simp add: demo_runtime_eq demo_blank_def blank_runtime_def)

lemma demo_handed_over: "map update_signature (newly_sent demo_world demo_after) = [Some 7]"
  by (simp add: demo_sent update_signature_def demo_update_def)

lemma demo_busy_run:
  "pipeline_run decimal_codec demo_json demo_library [5] {} demo_runtime_after demo_busy {7} {}"
proof -
  have "pipeline_run decimal_codec demo_json demo_library [5] {} demo_runtime idle_pipeline {} {}"
    by (rule pipeline_start)
      (simp_all add: demo_runtime_eq demo_blank_def blank_runtime_def demo_world_def
        has_recent_signature_def polling_state_default_def om_contains_def om_get_def snapshot_of_def
        quarantined_signatures_def state_wf_def)
  from pipeline_save [OF this, of demo_turn_env]
  have "pipeline_run decimal_codec demo_json demo_library [5] {} demo_runtime idle_pipeline {} {}"
    by (simp add: reported_def idle_pipeline_def demo_before_poll)
  from pipeline_poll [OF this _ demo_turn_poll [unfolded demo_before_poll]]
  have "pipeline_run decimal_codec demo_json demo_library [5] {} demo_runtime_after
      (enqueue_updates [Some 7] idle_pipeline) {7} {}"
    using demo_completion
    unfolding demo_after_poll demo_runtime_world demo_sent_signatures demo_handed_over by simp
  from pipeline_dequeue [OF this, of "Some 7"] show ?thesis
    by (simp add: dequeue_update_def enqueue_updates_def idle_pipeline_def demo_busy_def)
qed

theorem checkpoint_holds_processed_progress_witness:
  "\<exists>rt' e. turn decimal_codec demo_json demo_library [5] demo_busy_env demo_runtime_after = Some (rt', e)
    \<and> {s. om_contains (ps_recent (rt_processed rt')) s} \<subseteq> set (ps_quarantined (rt_processed rt'))"
proof -
  obtain rt' e where t: "turn decimal_codec demo_json demo_library [5] demo_busy_env demo_runtime_after = Some (rt', e)"
  proof -
    obtain w r where "turn_poll decimal_codec demo_library [5] demo_busy_env
        (before_poll decimal_codec demo_json demo_busy_env demo_runtime_after) = Some (w, r)"
      using demo_any_poll [of "Inr 120", unfolded demo_env_head]
      by (fastforce simp: turn_poll_def demo_runtime_after_def demo_runtime_eq demo_blank_def blank_runtime_def)
    then have "turn decimal_codec demo_json demo_library [5] demo_busy_env demo_runtime_after \<noteq> None"
      by (simp add: turn_def Let_def split: prod.split turn_end.split)
    then show thesis using that by auto
  qed
  have "reported demo_busy (te_channel_empty demo_busy_env) (te_snapshot demo_busy_env)"
    by (simp add: reported_def demo_busy_def)
  moreover have "om_wf (rt_directory demo_runtime_after)"
    "journal_clear_of (rt_journal demo_runtime_after) (cs_name (rt_store demo_runtime_after))"
    by (simp_all add: demo_runtime_after_def demo_runtime_eq demo_blank_def blank_runtime_def journal_clear_of_def)
  ultimately show ?thesis
    using checkpoint_holds_processed_progress [OF demo_busy_run _ _ _ _ t] t by (auto simp: demo_turn_running)
qed

section \<open>A restart\<close>

definition demo_snapshot :: progress_snapshot where
  "demo_snapshot = \<lparr>ps_cursors = [(''5'', \<lparr>scanned_slot = 120\<rparr>)], ps_recent = [(7, 100)], ps_quarantined = [9]\<rparr>"

definition demo_entries :: "entry list" where
  "demo_entries = [(8, 100)]"

definition demo_directory :: directory where
  "demo_directory = [(''rpc-polling.json'', processed_text decimal_codec demo_json demo_store demo_snapshot),
     (''shipped.log'', compacted_text decimal_codec (Some ''g'') demo_entries)]"

definition demo_journal :: journal where
  "demo_journal = \<lparr>jn_name = ''shipped.log'', jn_state = journal_state_default\<rparr>"

definition demo_killed :: runtime where
  "demo_killed = blank_runtime demo_world demo_store (Some demo_journal) demo_directory"

definition demo_load :: "nat \<Rightarrow> load_attempt" where
  "demo_load n = \<lparr>la_faults = \<lparr>fail_read = False, fail_move = False, fail_move_sync = False\<rparr>,
     la_timestamp = 0, la_cancelled = False\<rparr>"

lemma demo_key: "key_str decimal_codec 5 = ''5''"
proof -
  have "show_u64 (5 :: pubkey) = ''5''" by code_simp
  then show ?thesis by (simp add: decimal_codec_def)
qed

lemma demo_files:
  "om_get demo_directory ''rpc-polling.json'' = Some (processed_text decimal_codec demo_json demo_store demo_snapshot)"
  "om_get demo_directory ''shipped.log'' = Some (compacted_text decimal_codec (Some ''g'') demo_entries)"
  by (simp_all add: demo_directory_def om_get_def)

lemma demo_snapshot_ok: "snapshot_ok decimal_codec demo_store [5] demo_snapshot"
  by (simp add: snapshot_ok_def demo_snapshot_def om_wf_Cons om_keys_def demo_key)

text \<open>
  The endpoint serves signature 7 again, above the floor of the resumed cursor, and signature 7 is
  in the checkpoint: the poll of the restarted process does not send it.
\<close>

theorem restart_resumes_suppression_witness:
  "\<exists>outcome rt1 w' r.
     load_checkpoint decimal_codec demo_json demo_load demo_journal_faults ''g'' 0 demo_killed = (rt1, Inr outcome)
   \<and> poll decimal_codec demo_library 30 [5] demo_env
       (rt_world (resume decimal_codec demo_journal_faults ''g'' outcome rt1)) = Some (w', r)
   \<and> sent_signatures (newly_sent (rt_world (resume decimal_codec demo_journal_faults ''g'' outcome rt1)) w')
       \<inter> recorded_by (\<lambda>s. 100) 60 demo_snapshot demo_entries = {}"
proof -
  have json: "json_restores demo_json (checkpoint_document_of decimal_codec demo_store (ps_cursors demo_snapshot)
      (ps_recent demo_snapshot) (ps_quarantined demo_snapshot))"
    using demo_restores by (simp add: demo_snapshot_def demo_document_def)
  have reads: "\<not> fail_read (la_faults (demo_load 0))" "\<not> rf_read (jf_restore demo_journal_faults)"
    by (simp_all add: demo_load_def demo_journal_faults_def no_restore_faults_def)
  have killed: "rt_store demo_killed = demo_store" "rt_directory demo_killed = demo_directory"
    "rt_journal demo_killed = Some demo_journal"
    "pw_delivered (rt_world demo_killed) \<in> {None, Some new_delivered}"
    by (simp_all add: demo_killed_def blank_runtime_def demo_world_def)
  have names: "cs_name demo_store = ''rpc-polling.json''" "jn_name demo_journal = ''shipped.log''"
    by (simp_all add: demo_journal_def)
  note files = demo_files [folded names]
  have plain: "plain_line ''g''" by (simp add: plain_line_def)
  have agree: "files_agree (\<lambda>s. 100) demo_snapshot demo_entries"
    by (simp add: files_agree_def demo_snapshot_def demo_entries_def om_get_def)
  have floor: "floor_ok 60 (cs_replay_window demo_store) demo_snapshot 120"
    by (simp add: floor_ok_def demo_snapshot_def lowest_cursor_def minimum_opt_def om_values_def)
  obtain sn where l: "load decimal_codec demo_json (la_faults (demo_load 0)) (la_timestamp (demo_load 0))
      demo_store demo_directory = (demo_directory, Inr (Loaded sn))"
    using load_saved_document [OF decimal_codec_ok _ _ _ _ json _ reads(1) files(1) [unfolded processed_text_def]]
      demo_snapshot_ok by (simp add: snapshot_ok_def)
  obtain rt1 where start: "load_checkpoint decimal_codec demo_json demo_load demo_journal_faults ''g'' 0
      demo_killed = (rt1, Inr (Loaded sn))"
    using l killed by (simp add: load_checkpoint.simps [of _ _ _ _ _ 0])
  obtain w' r where p: "poll decimal_codec demo_library (cs_replay_window demo_store) [5] demo_env
      (rt_world (resume decimal_codec demo_journal_faults ''g'' (Loaded sn) rt1)) = Some (w', r)"
    using demo_any_poll [of "Inr 120", unfolded demo_env_head] by fastforce
  have head: "120 \<le> head_after demo_env 120" by (simp add: head_after_def demo_env_def)
  have "sent_signatures (newly_sent (rt_world (resume decimal_codec demo_journal_faults ''g'' (Loaded sn) rt1)) w')
       \<inter> recorded_by (\<lambda>s. 100) 60 demo_snapshot demo_entries = {}"
    by (rule restart_resumes_suppression [OF decimal_codec_ok plain demo_snapshot_ok agree json files
          killed reads start floor _ _ demo_completion demo_slots head p, THEN conjunct1]) simp_all
  with start p show ?thesis by (metis demo_store_fields(4))
qed

section \<open>Another deployment's checkpoint\<close>

definition demo_mismatch :: runtime where
  "demo_mismatch = blank_runtime demo_world (new_store ''rpc-polling.json'' ''other'' ''program'' [''5''] 30)
     (Some demo_journal) demo_directory"

theorem unusable_checkpoint_parks_witness:
  "\<exists>rt'. load_checkpoint decimal_codec demo_json demo_load demo_journal_faults ''g'' 0 demo_mismatch
      = (rt', Inl (Parked ''checkpoint_load''))
    \<and> checkpoint_failures rt' = 1
    \<and> om_get (rt_directory rt') ''rpc-polling.json'' = om_get demo_directory ''rpc-polling.json''"
proof -
  have held: "processed_text decimal_codec demo_json demo_store demo_snapshot = ''{}'' @ [newline]"
    by (simp add: processed_text_def demo_json_def)
  have doc: "decode_document demo_json (''{}'' @ [newline]) = Inr demo_document"
    by (simp add: demo_json_def)
  have fields: "cd_schema_version demo_document = 1" "cd_genesis_hash demo_document = ''genesis''"
    by (simp_all add: demo_document_def checkpoint_document_of_def checkpoint_schema_version_def
        demo_store_def new_store_def)
  have dir: "rt_directory demo_mismatch = demo_directory" "rt_journal demo_mismatch = Some demo_journal"
    "cs_name (rt_store demo_mismatch) = ''rpc-polling.json''"
    "ci_genesis_hash (cs_identity (rt_store demo_mismatch)) = ''other''"
    by (simp_all add: demo_mismatch_def blank_runtime_def new_store_def)
  have "\<exists>e. validate_identity (rt_store demo_mismatch) demo_document = Inl (CheckpointMismatch e)"
    by (simp add: validate_identity_def fields dir checkpoint_schema_version_def)
  then obtain e where e: "validate_identity (rt_store demo_mismatch) demo_document = Inl (CheckpointMismatch e)" ..
  have l: "load decimal_codec demo_json (la_faults (demo_load 0)) (la_timestamp (demo_load 0))
      (rt_store demo_mismatch) (rt_directory demo_mismatch)
    = (rt_directory demo_mismatch, Inl (CheckpointMismatch e))"
    unfolding load_def dir demo_files(1) held option.case doc sum.case e
    by (simp add: demo_load_def)
  have wf: "om_wf (rt_directory demo_mismatch)"
    by (simp add: dir demo_directory_def om_wf_Cons om_keys_def)
  have clear: "journal_clear_of (rt_journal demo_mismatch) ''rpc-polling.json''"
    by (simp add: dir journal_clear_of_def demo_journal_def temporary_path_def)
  have none: "checkpoint_failures demo_mismatch = 0"
    by (simp add: checkpoint_failures_def demo_mismatch_def blank_runtime_def demo_world_def)
  show ?thesis
    using unusable_checkpoint_parks [OF wf, where k = 0 and env = demo_load and C = decimal_codec
        and J = demo_json and e = e and jf = demo_journal_faults and identity = "''g''"] l clear none
    by (auto simp: dir)
qed

end
