(* ===== verification/Instructions.thy ===== *)
theory Instructions
  imports Json Telemetry Solana
begin

text \<open>
  What every processor reads of an instruction (\<open>instructions.rs\<close>): its name and its data from the
  serialized value, and the path that tells its occurrences apart. Serialization and snake casing
  are a library's: the parameters \<open>serialize\<close> and \<open>snake_case\<close>.
\<close>

record instruction_metadata =
  im_signature :: signature
  im_slot :: slot
  im_block_time :: "int option"
  im_failed :: bool
  im_log_messages :: "string list option"
  im_index :: u32
  im_stack_height :: u32
  im_absolute_path :: "u8 list"

text \<open>The input of a processor: the decoded instruction, the raw one's program, its children.\<close>

record 'i instruction_input =
  ii_decoded :: 'i
  ii_program_id :: pubkey
  ii_metadata :: instruction_metadata

record instruction_log_data =
  il_name :: string
  il_data :: json

definition occurrence_path :: "instruction_metadata \<Rightarrow> string" where
  "occurrence_path m = join_with ''.'' (map show_u64 (im_absolute_path m))"

definition to_log_data ::
  "('i \<Rightarrow> string + json) \<Rightarrow> (string \<Rightarrow> string) \<Rightarrow> 'i \<Rightarrow> string + instruction_log_data" where
  "to_log_data serialize snake_case i =
     (case serialize i of
        Inl e \<Rightarrow> Inl (''failed to serialize instruction: '' @ e)
      | Inr (JObject serialized) \<Rightarrow>
          (case Option.bind (om_get serialized ''type'') json_as_str of
             None \<Rightarrow> Inl ''serialized instruction is missing its type''
           | Some variant \<Rightarrow>
               (case om_get (om_remove ''type'' serialized) ''data'' of
                  None \<Rightarrow> Inl ''serialized instruction is missing its data''
                | Some data \<Rightarrow> Inr \<lparr>il_name = snake_case variant, il_data = data\<rparr>))
      | Inr _ \<Rightarrow> Inl ''serialized instruction is not an object'')"

lemma no_dot_show: "CHR ''.'' \<notin> set (show_u64 n)"
  using show_nat_digits [of "unat n"] by (auto simp: show_u64_def list_all_iff is_digit_def)

text \<open>
  The path tells occurrences apart: two invocations in one transaction have the same path text only
  if they are the same invocation, so their log records differ and Loki keeps both.
\<close>

theorem occurrence_path_identifies:
  "occurrence_path m = occurrence_path m' \<longleftrightarrow> im_absolute_path m = im_absolute_path m'"
proof
  let ?t = "\<lambda>m. map show_u64 (im_absolute_path m)"
  assume eq: "occurrence_path m = occurrence_path m'"
  have dots: "list_all (\<lambda>x. CHR ''.'' \<notin> set x) (?t m)" for m
    by (simp add: list_all_iff no_dot_show)
  have pieces: "?t m = [] \<or> split_on (CHR ''.'') (occurrence_path m) = ?t m" for m
    using split_join [OF _ dots] unfolding occurrence_path_def by blast
  have empty: "occurrence_path m = [] \<longleftrightarrow> ?t m = []" for m
    by (cases "im_absolute_path m") (simp_all add: occurrence_path_def join_with_Cons show_u64_def,
      metis join_with.simps(2) join_with_Cons show_nat_not_Nil append_is_Nil_conv list.map_disc_iff)
  have "?t m = ?t m'"
    using pieces [of m] pieces [of m'] empty [of m] empty [of m'] eq by auto
  then show "im_absolute_path m = im_absolute_path m'"
    by (rule map_injective) (simp add: inj_def)
qed (simp add: occurrence_path_def)

end
