(* ===== verification/Processor.thy ===== *)
theory Processor
  imports Instructions
begin

text \<open>
  The event processor (\<open>processor.rs\<close>) with the decoding of the program's events (\<open>events/mod.rs\<close>):
  every instruction is logged with its events, and its transaction is counted once while its
  signature is among the most recent ones.
\<close>

section \<open>Recent transactions\<close>

definition recent_signature_capacity :: nat where "recent_signature_capacity = 4096"

record event_processor =
  ep_recent_signatures :: "signature set"
  ep_signature_order :: "signature list"

definition event_processor_default :: event_processor where
  "event_processor_default = \<lparr>ep_recent_signatures = {}, ep_signature_order = []\<rparr>"

definition remember_transaction :: "signature \<Rightarrow> event_processor \<Rightarrow> bool \<times> event_processor" where
  "remember_transaction s p =
     (if s \<in> ep_recent_signatures p then (False, p)
      else
        let recent = insert s (ep_recent_signatures p);
            order = ep_signature_order p @ [s]
        in (True,
            if recent_signature_capacity < length order
            then (case order of
                    [] \<Rightarrow> \<lparr>ep_recent_signatures = recent, ep_signature_order = []\<rparr>
                  | expired # rest \<Rightarrow>
                      \<lparr>ep_recent_signatures = recent - {expired}, ep_signature_order = rest\<rparr>)
            else \<lparr>ep_recent_signatures = recent, ep_signature_order = order\<rparr>))"

text \<open>The window it implements: the last capacity-many distinct signatures.\<close>

definition window_step :: "signature \<Rightarrow> signature list \<Rightarrow> bool \<times> signature list" where
  "window_step s w =
     (if s \<in> set w then (False, w)
      else (True, drop (Suc (length w) - recent_signature_capacity) (w @ [s])))"

definition processor_wf :: "event_processor \<Rightarrow> bool" where
  "processor_wf p \<longleftrightarrow> distinct (ep_signature_order p)
     \<and> ep_recent_signatures p = set (ep_signature_order p)
     \<and> length (ep_signature_order p) \<le> recent_signature_capacity"

lemma processor_wf_default: "processor_wf event_processor_default"
  by (simp add: processor_wf_def event_processor_default_def)

lemma remember_refines:
  assumes "processor_wf p"
  shows "processor_wf (snd (remember_transaction s p))"
    and "(fst (remember_transaction s p), ep_signature_order (snd (remember_transaction s p)))
      = window_step s (ep_signature_order p)"
proof -
  let ?w = "ep_signature_order p"
  have wf: "distinct ?w" "ep_recent_signatures p = set ?w" "length ?w \<le> recent_signature_capacity"
    using assms by (auto simp: processor_wf_def)
  have "processor_wf (snd (remember_transaction s p))
    \<and> (fst (remember_transaction s p), ep_signature_order (snd (remember_transaction s p)))
      = window_step s ?w"
  proof (cases "s \<in> set ?w")
    case True
    then show ?thesis using assms wf(2) by (simp add: remember_transaction_def window_step_def)
  next
    case new: False
    show ?thesis
    proof (cases "length ?w < recent_signature_capacity")
      case True
      then have "remember_transaction s p = (True, \<lparr>ep_recent_signatures = insert s (set ?w),
          ep_signature_order = ?w @ [s]\<rparr>)"
        using new wf(2) by (simp add: remember_transaction_def Let_def)
      then show ?thesis using True new wf by (simp add: window_step_def processor_wf_def)
    next
      case False
      then have full: "length ?w = recent_signature_capacity" using wf(3) by simp
      then obtain x xs where w: "?w = x # xs"
        by (cases ?w) (auto simp: recent_signature_capacity_def)
      have "remember_transaction s p = (True, \<lparr>ep_recent_signatures = insert s (set ?w) - {x},
          ep_signature_order = xs @ [s]\<rparr>)"
        using new wf(2) full by (simp add: remember_transaction_def Let_def w)
      then show ?thesis
        using new wf full unfolding w by (auto simp: window_step_def processor_wf_def)
    qed
  qed
  then show "processor_wf (snd (remember_transaction s p))"
    "(fst (remember_transaction s p), ep_signature_order (snd (remember_transaction s p)))
      = window_step s ?w"
    by simp_all
qed

definition remember_all :: "signature list \<Rightarrow> event_processor \<Rightarrow> bool list \<times> event_processor" where
  "remember_all ss p = fold (\<lambda>s (bs, p). case remember_transaction s p of (b, p') \<Rightarrow> (bs @ [b], p')) ss ([], p)"

definition window_all :: "signature list \<Rightarrow> signature list \<Rightarrow> bool list \<times> signature list" where
  "window_all ss w = fold (\<lambda>s (bs, w). case window_step s w of (b, w') \<Rightarrow> (bs @ [b], w')) ss ([], w)"

lemma remember_all_refines:
  assumes "processor_wf p"
  shows "processor_wf (snd (remember_all ss p))
    \<and> (fst (remember_all ss p), ep_signature_order (snd (remember_all ss p)))
        = window_all ss (ep_signature_order p)"
proof -
  have "processor_wf q \<Longrightarrow>
      (case fold (\<lambda>s (bs, p). case remember_transaction s p of (b, p') \<Rightarrow> (bs @ [b], p')) ss (bs, q) of
        (bs', q') \<Rightarrow> processor_wf q' \<and> (bs', ep_signature_order q') =
          fold (\<lambda>s (bs, w). case window_step s w of (b, w') \<Rightarrow> (bs @ [b], w')) ss
            (bs, ep_signature_order q))" for bs q
  proof (induction ss arbitrary: bs q)
    case (Cons s ss)
    obtain b q1 where r: "remember_transaction s q = (b, q1)" by (cases "remember_transaction s q")
    have "processor_wf q1" "window_step s (ep_signature_order q) = (b, ep_signature_order q1)"
      using remember_refines [OF Cons.prems, of s] r by auto
    then show ?case using Cons.IH [of q1 "bs @ [b]"] r by simp
  qed simp
  from this [OF assms, of "[]"] show ?thesis
    by (auto simp: remember_all_def window_all_def split: prod.splits)
qed

lemma window_all_Cons:
  "window_all (s # ss) w =
    (case window_step s w of (b, w') \<Rightarrow> case window_all ss w' of (bs, w'') \<Rightarrow> (b # bs, w''))"
proof -
  have acc: "fold (\<lambda>s (bs, w). case window_step s w of (b, w') \<Rightarrow> (bs @ [b], w')) ss (cs, w) =
      (case fold (\<lambda>s (bs, w). case window_step s w of (b, w') \<Rightarrow> (bs @ [b], w')) ss ([], w) of
         (bs, w') \<Rightarrow> (cs @ bs, w'))" for cs ss w
  proof (induction ss arbitrary: cs w)
    case (Cons s ss)
    obtain b w' where st: "window_step s w = (b, w')" by (cases "window_step s w")
    show ?case
      using Cons.IH [of "cs @ [b]" w'] Cons.IH [of "[b]" w'] by (simp add: st split: prod.splits)
  qed simp
  obtain b w' where st: "window_step s w = (b, w')" by (cases "window_step s w")
  show ?thesis using acc [of ss "[b]" w'] by (simp add: window_all_def st)
qed

lemma window_all_Nil [simp]: "window_all [] w = ([], w)"
  by (simp add: window_all_def)

text \<open>Without eviction the window counts every signature once.\<close>

lemma window_counts:
  "distinct w \<Longrightarrow> card (set w \<union> set ss) \<le> recent_signature_capacity \<Longrightarrow>
    length w + length (filter (\<lambda>b. b) (fst (window_all ss w))) = card (set w \<union> set ss)"
proof (induction ss arbitrary: w)
  case Nil
  then show ?case by (simp add: distinct_card)
next
  case (Cons s ss)
  show ?case
  proof (cases "s \<in> set w")
    case True
    then show ?thesis
      using Cons by (simp add: window_all_Cons window_step_def insert_absorb case_prod_unfold)
  next
    case False
    have "Suc (length w) \<le> card (set w \<union> set (s # ss))"
    proof -
      have "card (insert s (set w)) = Suc (length w)" using False Cons.prems(1) by (simp add: distinct_card)
      moreover have "card (insert s (set w)) \<le> card (set w \<union> set (s # ss))" by (rule card_mono) auto
      ultimately show ?thesis by simp
    qed
    then have st: "window_step s w = (True, w @ [s])"
      using False Cons.prems(2) by (simp add: window_step_def)
    have "length (w @ [s]) + length (filter (\<lambda>b. b) (fst (window_all ss (w @ [s])))) = card (set (w @ [s]) \<union> set ss)"
      by (rule Cons.IH) (use Cons.prems False in simp_all)
    then show ?thesis by (simp add: window_all_Cons st case_prod_unfold)
  qed
qed

text \<open>
  C26: The hash set and the queue implement one window of the most recent signatures, never more than
  its capacity: whatever the order of the transactions, the answers are those of the window.
\<close>

theorem deduplication_refines_window:
  "fst (remember_all ss event_processor_default) = fst (window_all ss [])
   \<and> processor_wf (snd (remember_all ss event_processor_default))
   \<and> ep_signature_order (snd (remember_all ss event_processor_default)) = snd (window_all ss [])"
  using remember_all_refines [OF processor_wf_default, of ss]
  by (simp add: event_processor_default_def prod_eq_iff)

text \<open>
  While no more than the capacity of distinct transactions is seen, each is counted exactly once,
  however often and in whatever order its instructions arrive.
\<close>

theorem transactions_counted_once:
  assumes "card (set ss) \<le> recent_signature_capacity"
  shows "length (filter (\<lambda>b. b) (fst (remember_all ss event_processor_default))) = card (set ss)"
  using window_counts [of "[]" ss] assms remember_all_refines [OF processor_wf_default, of ss]
  by (simp add: event_processor_default_def prod_eq_iff)

theorem transactions_counted_once_witness:
  "length (filter (\<lambda>b. b) (fst (remember_all [5, 6, 5] event_processor_default))) = 2"
  using transactions_counted_once [of "[5, 6, 5]"]
  by (simp add: recent_signature_capacity_def card_insert_if)

section \<open>Events\<close>

datatype event_source = Log | Cpi

definition event_source_str :: "event_source \<Rightarrow> string" where
  "event_source_str s = (case s of Log \<Rightarrow> ''log'' | Cpi \<Rightarrow> ''cpi'')"

record decoded_event =
  de_name :: string
  de_data :: json
  de_source :: event_source

record decoded_logs =
  dl_events :: "decoded_event list"
  dl_rejected :: nat

text \<open>
  The generated decoder and the library: the payloads of the log events of an instruction's own
  frame, the decoder of a payload, serialization and snake casing.
\<close>

record 'e event_library =
  log_events :: "instruction_metadata \<Rightarrow> u8 list list"
  decode_event :: "u8 list \<Rightarrow> 'e option"
  serialize_event :: "'e \<Rightarrow> string + json"
  event_snake_case :: "string \<Rightarrow> string"

definition event_cpi_prefix :: "u8 list" where
  "event_cpi_prefix = [228, 69, 165, 46, 81, 203, 154, 29]"

definition is_program_emitted :: "string \<Rightarrow> bool" where
  "is_program_emitted line \<longleftrightarrow>
     starts_with ''Program log: '' line \<or> starts_with ''Program return: '' line"

definition runtime_logs_only :: "instruction_metadata \<Rightarrow> instruction_metadata" where
  "runtime_logs_only m =
     (case im_log_messages m of
        None \<Rightarrow> m
      | Some logs \<Rightarrow>
          if \<not> list_ex is_program_emitted logs then m
          else m\<lparr>im_log_messages := Some (filter (\<lambda>l. \<not> is_program_emitted l) logs)\<rparr>)"

definition event_log_data :: "'e event_library \<Rightarrow> 'e \<Rightarrow> event_source \<Rightarrow> decoded_event option" where
  "event_log_data L e source =
     (case serialize_event L e of
        Inr (JObject ((name, data) # _)) \<Rightarrow>
          Some \<lparr>de_name = event_snake_case L name, de_data = data, de_source = source\<rparr>
      | _ \<Rightarrow> None)"

definition add_decoded :: "decoded_event option \<Rightarrow> decoded_logs \<Rightarrow> decoded_logs" where
  "add_decoded e d =
     (case e of
        Some ev \<Rightarrow> d\<lparr>dl_events := dl_events d @ [ev]\<rparr>
      | None \<Rightarrow> d\<lparr>dl_rejected := dl_rejected d + 1\<rparr>)"

definition no_decoded :: decoded_logs where
  "no_decoded = \<lparr>dl_events = [], dl_rejected = 0\<rparr>"

definition decode_logs :: "'e event_library \<Rightarrow> instruction_metadata \<Rightarrow> decoded_logs" where
  "decode_logs L m =
     fold (\<lambda>raw. add_decoded
         (Option.bind (decode_event L (event_cpi_prefix @ raw)) (\<lambda>e. event_log_data L e Log)))
       (log_events L (runtime_logs_only m)) no_decoded"

record child_instruction =
  ci_program_id :: pubkey
  ci_data :: "u8 list"

definition decode_child_events ::
  "'e event_library \<Rightarrow> child_instruction list \<Rightarrow> pubkey \<Rightarrow> decoded_logs" where
  "decode_child_events L children program_id =
     fold (\<lambda>child d.
         if ci_program_id child \<noteq> program_id then d
         else case decode_event L (ci_data child) of
           None \<Rightarrow> d
         | Some e \<Rightarrow> add_decoded (event_log_data L e Cpi) d)
       children no_decoded"

section \<open>Processing an instruction\<close>

record 'i program_input =
  pg_input :: "'i instruction_input"
  pg_children :: "child_instruction list"

record 'i program_library =
  pl_serialize :: "'i \<Rightarrow> string + json"
  pl_snake_case :: "string \<Rightarrow> string"
  pl_is_event :: "'i \<Rightarrow> bool"

definition instruction_line :: "codec \<Rightarrow> 'i instruction_input \<Rightarrow> instruction_log_data \<Rightarrow> log_line" where
  "instruction_line C input instruction =
     (let m = ii_metadata input
      in \<lparr>ll_target = ''microscope::instructions'',
          ll_record = json_object
            [(''kind'', JString ''program_instruction''),
             (''name'', JString (il_name instruction)),
             (''data'', il_data instruction),
             (''program_id'', JString (key_str C (ii_program_id input))),
             (''instruction_index'', JNumber (uint (im_index m))),
             (''instruction_path'', JString (occurrence_path m)),
             (''stack_height'', JNumber (uint (im_stack_height m))),
             (''signature'', JString (sig_str C (im_signature m))),
             (''slot'', JNumber (uint (im_slot m))),
             (''block_time'', json_optional (im_block_time m)),
             (''failed'', JBool (im_failed m))]\<rparr>)"

definition decode_failure_line ::
  "codec \<Rightarrow> 'i instruction_input \<Rightarrow> string \<Rightarrow> event_source \<times> nat \<Rightarrow> log_line" where
  "decode_failure_line C input name r =
     (let m = ii_metadata input
      in \<lparr>ll_target = ''microscope::events'',
          ll_record = json_object
            [(''kind'', JString ''event_decode_failure''),
             (''rejected'', JNumber (int (snd r))),
             (''source'', JString (event_source_str (fst r))),
             (''program_id'', JString (key_str C (ii_program_id input))),
             (''instruction'', JString name),
             (''signature'', JString (sig_str C (im_signature m))),
             (''slot'', JNumber (uint (im_slot m))),
             (''block_time'', json_optional (im_block_time m))]\<rparr>)"

definition event_line :: "codec \<Rightarrow> 'i instruction_input \<Rightarrow> string \<Rightarrow> decoded_event \<Rightarrow> log_line" where
  "event_line C input name e =
     (let m = ii_metadata input
      in \<lparr>ll_target = ''microscope::events'',
          ll_record = json_object
            [(''kind'', JString ''program_event''),
             (''name'', JString (de_name e)),
             (''data'', de_data e),
             (''source'', JString (event_source_str (de_source e))),
             (''program_id'', JString (key_str C (ii_program_id input))),
             (''instruction'', JString name),
             (''instruction_index'', JNumber (uint (im_index m))),
             (''instruction_path'', JString (occurrence_path m)),
             (''stack_height'', JNumber (uint (im_stack_height m))),
             (''signature'', JString (sig_str C (im_signature m))),
             (''slot'', JNumber (uint (im_slot m))),
             (''block_time'', json_optional (im_block_time m)),
             (''failed'', JBool (im_failed m))]\<rparr>)"

record processed_event =
  pv_result :: "string + unit"
  pv_lines :: "log_line list"
  pv_metrics :: "metric list"
  pv_processor :: event_processor

text \<open>
  \<open>events_enabled\<close> is the build's \<open>program_events\<close>: the program's IDL declares events. The events of
  a synthetic event instruction are its emitting instruction's.
\<close>

definition instruction_events ::
  "'e event_library \<Rightarrow> 'i program_library \<Rightarrow> bool \<Rightarrow> 'i program_input \<Rightarrow> decoded_logs \<times> decoded_logs" where
  "instruction_events E P events_enabled input =
     (if \<not> events_enabled \<or> pl_is_event P (ii_decoded (pg_input input)) then (no_decoded, no_decoded)
      else (decode_logs E (ii_metadata (pg_input input)),
            decode_child_events E (pg_children input) (ii_program_id (pg_input input))))"

definition process_instruction ::
  "codec \<Rightarrow> 'e event_library \<Rightarrow> 'i program_library \<Rightarrow> bool \<Rightarrow> u64 \<Rightarrow> 'i program_input \<Rightarrow> event_processor
   \<Rightarrow> processed_event"
where
  "process_instruction C E P events_enabled now pinput p =
     (let input = pg_input pinput; m = ii_metadata input
      in case to_log_data (pl_serialize P) (pl_snake_case P) (ii_decoded input) of
           Inl e \<Rightarrow> \<lparr>pv_result = Inl e, pv_lines = [], pv_metrics = [], pv_processor = p\<rparr>
         | Inr instruction \<Rightarrow>
             let name = il_name instruction;
                 (from_logs, from_children) = instruction_events E P events_enabled pinput;
                 rejected = filter (\<lambda>r. snd r \<noteq> 0)
                              [(Log, dl_rejected from_logs), (Cpi, dl_rejected from_children)];
                 events = dl_events from_logs @ dl_events from_children;
                 (new, p') = remember_transaction (im_signature m) p
             in \<lparr>pv_result = Inr (),
                 pv_lines = instruction_line C input instruction
                   # map (decode_failure_line C input name) rejected
                   @ map (event_line C input name) events,
                 pv_metrics = record_instruction name
                   @ concat (map (\<lambda>r. record_event_decode_failures (event_source_str (fst r)) (of_nat (snd r))) rejected)
                   @ concat (map (\<lambda>e. record_program_event (de_name e) (event_source_str (de_source e)) (im_failed m)) events)
                   @ (if new then record_transaction (im_failed m) else [])
                   @ record_event now,
                 pv_processor = p'\<rparr>)"

lemma runtime_logs_filter:
  "im_log_messages m = Some logs \<Longrightarrow>
    runtime_logs_only m = m\<lparr>im_log_messages := Some (filter (\<lambda>l. \<not> is_program_emitted l) logs)\<rparr>"
  by (cases m) (auto simp: runtime_logs_only_def list_ex_iff filter_True)

lemma fold_decoded:
  "fold (\<lambda>raw. add_decoded (f raw)) xs d =
    \<lparr>dl_events = dl_events d @ List.map_filter f xs,
     dl_rejected = dl_rejected d + length (filter (\<lambda>x. f x = None) xs)\<rparr>"
  by (induction xs arbitrary: d) (auto simp: add_decoded_def map_filter_simps split: option.splits)

text \<open>
  Logs that differ in what programs print and return: the runtime puts those texts behind its own
  prefixes, and every other line is the same.
\<close>

inductive same_runtime_lines :: "string list \<Rightarrow> string list \<Rightarrow> bool" where
  no_lines: "same_runtime_lines [] []"
| same_line: "same_runtime_lines ls ls' \<Longrightarrow> same_runtime_lines (l # ls) (l # ls')"
| printed_left: "same_runtime_lines ls ls' \<Longrightarrow> same_runtime_lines ((''Program log: '' @ t) # ls) ls'"
| printed_right: "same_runtime_lines ls ls' \<Longrightarrow> same_runtime_lines ls ((''Program log: '' @ t) # ls')"
| returned_left: "same_runtime_lines ls ls' \<Longrightarrow> same_runtime_lines ((''Program return: '' @ t) # ls) ls'"
| returned_right: "same_runtime_lines ls ls' \<Longrightarrow> same_runtime_lines ls ((''Program return: '' @ t) # ls')"

lemma same_runtime_filter:
  "same_runtime_lines ls ls' \<Longrightarrow>
   filter (\<lambda>l. \<not> is_program_emitted l) ls = filter (\<lambda>l. \<not> is_program_emitted l) ls'"
  by (induction rule: same_runtime_lines.induct) (simp_all add: is_program_emitted_def starts_with_def)

text \<open>
  C27: Text a program logs cannot forge or displace events: two instructions whose logs differ only in
  the lines programs emit decode to the same events and the same failures. Every payload the
  runtime's own lines carry is either decoded, in order, or counted as rejected.
\<close>

theorem program_text_cannot_forge:
  assumes "im_log_messages m = Some logs"
    and "same_runtime_lines logs logs'"
  shows "decode_logs E (m\<lparr>im_log_messages := Some logs'\<rparr>) = decode_logs E m
    \<and> length (dl_events (decode_logs E m)) + dl_rejected (decode_logs E m)
        = length (log_events E (runtime_logs_only m))"
proof -
  have "runtime_logs_only (m\<lparr>im_log_messages := Some logs'\<rparr>) = runtime_logs_only m"
    using assms(1) same_runtime_filter [OF assms(2)] by (simp add: runtime_logs_filter)
  moreover have "length (List.map_filter f xs) + length (filter (\<lambda>x. f x = None) xs) = length xs" for f xs
    by (induction xs) (auto simp: map_filter_simps split: option.splits)
  ultimately show ?thesis
    by (simp add: decode_logs_def fold_decoded no_decoded_def)
qed

definition demo_event_library :: "nat event_library" where
  "demo_event_library = \<lparr>log_events = (\<lambda>m. map (\<lambda>l. [1]) (case im_log_messages m of Some ls \<Rightarrow> ls | None \<Rightarrow> [])),
     decode_event = (\<lambda>d. Some (length d)), serialize_event = (\<lambda>e. Inr (JObject [(''E'', JNumber (int e))])),
     event_snake_case = (\<lambda>s. s)\<rparr>"

theorem program_text_cannot_forge_witness:
  "decode_logs demo_event_library
     \<lparr>im_signature = 9, im_slot = 100, im_block_time = None, im_failed = False,
      im_log_messages = Some [''Program log: forged'', ''Program data: AQ==''], im_index = 0,
      im_stack_height = 1, im_absolute_path = [0]\<rparr>
   = decode_logs demo_event_library
     \<lparr>im_signature = 9, im_slot = 100, im_block_time = None, im_failed = False,
      im_log_messages = Some [''Program data: AQ==''], im_index = 0,
      im_stack_height = 1, im_absolute_path = [0]\<rparr>"
  using program_text_cannot_forge [of "\<lparr>im_signature = 9, im_slot = 100, im_block_time = None, im_failed = False,
      im_log_messages = Some [''Program data: AQ==''], im_index = 0,
      im_stack_height = 1, im_absolute_path = [0]\<rparr>" "[''Program data: AQ=='']"
      "[''Program log: forged'', ''Program data: AQ=='']" demo_event_library]
  using printed_right [OF same_line [OF no_lines], of "''Program data: AQ==''" "''forged''"] by simp

end
