(* ===== verification/Multisig_Common.thy ===== *)
theory Multisig_Common
  imports Instructions
begin

text \<open>
  What the processors of the three Squads versions share (\<open>multisig/common.rs\<close>): matching the
  state account of an instruction against the one of the deployment, and the log lines and metrics
  of a matched instruction.
\<close>

record address_match =
  am_configured_address :: pubkey
  am_state_address :: pubkey
  am_squads_version :: string

type_synonym address_resolver = address_match

definition new_resolver :: "pubkey \<Rightarrow> pubkey \<Rightarrow> string \<Rightarrow> address_resolver" where
  "new_resolver vault_address state_address squads_version =
     \<lparr>am_configured_address = vault_address, am_state_address = state_address,
      am_squads_version = squads_version\<rparr>"

definition match_state :: "address_resolver \<Rightarrow> pubkey \<Rightarrow> address_match option \<times> metric list" where
  "match_state resolver state_address =
     (if state_address \<noteq> am_state_address resolver
      then (None, record_multisig_unmatched_state (am_squads_version resolver))
      else (Some resolver, []))"

definition activity_record ::
  "codec \<Rightarrow> 'i instruction_input \<Rightarrow> address_match \<Rightarrow> string \<Rightarrow> instruction_log_data \<Rightarrow> string \<Rightarrow> json" where
  "activity_record C input m idl_version instruction action =
     (let meta = ii_metadata input
      in json_object
        [(''kind'', JString ''multisig_activity''),
         (''provider'', JString ''squads''),
         (''squads_version'', JString (am_squads_version m)),
         (''idl_version'', JString idl_version),
         (''action'', JString action),
         (''instruction'', JString (il_name instruction)),
         (''data'', il_data instruction),
         (''vault_address'', JString (key_str C (am_configured_address m))),
         (''multisig_address'', JString (key_str C (am_state_address m))),
         (''configured_address_kind'', JString ''default_vault''),
         (''program_id'', JString (key_str C (ii_program_id input))),
         (''instruction_index'', JNumber (uint (im_index meta))),
         (''instruction_path'', JString (occurrence_path meta)),
         (''stack_height'', JNumber (uint (im_stack_height meta))),
         (''signature'', JString (sig_str C (im_signature meta))),
         (''slot'', JNumber (uint (im_slot meta))),
         (''block_time'', json_optional (im_block_time meta)),
         (''failed'', JBool (im_failed meta))])"

text \<open>
  The record of a processor: what it returns, the lines it logs and the metrics it emits, in order.
\<close>

record processed_instruction =
  pi_result :: "string + unit"
  pi_lines :: "log_line list"
  pi_metrics :: "metric list"

definition process_activity ::
  "codec \<Rightarrow> ('i \<Rightarrow> string + json) \<Rightarrow> (string \<Rightarrow> string) \<Rightarrow> u64 \<Rightarrow> 'i instruction_input
   \<Rightarrow> address_match option \<Rightarrow> string \<Rightarrow> string list \<Rightarrow> processed_instruction"
where
  "process_activity C serialize snake_case now input address_match idl_version actions =
     (case address_match of
        None \<Rightarrow> \<lparr>pi_result = Inr (), pi_lines = [], pi_metrics = []\<rparr>
      | Some m \<Rightarrow>
          (case to_log_data serialize snake_case (ii_decoded input) of
             Inl e \<Rightarrow> \<lparr>pi_result = Inl e, pi_lines = [], pi_metrics = []\<rparr>
           | Inr instruction \<Rightarrow>
               \<lparr>pi_result = Inr (),
                pi_lines = map (\<lambda>action. \<lparr>ll_target = ''microscope::multisig'',
                   ll_record = activity_record C input m idl_version instruction action\<rparr>) actions,
                pi_metrics = concat (map (\<lambda>action. record_multisig_activity (am_squads_version m) action
                   (im_failed (ii_metadata input))) actions) @ record_event now\<rparr>))"

text \<open>
  The processor of a version: the state account of the instruction, when it has one, is matched
  before anything else, so an unmatched one is counted even when nothing is logged.
\<close>

definition process_matched ::
  "codec \<Rightarrow> ('i \<Rightarrow> string + json) \<Rightarrow> (string \<Rightarrow> string) \<Rightarrow> u64 \<Rightarrow> address_resolver
   \<Rightarrow> pubkey option \<Rightarrow> string \<Rightarrow> string list \<Rightarrow> 'i instruction_input \<Rightarrow> processed_instruction"
where
  "process_matched C serialize snake_case now resolver state_address idl_version actions input =
     (case (case state_address of None \<Rightarrow> (None, []) | Some a \<Rightarrow> match_state resolver a) of
        (m, ms) \<Rightarrow>
          let r = process_activity C serialize snake_case now input m idl_version actions
          in r\<lparr>pi_metrics := ms @ pi_metrics r\<rparr>)"

text \<open>The lines and the counted activity of a processed instruction.\<close>

definition reports_activity ::
  "codec \<Rightarrow> ('i \<Rightarrow> string + json) \<Rightarrow> (string \<Rightarrow> string) \<Rightarrow> u64 \<Rightarrow> address_resolver
   \<Rightarrow> pubkey option \<Rightarrow> string \<Rightarrow> string list \<Rightarrow> 'i instruction_input \<Rightarrow> processed_instruction \<Rightarrow> bool"
where
  "reports_activity C serialize snake_case now resolver state idl_version actions input r \<longleftrightarrow>
     (if state = None then r = \<lparr>pi_result = Inr (), pi_lines = [], pi_metrics = []\<rparr>
      else if state \<noteq> Some (am_state_address resolver)
      then r = \<lparr>pi_result = Inr (), pi_lines = [],
                pi_metrics = record_multisig_unmatched_state (am_squads_version resolver)\<rparr>
      else case to_log_data serialize snake_case (ii_decoded input) of
        Inl e \<Rightarrow> r = \<lparr>pi_result = Inl e, pi_lines = [], pi_metrics = []\<rparr>
      | Inr instruction \<Rightarrow>
          pi_result r = Inr ()
          \<and> map ll_record (pi_lines r)
              = map (activity_record C input resolver idl_version instruction) actions
          \<and> pi_metrics r = map (\<lambda>a. hd (record_multisig_activity (am_squads_version resolver) a
              (im_failed (ii_metadata input)))) actions @ record_event now)"

lemma process_reports:
  "reports_activity C serialize snake_case now resolver state idl_version actions input
     (process_matched C serialize snake_case now resolver state idl_version actions input)"
proof -
  have "concat (map (\<lambda>a. record_multisig_activity v a failed) as)
      = map (\<lambda>a. hd (record_multisig_activity v a failed)) as" for v failed as
    by (induction as) (simp_all add: record_multisig_activity_def)
  then show ?thesis
    by (auto simp: reports_activity_def process_matched_def process_activity_def match_state_def
        Let_def split: option.splits sum.splits)
qed

lemma activity_record_fields:
  "json_get (activity_record C input m idl_version instruction action) ''action'' = Some (JString action)"
  "json_get (activity_record C input m idl_version instruction action) ''kind''
     = Some (JString ''multisig_activity'')"
  "json_get (activity_record C input m idl_version instruction action) ''multisig_address''
     = Some (JString (key_str C (am_state_address m)))"
  "json_get (activity_record C input m idl_version instruction action) ''failed''
     = Some (JBool (im_failed (ii_metadata input)))"
  unfolding activity_record_def Let_def by (simp_all add: json_get_object)

text \<open>
  A seed of a program-derived address: text, the bytes of a key, or bytes. The derivation is a
  library's.
\<close>

datatype seed = SeedText string | SeedKey pubkey | SeedBytes "u8 list"

section \<open>The contract of a version\<close>

text \<open>
  What the configuration relies on: a version reads the state account and the actions of an
  instruction, and declares the action names its instructions have.
\<close>

locale squads_version =
  fixes state_of :: "'i \<Rightarrow> pubkey option"
    and actions_of :: "'i \<Rightarrow> string list"
    and declared :: "string list"
  assumes law_declared: "set (actions_of i) \<subseteq> set declared"
    and law_covers: "set declared \<subseteq> (\<Union>i. set (actions_of i))"
begin

lemma action_names: "(\<Union>i. set (actions_of i)) = set declared"
  using law_declared law_covers by blast

lemma logged_actions_declared:
  assumes "l \<in> set (pi_lines (process_matched C serialize snake_case now resolver (state_of i)
      idl_version (actions_of i) input))"
  shows "\<exists>a \<in> set declared. json_get (ll_record l) ''action'' = Some (JString a)"
  using assms law_declared [of i]
  by (auto simp: process_matched_def process_activity_def Let_def activity_record_fields
      split: option.splits sum.splits prod.splits)

lemma logged_at_configured_state:
  assumes "l \<in> set (pi_lines (process_matched C serialize snake_case now resolver (state_of i)
      idl_version (actions_of i) input))"
  shows "state_of i = Some (am_state_address resolver)"
  using assms
  by (auto simp: process_matched_def process_activity_def match_state_def Let_def
      split: option.splits if_splits)

end

end
