(* ===== verification/Multisig_V3.thy ===== *)
theory Multisig_V3
  imports Multisig_Common
begin

text \<open>
  The Squads v3 processor (\<open>multisig/v3.rs\<close>). The decoder is generated from the IDL; a constructor
  carries the one account the processor reads, the multisig.
\<close>

datatype v3_instruction =
    ActivateTransaction pubkey
  | AddAuthority pubkey
  | AddInstruction pubkey
  | AddMember pubkey
  | AddMemberAndChangeThreshold pubkey
  | ApproveTransaction pubkey
  | CancelTransaction pubkey
  | ChangeThreshold pubkey
  | Create pubkey
  | CreateTransaction pubkey
  | ExecuteInstruction pubkey
  | ExecuteTransaction pubkey
  | RejectTransaction pubkey
  | RemoveMember pubkey
  | RemoveMemberAndChangeThreshold pubkey

fun v3_state_address :: "v3_instruction \<Rightarrow> pubkey" where
  "v3_state_address (ActivateTransaction a) = a"
| "v3_state_address (AddAuthority a) = a"
| "v3_state_address (AddInstruction a) = a"
| "v3_state_address (AddMember a) = a"
| "v3_state_address (AddMemberAndChangeThreshold a) = a"
| "v3_state_address (ApproveTransaction a) = a"
| "v3_state_address (CancelTransaction a) = a"
| "v3_state_address (ChangeThreshold a) = a"
| "v3_state_address (Create a) = a"
| "v3_state_address (CreateTransaction a) = a"
| "v3_state_address (ExecuteInstruction a) = a"
| "v3_state_address (ExecuteTransaction a) = a"
| "v3_state_address (RejectTransaction a) = a"
| "v3_state_address (RemoveMember a) = a"
| "v3_state_address (RemoveMemberAndChangeThreshold a) = a"

definition v3_action_names :: "string list" where
  "v3_action_names =
    [''member_added'',
     ''member_removed'',
     ''multisig_created'',
     ''proposal_activated'',
     ''proposal_approved'',
     ''proposal_cancelled'',
     ''proposal_rejected'',
     ''threshold_changed'',
     ''transaction_created'',
     ''transaction_executed'',
     ''transaction_instruction_added'',
     ''transaction_instruction_executed'',
     ''vault_authority_added'']"

fun v3_actions :: "v3_instruction \<Rightarrow> string list" where
  "v3_actions (ActivateTransaction _) = [''proposal_activated'']"
| "v3_actions (AddAuthority _) = [''vault_authority_added'']"
| "v3_actions (AddInstruction _) = [''transaction_instruction_added'']"
| "v3_actions (AddMember _) = [''member_added'']"
| "v3_actions (AddMemberAndChangeThreshold _) = [''member_added'', ''threshold_changed'']"
| "v3_actions (ApproveTransaction _) = [''proposal_approved'']"
| "v3_actions (CancelTransaction _) = [''proposal_cancelled'']"
| "v3_actions (ChangeThreshold _) = [''threshold_changed'']"
| "v3_actions (Create _) = [''multisig_created'']"
| "v3_actions (CreateTransaction _) = [''transaction_created'']"
| "v3_actions (ExecuteInstruction _) = [''transaction_instruction_executed'']"
| "v3_actions (ExecuteTransaction _) = [''transaction_executed'']"
| "v3_actions (RejectTransaction _) = [''proposal_rejected'']"
| "v3_actions (RemoveMember _) = [''member_removed'']"
| "v3_actions (RemoveMemberAndChangeThreshold _) = [''member_removed'', ''threshold_changed'']"

definition squads_v3_process ::
  "codec \<Rightarrow> (v3_instruction \<Rightarrow> string + json) \<Rightarrow> (string \<Rightarrow> string) \<Rightarrow> u64 \<Rightarrow> pubkey \<Rightarrow> pubkey
   \<Rightarrow> v3_instruction instruction_input \<Rightarrow> processed_instruction"
where
  "squads_v3_process C serialize snake_case now vault_address state_address input =
     (let i = ii_decoded input
      in process_matched C serialize snake_case now (new_resolver vault_address state_address ''v3'')
           (Some (v3_state_address i)) ''1.3.0'' (v3_actions i) input)"

definition v3_default_vault :: "(seed list \<Rightarrow> pubkey) \<Rightarrow> pubkey \<Rightarrow> pubkey" where
  "v3_default_vault find_program_address multisig_state =
     find_program_address [SeedText ''squad'', SeedKey multisig_state, SeedBytes [1, 0, 0, 0], SeedText ''authority'']"

lemma v3_actions_covered:
  "set v3_action_names \<subseteq> (\<Union>i \<in> set [AddMember 0,
      RemoveMember 0,
      Create 0,
      ActivateTransaction 0,
      ApproveTransaction 0,
      CancelTransaction 0,
      RejectTransaction 0,
      AddMemberAndChangeThreshold 0,
      CreateTransaction 0,
      ExecuteTransaction 0,
      AddInstruction 0,
      ExecuteInstruction 0,
      AddAuthority 0]. set (v3_actions i))"
  by (simp add: v3_action_names_def)

interpretation v3: squads_version "\<lambda>i. Some (v3_state_address i)" "v3_actions" v3_action_names
proof
  fix i
  show "set (v3_actions i) \<subseteq> set v3_action_names"
    by (cases i) (simp_all add: v3_action_names_def)
next
  show "set v3_action_names \<subseteq> (\<Union>i. set (v3_actions i))"
    using v3_actions_covered by (rule order_trans) blast
qed

end
