(* ===== verification/Multisig_V4.thy ===== *)
theory Multisig_V4
  imports Multisig_Common
begin

text \<open>
  The Squads v4 processor (\<open>multisig/v4.rs\<close>). The decoder is generated from the IDL; a constructor
  carries the one account the processor reads, the multisig, where it reads one.
\<close>

datatype v4_instruction =
    BatchAccountsClose pubkey
  | BatchAddTransaction pubkey
  | BatchCreate pubkey
  | BatchExecuteTransaction pubkey
  | ConfigTransactionAccountsClose pubkey
  | ConfigTransactionCreate pubkey
  | ConfigTransactionExecute pubkey
  | MultisigAddMember pubkey
  | MultisigAddSpendingLimit pubkey
  | MultisigChangeThreshold pubkey
  | MultisigCreate
  | MultisigCreateV2 pubkey
  | MultisigRemoveMember pubkey
  | MultisigRemoveSpendingLimit pubkey
  | MultisigSetConfigAuthority pubkey
  | MultisigSetRentCollector pubkey
  | MultisigSetTimeLock pubkey
  | ProgramConfigInit
  | ProgramConfigSetAuthority
  | ProgramConfigSetMultisigCreationFee
  | ProgramConfigSetTreasury
  | ProposalActivate pubkey
  | ProposalApprove pubkey
  | ProposalCancel pubkey
  | ProposalCancelV2 pubkey
  | ProposalCreate pubkey
  | ProposalReject pubkey
  | SpendingLimitUse pubkey
  | TransactionBufferClose pubkey
  | TransactionBufferCreate pubkey
  | TransactionBufferExtend pubkey
  | VaultBatchTransactionAccountClose pubkey
  | VaultTransactionAccountsClose pubkey
  | VaultTransactionCreate pubkey
  | VaultTransactionCreateFromBuffer pubkey
  | VaultTransactionExecute pubkey

fun v4_state_address :: "v4_instruction \<Rightarrow> pubkey option" where
  "v4_state_address (BatchAccountsClose a) = Some a"
| "v4_state_address (BatchAddTransaction a) = Some a"
| "v4_state_address (BatchCreate a) = Some a"
| "v4_state_address (BatchExecuteTransaction a) = Some a"
| "v4_state_address (ConfigTransactionAccountsClose a) = Some a"
| "v4_state_address (ConfigTransactionCreate a) = Some a"
| "v4_state_address (ConfigTransactionExecute a) = Some a"
| "v4_state_address (MultisigAddMember a) = Some a"
| "v4_state_address (MultisigAddSpendingLimit a) = Some a"
| "v4_state_address (MultisigChangeThreshold a) = Some a"
| "v4_state_address MultisigCreate = None"
| "v4_state_address (MultisigCreateV2 a) = Some a"
| "v4_state_address (MultisigRemoveMember a) = Some a"
| "v4_state_address (MultisigRemoveSpendingLimit a) = Some a"
| "v4_state_address (MultisigSetConfigAuthority a) = Some a"
| "v4_state_address (MultisigSetRentCollector a) = Some a"
| "v4_state_address (MultisigSetTimeLock a) = Some a"
| "v4_state_address ProgramConfigInit = None"
| "v4_state_address ProgramConfigSetAuthority = None"
| "v4_state_address ProgramConfigSetMultisigCreationFee = None"
| "v4_state_address ProgramConfigSetTreasury = None"
| "v4_state_address (ProposalActivate a) = Some a"
| "v4_state_address (ProposalApprove a) = Some a"
| "v4_state_address (ProposalCancel a) = Some a"
| "v4_state_address (ProposalCancelV2 a) = Some a"
| "v4_state_address (ProposalCreate a) = Some a"
| "v4_state_address (ProposalReject a) = Some a"
| "v4_state_address (SpendingLimitUse a) = Some a"
| "v4_state_address (TransactionBufferClose a) = Some a"
| "v4_state_address (TransactionBufferCreate a) = Some a"
| "v4_state_address (TransactionBufferExtend a) = Some a"
| "v4_state_address (VaultBatchTransactionAccountClose a) = Some a"
| "v4_state_address (VaultTransactionAccountsClose a) = Some a"
| "v4_state_address (VaultTransactionCreate a) = Some a"
| "v4_state_address (VaultTransactionCreateFromBuffer a) = Some a"
| "v4_state_address (VaultTransactionExecute a) = Some a"

definition v4_action_names :: "string list" where
  "v4_action_names =
    [''batch_closed'',
     ''batch_created'',
     ''batch_transaction_added'',
     ''batch_transaction_closed'',
     ''batch_transaction_executed'',
     ''configuration_authority_changed'',
     ''configuration_transaction_closed'',
     ''configuration_transaction_created'',
     ''configuration_transaction_executed'',
     ''member_added'',
     ''member_removed'',
     ''multisig_created'',
     ''program_configuration_authority_changed'',
     ''program_configuration_initialized'',
     ''program_multisig_creation_fee_changed'',
     ''program_treasury_changed'',
     ''proposal_activated'',
     ''proposal_approved'',
     ''proposal_cancelled'',
     ''proposal_created'',
     ''proposal_rejected'',
     ''rent_collector_changed'',
     ''spending_limit_added'',
     ''spending_limit_removed'',
     ''spending_limit_used'',
     ''threshold_changed'',
     ''time_lock_changed'',
     ''transaction_buffer_closed'',
     ''transaction_buffer_created'',
     ''transaction_buffer_extended'',
     ''transaction_closed'',
     ''transaction_created'',
     ''transaction_executed'']"

fun v4_actions :: "v4_instruction \<Rightarrow> string list" where
  "v4_actions (BatchAccountsClose _) = [''batch_closed'']"
| "v4_actions (BatchAddTransaction _) = [''batch_transaction_added'']"
| "v4_actions (BatchCreate _) = [''batch_created'']"
| "v4_actions (BatchExecuteTransaction _) = [''batch_transaction_executed'']"
| "v4_actions (ConfigTransactionAccountsClose _) = [''configuration_transaction_closed'']"
| "v4_actions (ConfigTransactionCreate _) = [''configuration_transaction_created'']"
| "v4_actions (ConfigTransactionExecute _) = [''configuration_transaction_executed'']"
| "v4_actions (MultisigAddMember _) = [''member_added'']"
| "v4_actions (MultisigAddSpendingLimit _) = [''spending_limit_added'']"
| "v4_actions (MultisigChangeThreshold _) = [''threshold_changed'']"
| "v4_actions MultisigCreate = [''multisig_created'']"
| "v4_actions (MultisigCreateV2 _) = [''multisig_created'']"
| "v4_actions (MultisigRemoveMember _) = [''member_removed'']"
| "v4_actions (MultisigRemoveSpendingLimit _) = [''spending_limit_removed'']"
| "v4_actions (MultisigSetConfigAuthority _) = [''configuration_authority_changed'']"
| "v4_actions (MultisigSetRentCollector _) = [''rent_collector_changed'']"
| "v4_actions (MultisigSetTimeLock _) = [''time_lock_changed'']"
| "v4_actions ProgramConfigInit = [''program_configuration_initialized'']"
| "v4_actions ProgramConfigSetAuthority = [''program_configuration_authority_changed'']"
| "v4_actions ProgramConfigSetMultisigCreationFee = [''program_multisig_creation_fee_changed'']"
| "v4_actions ProgramConfigSetTreasury = [''program_treasury_changed'']"
| "v4_actions (ProposalActivate _) = [''proposal_activated'']"
| "v4_actions (ProposalApprove _) = [''proposal_approved'']"
| "v4_actions (ProposalCancel _) = [''proposal_cancelled'']"
| "v4_actions (ProposalCancelV2 _) = [''proposal_cancelled'']"
| "v4_actions (ProposalCreate _) = [''proposal_created'']"
| "v4_actions (ProposalReject _) = [''proposal_rejected'']"
| "v4_actions (SpendingLimitUse _) = [''spending_limit_used'']"
| "v4_actions (TransactionBufferClose _) = [''transaction_buffer_closed'']"
| "v4_actions (TransactionBufferCreate _) = [''transaction_buffer_created'']"
| "v4_actions (TransactionBufferExtend _) = [''transaction_buffer_extended'']"
| "v4_actions (VaultBatchTransactionAccountClose _) = [''batch_transaction_closed'']"
| "v4_actions (VaultTransactionAccountsClose _) = [''transaction_closed'']"
| "v4_actions (VaultTransactionCreate _) = [''transaction_created'']"
| "v4_actions (VaultTransactionCreateFromBuffer _) = [''transaction_created'']"
| "v4_actions (VaultTransactionExecute _) = [''transaction_executed'']"

definition squads_v4_process ::
  "codec \<Rightarrow> (v4_instruction \<Rightarrow> string + json) \<Rightarrow> (string \<Rightarrow> string) \<Rightarrow> u64 \<Rightarrow> pubkey \<Rightarrow> pubkey
   \<Rightarrow> v4_instruction instruction_input \<Rightarrow> processed_instruction"
where
  "squads_v4_process C serialize snake_case now vault_address state_address input =
     (let i = ii_decoded input
      in process_matched C serialize snake_case now (new_resolver vault_address state_address ''v4'')
           (v4_state_address i) ''2.1.0'' (v4_actions i) input)"

definition v4_default_vault :: "(seed list \<Rightarrow> pubkey) \<Rightarrow> pubkey \<Rightarrow> pubkey" where
  "v4_default_vault find_program_address multisig_state =
     find_program_address [SeedText ''multisig'', SeedKey multisig_state, SeedText ''vault'', SeedBytes [0]]"

lemma v4_actions_covered:
  "set v4_action_names \<subseteq> (\<Union>i \<in> set [BatchAccountsClose 0,
      BatchCreate 0,
      BatchAddTransaction 0,
      VaultBatchTransactionAccountClose 0,
      BatchExecuteTransaction 0,
      MultisigSetConfigAuthority 0,
      ConfigTransactionAccountsClose 0,
      ConfigTransactionCreate 0,
      ConfigTransactionExecute 0,
      MultisigAddMember 0,
      MultisigRemoveMember 0,
      MultisigCreate,
      ProgramConfigSetAuthority,
      ProgramConfigInit,
      ProgramConfigSetMultisigCreationFee,
      ProgramConfigSetTreasury,
      ProposalActivate 0,
      ProposalApprove 0,
      ProposalCancel 0,
      ProposalCreate 0,
      ProposalReject 0,
      MultisigSetRentCollector 0,
      MultisigAddSpendingLimit 0,
      MultisigRemoveSpendingLimit 0,
      SpendingLimitUse 0,
      MultisigChangeThreshold 0,
      MultisigSetTimeLock 0,
      TransactionBufferClose 0,
      TransactionBufferCreate 0,
      TransactionBufferExtend 0,
      VaultTransactionAccountsClose 0,
      VaultTransactionCreate 0,
      VaultTransactionExecute 0]. set (v4_actions i))"
  by (simp add: v4_action_names_def)

interpretation v4: squads_version "v4_state_address" "v4_actions" v4_action_names
proof
  fix i
  show "set (v4_actions i) \<subseteq> set v4_action_names"
    by (cases i) (simp_all add: v4_action_names_def)
next
  show "set v4_action_names \<subseteq> (\<Union>i. set (v4_actions i))"
    using v4_actions_covered by (rule order_trans) blast
qed

end
