(* ===== verification/Multisig_V5.thy ===== *)
theory Multisig_V5
  imports Multisig_Common
begin

text \<open>
  The Squads smart-account processor (\<open>multisig/smart_account.rs\<close>). The decoder is generated from
  the IDL; a constructor carries the one account the processor reads, the settings or the consensus
  account, where it reads one, and the synchronous execution of settings the actions it applies.
\<close>

datatype settings_action =
    AddSigner
  | RemoveSigner
  | ChangeThreshold
  | SetTimeLock
  | AddSpendingLimit
  | RemoveSpendingLimit
  | SetArchivalAuthority
  | PolicyCreate
  | PolicyUpdate
  | PolicyRemove

datatype v5_instruction =
    ActivateProposal pubkey
  | AddSignerAsAuthority pubkey
  | AddSpendingLimitAsAuthority pubkey
  | AddTransactionToBatch pubkey
  | ApproveProposal pubkey
  | CancelProposal pubkey
  | ChangeThresholdAsAuthority pubkey
  | CloseBatch pubkey
  | CloseBatchTransaction pubkey
  | CloseEmptyPolicyTransaction
  | CloseSettingsTransaction pubkey
  | CloseTransaction pubkey
  | CloseTransactionBuffer pubkey
  | CreateBatch pubkey
  | CreateProposal pubkey
  | CreateSettingsTransaction pubkey
  | CreateSmartAccount
  | CreateTransaction pubkey
  | CreateTransactionBuffer pubkey
  | CreateTransactionFromBuffer pubkey
  | ExecuteBatchTransaction pubkey
  | ExecuteSettingsTransaction pubkey
  | ExecuteSettingsTransactionSync pubkey "settings_action list"
  | ExecuteTransaction pubkey
  | ExecuteTransactionSync pubkey
  | ExecuteTransactionSyncV2 pubkey
  | ExtendTransactionBuffer pubkey
  | InitializeProgramConfig
  | LogEvent
  | RejectProposal pubkey
  | RemoveSignerAsAuthority pubkey
  | RemoveSpendingLimitAsAuthority pubkey
  | SetArchivalAuthorityAsAuthority pubkey
  | SetNewSettingsAuthorityAsAuthority pubkey
  | SetProgramConfigAuthority
  | SetProgramConfigSmartAccountCreationFee
  | SetProgramConfigTreasury
  | SetTimeLockAsAuthority pubkey
  | UseSpendingLimit pubkey

fun v5_state_address :: "v5_instruction \<Rightarrow> pubkey option" where
  "v5_state_address (ActivateProposal a) = Some a"
| "v5_state_address (AddSignerAsAuthority a) = Some a"
| "v5_state_address (AddSpendingLimitAsAuthority a) = Some a"
| "v5_state_address (AddTransactionToBatch a) = Some a"
| "v5_state_address (ApproveProposal a) = Some a"
| "v5_state_address (CancelProposal a) = Some a"
| "v5_state_address (ChangeThresholdAsAuthority a) = Some a"
| "v5_state_address (CloseBatch a) = Some a"
| "v5_state_address (CloseBatchTransaction a) = Some a"
| "v5_state_address CloseEmptyPolicyTransaction = None"
| "v5_state_address (CloseSettingsTransaction a) = Some a"
| "v5_state_address (CloseTransaction a) = Some a"
| "v5_state_address (CloseTransactionBuffer a) = Some a"
| "v5_state_address (CreateBatch a) = Some a"
| "v5_state_address (CreateProposal a) = Some a"
| "v5_state_address (CreateSettingsTransaction a) = Some a"
| "v5_state_address CreateSmartAccount = None"
| "v5_state_address (CreateTransaction a) = Some a"
| "v5_state_address (CreateTransactionBuffer a) = Some a"
| "v5_state_address (CreateTransactionFromBuffer a) = Some a"
| "v5_state_address (ExecuteBatchTransaction a) = Some a"
| "v5_state_address (ExecuteSettingsTransaction a) = Some a"
| "v5_state_address (ExecuteSettingsTransactionSync a _) = Some a"
| "v5_state_address (ExecuteTransaction a) = Some a"
| "v5_state_address (ExecuteTransactionSync a) = Some a"
| "v5_state_address (ExecuteTransactionSyncV2 a) = Some a"
| "v5_state_address (ExtendTransactionBuffer a) = Some a"
| "v5_state_address InitializeProgramConfig = None"
| "v5_state_address LogEvent = None"
| "v5_state_address (RejectProposal a) = Some a"
| "v5_state_address (RemoveSignerAsAuthority a) = Some a"
| "v5_state_address (RemoveSpendingLimitAsAuthority a) = Some a"
| "v5_state_address (SetArchivalAuthorityAsAuthority a) = Some a"
| "v5_state_address (SetNewSettingsAuthorityAsAuthority a) = Some a"
| "v5_state_address SetProgramConfigAuthority = None"
| "v5_state_address SetProgramConfigSmartAccountCreationFee = None"
| "v5_state_address SetProgramConfigTreasury = None"
| "v5_state_address (SetTimeLockAsAuthority a) = Some a"
| "v5_state_address (UseSpendingLimit a) = Some a"

definition v5_action_names :: "string list" where
  "v5_action_names =
    [''archival_authority_changed'',
     ''batch_closed'',
     ''batch_created'',
     ''batch_transaction_added'',
     ''batch_transaction_closed'',
     ''batch_transaction_executed'',
     ''empty_policy_transaction_closed'',
     ''event_logged'',
     ''member_added'',
     ''member_removed'',
     ''multisig_created'',
     ''policy_created'',
     ''policy_removed'',
     ''policy_updated'',
     ''program_configuration_authority_changed'',
     ''program_configuration_initialized'',
     ''program_smart_account_creation_fee_changed'',
     ''program_treasury_changed'',
     ''proposal_activated'',
     ''proposal_approved'',
     ''proposal_cancelled'',
     ''proposal_created'',
     ''proposal_rejected'',
     ''settings_authority_changed'',
     ''settings_transaction_closed'',
     ''settings_transaction_created'',
     ''settings_transaction_executed'',
     ''spending_limit_added'',
     ''spending_limit_removed'',
     ''spending_limit_used'',
     ''threshold_changed'',
     ''time_lock_changed'',
     ''transaction_buffer_closed'',
     ''transaction_buffer_created'',
     ''transaction_buffer_extended'',
     ''transaction_closed'',
     ''transaction_created'',
     ''transaction_executed'']"

fun v5_actions :: "v5_instruction \<Rightarrow> string list" where
  "v5_actions (ActivateProposal _) = [''proposal_activated'']"
| "v5_actions (AddSignerAsAuthority _) = [''member_added'']"
| "v5_actions (AddSpendingLimitAsAuthority _) = [''spending_limit_added'']"
| "v5_actions (AddTransactionToBatch _) = [''batch_transaction_added'']"
| "v5_actions (ApproveProposal _) = [''proposal_approved'']"
| "v5_actions (CancelProposal _) = [''proposal_cancelled'']"
| "v5_actions (ChangeThresholdAsAuthority _) = [''threshold_changed'']"
| "v5_actions (CloseBatch _) = [''batch_closed'']"
| "v5_actions (CloseBatchTransaction _) = [''batch_transaction_closed'']"
| "v5_actions CloseEmptyPolicyTransaction = [''empty_policy_transaction_closed'']"
| "v5_actions (CloseSettingsTransaction _) = [''settings_transaction_closed'']"
| "v5_actions (CloseTransaction _) = [''transaction_closed'']"
| "v5_actions (CloseTransactionBuffer _) = [''transaction_buffer_closed'']"
| "v5_actions (CreateBatch _) = [''batch_created'']"
| "v5_actions (CreateProposal _) = [''proposal_created'']"
| "v5_actions (CreateSettingsTransaction _) = [''settings_transaction_created'']"
| "v5_actions CreateSmartAccount = [''multisig_created'']"
| "v5_actions (CreateTransaction _) = [''transaction_created'']"
| "v5_actions (CreateTransactionFromBuffer _) = [''transaction_created'']"
| "v5_actions (CreateTransactionBuffer _) = [''transaction_buffer_created'']"
| "v5_actions (ExecuteBatchTransaction _) = [''batch_transaction_executed'']"
| "v5_actions (ExecuteSettingsTransaction _) = [''settings_transaction_executed'']"
| "v5_actions (ExecuteSettingsTransactionSync _ _) = [''settings_transaction_executed'']"
| "v5_actions (ExecuteTransaction _) = [''transaction_executed'']"
| "v5_actions (ExecuteTransactionSync _) = [''transaction_executed'']"
| "v5_actions (ExecuteTransactionSyncV2 _) = [''transaction_executed'']"
| "v5_actions (ExtendTransactionBuffer _) = [''transaction_buffer_extended'']"
| "v5_actions InitializeProgramConfig = [''program_configuration_initialized'']"
| "v5_actions LogEvent = [''event_logged'']"
| "v5_actions (RejectProposal _) = [''proposal_rejected'']"
| "v5_actions (RemoveSignerAsAuthority _) = [''member_removed'']"
| "v5_actions (RemoveSpendingLimitAsAuthority _) = [''spending_limit_removed'']"
| "v5_actions (SetArchivalAuthorityAsAuthority _) = [''archival_authority_changed'']"
| "v5_actions (SetNewSettingsAuthorityAsAuthority _) = [''settings_authority_changed'']"
| "v5_actions SetProgramConfigAuthority = [''program_configuration_authority_changed'']"
| "v5_actions SetProgramConfigSmartAccountCreationFee = [''program_smart_account_creation_fee_changed'']"
| "v5_actions SetProgramConfigTreasury = [''program_treasury_changed'']"
| "v5_actions (SetTimeLockAsAuthority _) = [''time_lock_changed'']"
| "v5_actions (UseSpendingLimit _) = [''spending_limit_used'']"

fun settings_action_name :: "settings_action \<Rightarrow> string" where
  "settings_action_name AddSigner = ''member_added''"
| "settings_action_name RemoveSigner = ''member_removed''"
| "settings_action_name ChangeThreshold = ''threshold_changed''"
| "settings_action_name SetTimeLock = ''time_lock_changed''"
| "settings_action_name AddSpendingLimit = ''spending_limit_added''"
| "settings_action_name RemoveSpendingLimit = ''spending_limit_removed''"
| "settings_action_name SetArchivalAuthority = ''archival_authority_changed''"
| "settings_action_name PolicyCreate = ''policy_created''"
| "settings_action_name PolicyUpdate = ''policy_updated''"
| "settings_action_name PolicyRemove = ''policy_removed''"

fun applied_settings_actions :: "v5_instruction \<Rightarrow> string list" where
  "applied_settings_actions (ExecuteSettingsTransactionSync _ applied) = map settings_action_name applied"
| "applied_settings_actions _ = []"

definition smart_account_process ::
  "codec \<Rightarrow> (v5_instruction \<Rightarrow> string + json) \<Rightarrow> (string \<Rightarrow> string) \<Rightarrow> u64 \<Rightarrow> pubkey \<Rightarrow> pubkey
   \<Rightarrow> v5_instruction instruction_input \<Rightarrow> processed_instruction"
where
  "smart_account_process C serialize snake_case now vault_address state_address input =
     (let i = ii_decoded input
      in process_matched C serialize snake_case now (new_resolver vault_address state_address ''v5'')
           (v5_state_address i) ''0.1.0'' (v5_actions i @ applied_settings_actions i) input)"

definition v5_default_vault :: "(seed list \<Rightarrow> pubkey) \<Rightarrow> pubkey \<Rightarrow> pubkey" where
  "v5_default_vault find_program_address multisig_state =
     find_program_address [SeedText ''smart_account'', SeedKey multisig_state, SeedText ''smart_account'', SeedBytes [0]]"

lemma settings_action_declared: "settings_action_name a \<in> set v5_action_names"
  by (cases a) (simp_all add: v5_action_names_def)

lemma v5_actions_declared: "set (v5_actions i) \<subseteq> set v5_action_names"
  by (cases i) (simp_all add: v5_action_names_def)

lemma applied_actions_declared: "set (applied_settings_actions i) \<subseteq> set v5_action_names"
  by (cases i) (auto simp: settings_action_declared)

lemma v5_actions_covered:
  "set v5_action_names \<subseteq> (\<Union>i \<in> set [SetArchivalAuthorityAsAuthority 0,
      CloseBatch 0,
      CreateBatch 0,
      AddTransactionToBatch 0,
      CloseBatchTransaction 0,
      ExecuteBatchTransaction 0,
      CloseEmptyPolicyTransaction,
      LogEvent,
      AddSignerAsAuthority 0,
      RemoveSignerAsAuthority 0,
      CreateSmartAccount,
      SetProgramConfigAuthority,
      InitializeProgramConfig,
      SetProgramConfigSmartAccountCreationFee,
      SetProgramConfigTreasury,
      ActivateProposal 0,
      ApproveProposal 0,
      CancelProposal 0,
      CreateProposal 0,
      RejectProposal 0,
      SetNewSettingsAuthorityAsAuthority 0,
      CloseSettingsTransaction 0,
      CreateSettingsTransaction 0,
      ExecuteSettingsTransaction 0,
      AddSpendingLimitAsAuthority 0,
      RemoveSpendingLimitAsAuthority 0,
      UseSpendingLimit 0,
      ChangeThresholdAsAuthority 0,
      SetTimeLockAsAuthority 0,
      CloseTransactionBuffer 0,
      CreateTransactionBuffer 0,
      ExtendTransactionBuffer 0,
      CloseTransaction 0,
      CreateTransaction 0,
      ExecuteTransaction 0,
      ExecuteSettingsTransactionSync 0 [PolicyCreate, PolicyUpdate, PolicyRemove]]. set (v5_actions i @ applied_settings_actions i))"
  by (simp add: v5_action_names_def)

interpretation v5: squads_version "v5_state_address" "\<lambda>i. v5_actions i @ applied_settings_actions i" v5_action_names
proof
  fix i
  show "set (v5_actions i @ applied_settings_actions i) \<subseteq> set v5_action_names"
    using v5_actions_declared applied_actions_declared by auto
next
  show "set v5_action_names \<subseteq> (\<Union>i. set (v5_actions i @ applied_settings_actions i))"
    using v5_actions_covered by (rule order_trans) blast
qed

text \<open>
  The occurrence path keeps the records of different instructions apart, but not those of one: a
  synchronous settings transaction that adds two signers logs two records that do not differ.
\<close>

lemma repeated_settings_actions_identical:
  assumes "ii_decoded input = ExecuteSettingsTransactionSync state_address [AddSigner, AddSigner]"
    and "to_log_data serialize snake_case (ii_decoded input) = Inr instruction"
  shows "\<not> distinct (pi_lines (smart_account_process C serialize snake_case now vault state_address input))"
  using assms
  by (simp add: smart_account_process_def process_matched_def match_state_def new_resolver_def
      process_activity_def)

end
