(* ===== verification/Multisig.thy ===== *)
theory Multisig
  imports Multisig_V3 Multisig_V4 Multisig_V5
begin

text \<open>
  The Squads multisig as the rest of the program sees it (\<open>multisig/mod.rs\<close>,
  \<open>multisig/verification.rs\<close>): the versions, their action names, the verification of the configured
  pair of addresses, and what the processors log for it. \<open>derive\<close> is the derivation of addresses
  of the program of a version.
\<close>

datatype multisig_version = V3 | V4 | V5

definition version_str :: "multisig_version \<Rightarrow> string" where
  "version_str v = (case v of V3 \<Rightarrow> ''v3'' | V4 \<Rightarrow> ''v4'' | V5 \<Rightarrow> ''v5'')"

definition action_names :: "multisig_version \<Rightarrow> string list" where
  "action_names v = (case v of V3 \<Rightarrow> v3_action_names | V4 \<Rightarrow> v4_action_names | V5 \<Rightarrow> v5_action_names)"

section \<open>Verification\<close>

record verified_multisig =
  vm_vault_address :: pubkey
  vm_state_address :: pubkey
  vm_version :: multisig_version

definition verify ::
  "(multisig_version \<Rightarrow> seed list \<Rightarrow> pubkey) \<Rightarrow> pubkey \<Rightarrow> pubkey \<Rightarrow> multisig_version
   \<Rightarrow> verified_multisig + verified_multisig"
where
  "verify derive vault_address state_address version =
     (let derived_vault =
            (case version of
               V3 \<Rightarrow> v3_default_vault (derive V3) state_address
             | V4 \<Rightarrow> v4_default_vault (derive V4) state_address
             | V5 \<Rightarrow> v5_default_vault (derive V5) state_address);
          pair = \<lparr>vm_vault_address = vault_address, vm_state_address = state_address, vm_version = version\<rparr>
      in if derived_vault \<noteq> vault_address then Inl pair else Inr pair)"

definition verification_error_text :: "codec \<Rightarrow> verified_multisig \<Rightarrow> string" where
  "verification_error_text C e =
     ''multisig.state_address '' @ key_str C (vm_state_address e)
     @ '' does not derive configured Squads '' @ version_str (vm_version e) @ '' vault_address ''
     @ key_str C (vm_vault_address e)
     @ ''; state_address is the internal Squads account (v3 Ms, v4 Multisig, v5 Settings), ''
     @ ''not the vault the Squads UI shows, and only one version verifies a given pair; ''
     @ ''see docs/operations.md''"

text \<open>The seeds of the vault of a version, and the bytes a derivation hashes for a list of seeds.\<close>

definition vault_seeds :: "multisig_version \<Rightarrow> pubkey \<Rightarrow> seed list" where
  "vault_seeds v state = (case v of
     V3 \<Rightarrow> [SeedText ''squad'', SeedKey state, SeedBytes [1, 0, 0, 0], SeedText ''authority'']
   | V4 \<Rightarrow> [SeedText ''multisig'', SeedKey state, SeedText ''vault'', SeedBytes [0]]
   | V5 \<Rightarrow> [SeedText ''smart_account'', SeedKey state, SeedText ''smart_account'', SeedBytes [0]])"

definition key_bytes :: "pubkey \<Rightarrow> u8 list" where
  "key_bytes k = map (\<lambda>i. ucast (drop_bit (8 * i) k)) [0..<32]"

definition seed_bytes :: "seed \<Rightarrow> u8 list" where
  "seed_bytes s = (case s of
     SeedText t \<Rightarrow> map (\<lambda>c. of_char c) t | SeedKey k \<Rightarrow> key_bytes k | SeedBytes bs \<Rightarrow> bs)"

definition hashed_bytes :: "seed list \<Rightarrow> u8 list" where
  "hashed_bytes seeds = concat (map seed_bytes seeds)"

text \<open>
  The derivation of addresses does not collide: on the given inputs, equal addresses come of the same
  program and the same bytes (the documented assumption of program-derived addresses, which hash
  the seeds one after the other). That different accounts give different bytes is the program's.
\<close>

definition collision_free ::
  "(multisig_version \<Rightarrow> seed list \<Rightarrow> pubkey) \<Rightarrow> (multisig_version \<times> seed list) set \<Rightarrow> bool" where
  "collision_free derive inputs \<longleftrightarrow>
     (\<forall>(v, seeds) \<in> inputs. \<forall>(v', seeds') \<in> inputs.
        derive v seeds = derive v' seeds' \<longrightarrow> v = v' \<and> hashed_bytes seeds = hashed_bytes seeds')"

definition vault_inputs :: "pubkey set \<Rightarrow> (multisig_version \<times> seed list) set" where
  "vault_inputs S = {(v, vault_seeds v s) | v s. s \<in> S}"

lemma key_bytes_inject: "key_bytes k = key_bytes k' \<longleftrightarrow> k = k'"
proof
  assume eq: "key_bytes k = key_bytes k'"
  have "bit k n = bit k' n" if n: "n < 256" for n
  proof -
    have i: "n div 8 < 32" using n by simp
    then have "(ucast (drop_bit (8 * (n div 8)) k) :: u8) = ucast (drop_bit (8 * (n div 8)) k')"
      using arg_cong [OF eq, of "\<lambda>bs. bs ! (n div 8)"] by (simp add: key_bytes_def)
    then have "bit (ucast (drop_bit (8 * (n div 8)) k) :: u8) (n mod 8)
        = bit (ucast (drop_bit (8 * (n div 8)) k') :: u8) (n mod 8)" by simp
    then show ?thesis by (simp add: bit_ucast_iff bit_drop_bit_eq)
  qed
  then show "k = k'" by (intro bit_word_eqI) simp
qed simp

lemma length_key_bytes [simp]: "length (key_bytes k) = 32"
  by (simp add: key_bytes_def)

lemma vault_bytes_inject: "hashed_bytes (vault_seeds v s) = hashed_bytes (vault_seeds v s') \<Longrightarrow> s = s'"
  by (cases v) (simp_all add: hashed_bytes_def vault_seeds_def seed_bytes_def key_bytes_inject)

lemma collision_freeD:
  assumes "collision_free derive (vault_inputs S)" "s \<in> S" "s' \<in> S"
    and "derive v (vault_seeds v s) = derive v' (vault_seeds v' s')"
  shows "v = v' \<and> s = s'"
proof -
  have "(v, vault_seeds v s) \<in> vault_inputs S" "(v', vault_seeds v' s') \<in> vault_inputs S"
    using assms(2,3) by (auto simp: vault_inputs_def)
  then have "v = v' \<and> hashed_bytes (vault_seeds v s) = hashed_bytes (vault_seeds v' s')"
    using assms(1,4) unfolding collision_free_def by (metis (mono_tags, lifting) case_prodD)
  then show ?thesis using vault_bytes_inject by blast
qed

lemma verify_Inr:
  "verify derive vault state v = Inr m \<longleftrightarrow>
    derive v (vault_seeds v state) = vault
    \<and> m = \<lparr>vm_vault_address = vault, vm_state_address = state, vm_version = v\<rparr>"
  by (cases v) (auto simp: verify_def Let_def vault_seeds_def v3_default_vault_def
      v4_default_vault_def v5_default_vault_def)

lemma verify_Inl:
  "verify derive vault state v = Inl e \<longleftrightarrow>
    derive v (vault_seeds v state) \<noteq> vault
    \<and> e = \<lparr>vm_vault_address = vault, vm_state_address = state, vm_version = v\<rparr>"
  by (cases v) (auto simp: verify_def Let_def vault_seeds_def v3_default_vault_def
      v4_default_vault_def v5_default_vault_def)


text \<open>A derivation that tells the three programs apart.\<close>

definition demo_derive :: "multisig_version \<Rightarrow> seed list \<Rightarrow> pubkey" where
  "demo_derive v seeds =
     (case v of V3 \<Rightarrow> 1000 | V4 \<Rightarrow> 2000 | V5 \<Rightarrow> 3000)
     + sum_list (map (\<lambda>s. case s of SeedKey k \<Rightarrow> k | _ \<Rightarrow> 0) seeds)"

lemma demo_derive_keys:
  "demo_derive v (vault_seeds v s) = (case v of V3 \<Rightarrow> 1000 | V4 \<Rightarrow> 2000 | V5 \<Rightarrow> 3000) + s"
  by (cases v) (simp_all add: demo_derive_def vault_seeds_def)


section \<open>What is logged\<close>

text \<open>A processed instruction of any of the versions.\<close>

datatype squads_input =
    V3_Input "v3_instruction instruction_input"
  | V4_Input "v4_instruction instruction_input"
  | V5_Input "v5_instruction instruction_input"

record squads_library =
  sl_serialize_v3 :: "v3_instruction \<Rightarrow> string + json"
  sl_serialize_v4 :: "v4_instruction \<Rightarrow> string + json"
  sl_serialize_v5 :: "v5_instruction \<Rightarrow> string + json"
  sl_snake_case :: "string \<Rightarrow> string"

fun squads_process ::
  "codec \<Rightarrow> squads_library \<Rightarrow> u64 \<Rightarrow> verified_multisig \<Rightarrow> squads_input \<Rightarrow> processed_instruction"
where
  "squads_process C L now m (V3_Input i) =
     squads_v3_process C (sl_serialize_v3 L) (sl_snake_case L) now (vm_vault_address m) (vm_state_address m) i"
| "squads_process C L now m (V4_Input i) =
     squads_v4_process C (sl_serialize_v4 L) (sl_snake_case L) now (vm_vault_address m) (vm_state_address m) i"
| "squads_process C L now m (V5_Input i) =
     smart_account_process C (sl_serialize_v5 L) (sl_snake_case L) now (vm_vault_address m) (vm_state_address m) i"

fun squads_input_version :: "squads_input \<Rightarrow> multisig_version" where
  "squads_input_version (V3_Input i) = V3"
| "squads_input_version (V4_Input i) = V4"
| "squads_input_version (V5_Input i) = V5"

fun squads_input_state :: "squads_input \<Rightarrow> pubkey option" where
  "squads_input_state (V3_Input i) = Some (v3_state_address (ii_decoded i))"
| "squads_input_state (V4_Input i) = v4_state_address (ii_decoded i)"
| "squads_input_state (V5_Input i) = v5_state_address (ii_decoded i)"

lemmas squads_process_defs = squads_v3_process_def squads_v4_process_def smart_account_process_def

lemma counted_lines:
  "length (pi_lines (process_matched C serialize snake_case now resolver state idl_version actions input)) =
   counter_total ''microscope_multisig_activity_total''
     (pi_metrics (process_matched C serialize snake_case now resolver state idl_version actions input))"
proof -
  have "counter_total ''microscope_multisig_activity_total''
      (concat (map (\<lambda>a. record_multisig_activity v a failed) as)) = length as" for v failed as
    by (induction as) (simp_all add: record_multisig_activity_def)
  then show ?thesis
    by (auto simp: process_matched_def process_activity_def match_state_def Let_def record_event_def
        record_multisig_unmatched_state_def split: option.splits sum.splits)
qed

text \<open>
  C25: Multisig activity is logged only for the configured state account, under an action name the
  configuration knows, and every line is counted: the alerts of a deployment see no other
  multisig, and the metric agrees with the log.
\<close>

theorem multisig_activity_logged:
  assumes "l \<in> set (pi_lines (squads_process C L now m i))"
  shows "squads_input_state i = Some (vm_state_address m)
    \<and> (\<exists>a \<in> set (action_names (squads_input_version i)). json_get (ll_record l) ''action'' = Some (JString a))
    \<and> length (pi_lines (squads_process C L now m i)) =
        counter_total ''microscope_multisig_activity_total'' (pi_metrics (squads_process C L now m i))"
proof (cases i)
  case (V3_Input j)
  note l = assms [unfolded V3_Input squads_process.simps squads_v3_process_def Let_def]
  show ?thesis
    using v3.logged_actions_declared [OF l] v3.logged_at_configured_state [OF l]
    by (simp add: V3_Input action_names_def squads_v3_process_def Let_def new_resolver_def counted_lines)
next
  case (V4_Input j)
  note l = assms [unfolded V4_Input squads_process.simps squads_v4_process_def Let_def]
  show ?thesis
    using v4.logged_actions_declared [OF l] v4.logged_at_configured_state [OF l]
    by (simp add: V4_Input action_names_def squads_v4_process_def Let_def new_resolver_def counted_lines)
next
  case (V5_Input j)
  note l = assms [unfolded V5_Input squads_process.simps smart_account_process_def Let_def]
  show ?thesis
    using v5.logged_actions_declared [OF l] v5.logged_at_configured_state [OF l]
    by (simp add: V5_Input action_names_def smart_account_process_def Let_def new_resolver_def counted_lines)
qed

text \<open>
  The action names of a version that no instruction with a state account has: the configuration
  accepts alerts on them that never fire.
\<close>

definition unloggable :: "multisig_version \<Rightarrow> string list" where
  "unloggable v = (case v of
     V3 \<Rightarrow> []
   | V4 \<Rightarrow> [''program_configuration_authority_changed'', ''program_configuration_initialized'',
       ''program_multisig_creation_fee_changed'', ''program_treasury_changed'']
   | V5 \<Rightarrow> [''empty_policy_transaction_closed'', ''event_logged'', ''multisig_created'',
       ''program_configuration_authority_changed'', ''program_configuration_initialized'',
       ''program_smart_account_creation_fee_changed'', ''program_treasury_changed''])"

definition loggable :: "multisig_version \<Rightarrow> string set" where
  "loggable v = (case v of
     V3 \<Rightarrow> (\<Union>i. set (v3_actions i))
   | V4 \<Rightarrow> (\<Union>i \<in> {i. v4_state_address i \<noteq> None}. set (v4_actions i))
   | V5 \<Rightarrow> (\<Union>i \<in> {i. v5_state_address i \<noteq> None}. set (v5_actions i @ applied_settings_actions i)))"

lemma exact_union:
  assumes cover: "N \<subseteq> U \<union> (\<Union>i \<in> R. f i)" and reps: "\<And>i. i \<in> R \<Longrightarrow> P i"
    and sub: "\<And>i. f i \<subseteq> N" and dis: "\<And>i. P i \<Longrightarrow> f i \<inter> U = {}"
  shows "(\<Union>i \<in> {i. P i}. f i) = N - U"
proof
  show "(\<Union>i \<in> {i. P i}. f i) \<subseteq> N - U"
  proof
    fix x
    assume "x \<in> (\<Union>i \<in> {i. P i}. f i)"
    then obtain i where "P i" "x \<in> f i" by auto
    then show "x \<in> N - U" using sub [of i] dis [of i] by auto
  qed
  show "N - U \<subseteq> (\<Union>i \<in> {i. P i}. f i)"
  proof
    fix x
    assume "x \<in> N - U"
    then obtain i where "i \<in> R" "x \<in> f i" using cover by auto
    then show "x \<in> (\<Union>i \<in> {i. P i}. f i)" using reps by auto
  qed
qed

definition v4_with_state :: "v4_instruction list" where
  "v4_with_state =
     [BatchAccountsClose 0,
      BatchCreate 0,
      BatchAddTransaction 0,
      VaultBatchTransactionAccountClose 0,
      BatchExecuteTransaction 0,
      MultisigSetConfigAuthority 0,
      ConfigTransactionAccountsClose 0,
      ConfigTransactionCreate 0,
      ConfigTransactionExecute 0,
      MultisigAddMember 0,
      MultisigRemoveMember 0,
      MultisigCreateV2 0,
      ProposalActivate 0,
      ProposalApprove 0,
      ProposalCancel 0,
      ProposalCreate 0,
      ProposalReject 0,
      MultisigSetRentCollector 0,
      MultisigAddSpendingLimit 0,
      MultisigRemoveSpendingLimit 0,
      SpendingLimitUse 0,
      MultisigChangeThreshold 0,
      MultisigSetTimeLock 0,
      TransactionBufferClose 0,
      TransactionBufferCreate 0,
      TransactionBufferExtend 0,
      VaultTransactionAccountsClose 0,
      VaultTransactionCreate 0,
      VaultTransactionExecute 0]"

lemma v4_loggable:
  "set v4_action_names \<subseteq> set (unloggable V4) \<union> (\<Union>i \<in> set v4_with_state. set (v4_actions i))"
  by (simp add: v4_action_names_def unloggable_def v4_with_state_def)

lemma v4_unloggable:
  assumes "v4_state_address i \<noteq> None"
  shows "set (v4_actions i) \<inter> set (unloggable V4) = {}"
  using assms by (cases i) (simp_all add: unloggable_def)

lemma v4_with_state: "i \<in> set v4_with_state \<Longrightarrow> v4_state_address i \<noteq> None"
  by (auto simp: v4_with_state_def)

definition v5_with_state :: "v5_instruction list" where
  "v5_with_state =
     [SetArchivalAuthorityAsAuthority 0,
      CloseBatch 0,
      CreateBatch 0,
      AddTransactionToBatch 0,
      CloseBatchTransaction 0,
      ExecuteBatchTransaction 0,
      AddSignerAsAuthority 0,
      RemoveSignerAsAuthority 0,
      ActivateProposal 0,
      ApproveProposal 0,
      CancelProposal 0,
      CreateProposal 0,
      RejectProposal 0,
      SetNewSettingsAuthorityAsAuthority 0,
      CloseSettingsTransaction 0,
      CreateSettingsTransaction 0,
      ExecuteSettingsTransaction 0,
      AddSpendingLimitAsAuthority 0,
      RemoveSpendingLimitAsAuthority 0,
      UseSpendingLimit 0,
      ChangeThresholdAsAuthority 0,
      SetTimeLockAsAuthority 0,
      CloseTransactionBuffer 0,
      CreateTransactionBuffer 0,
      ExtendTransactionBuffer 0,
      CloseTransaction 0,
      CreateTransaction 0,
      ExecuteTransaction 0,
      ExecuteSettingsTransactionSync 0 [PolicyCreate, PolicyUpdate, PolicyRemove]]"

lemma v5_loggable:
  "set v5_action_names \<subseteq> set (unloggable V5) \<union> (\<Union>i \<in> set v5_with_state. set (v5_actions i @ applied_settings_actions i))"
  by (simp add: v5_action_names_def unloggable_def v5_with_state_def)

lemma v5_unloggable:
  assumes "v5_state_address i \<noteq> None"
  shows "set (v5_actions i @ applied_settings_actions i) \<inter> set (unloggable V5) = {}"
proof -
  have applied: "settings_action_name a \<notin> set (unloggable V5)" for a
    by (cases a) (simp_all add: unloggable_def)
  have "set (v5_actions i) \<inter> set (unloggable V5) = {}"
    using assms by (cases i) (simp_all add: unloggable_def)
  moreover have "set (applied_settings_actions i) \<inter> set (unloggable V5) = {}"
    using applied by (cases i) auto
  ultimately show ?thesis by auto
qed

lemma v5_with_state: "i \<in> set v5_with_state \<Longrightarrow> v5_state_address i \<noteq> None"
  by (auto simp: v5_with_state_def)

text \<open>
  An alert on an action name fires only if some instruction with a state account has that action:
  these are exactly the declared names without the ones listed per version, so every v3 name and,
  in v4, the creation of a multisig can fire.
\<close>

theorem loggable_actions: "loggable v = set (action_names v) - set (unloggable v)"
proof (cases v)
  case V3
  then show ?thesis by (simp add: loggable_def action_names_def unloggable_def v3.action_names)
next
  case V4
  show ?thesis
    unfolding V4 loggable_def action_names_def multisig_version.case
    by (rule exact_union [OF v4_loggable v4_with_state v4.law_declared v4_unloggable])
next
  case V5
  show ?thesis
    unfolding V5 loggable_def action_names_def multisig_version.case
    by (rule exact_union [OF v5_loggable v5_with_state v5.law_declared v5_unloggable])
qed

section \<open>An approval of the configured multisig\<close>

definition demo_multisig :: verified_multisig where
  "demo_multisig = \<lparr>vm_vault_address = 2007, vm_state_address = 7, vm_version = V4\<rparr>"

definition demo_squads_library :: squads_library where
  "demo_squads_library = \<lparr>sl_serialize_v3 = (\<lambda>i. Inl ''unused''),
     sl_serialize_v4 = (\<lambda>i. Inr (JObject [(''data'', JNull), (''type'', JString ''ProposalApprove'')])),
     sl_serialize_v5 = (\<lambda>i. Inl ''unused''), sl_snake_case = (\<lambda>s. s)\<rparr>"

definition demo_metadata :: instruction_metadata where
  "demo_metadata = \<lparr>im_signature = 9, im_slot = 100, im_block_time = None, im_failed = False,
     im_log_messages = None, im_index = 0, im_stack_height = 1, im_absolute_path = [0]\<rparr>"

definition demo_approval :: squads_input where
  "demo_approval = V4_Input \<lparr>ii_decoded = ProposalApprove 7, ii_program_id = 4, ii_metadata = demo_metadata\<rparr>"

theorem multisig_activity_logged_witness:
  "\<exists>l. l \<in> set (pi_lines (squads_process decimal_codec demo_squads_library 0 demo_multisig demo_approval))
    \<and> (\<exists>a \<in> set (action_names V4). json_get (ll_record l) ''action'' = Some (JString a))
    \<and> squads_input_state demo_approval = Some 7"
proof -
  have log: "to_log_data (sl_serialize_v4 demo_squads_library) (sl_snake_case demo_squads_library) (ProposalApprove 7)
      = Inr \<lparr>il_name = ''ProposalApprove'', il_data = JNull\<rparr>"
    by (simp add: to_log_data_def demo_squads_library_def om_get_def om_remove_def json_as_str_def)
  have "pi_lines (squads_process decimal_codec demo_squads_library 0 demo_multisig demo_approval) \<noteq> []"
    by (simp add: demo_approval_def demo_multisig_def squads_v4_process_def process_matched_def
        process_activity_def match_state_def new_resolver_def Let_def log)
  then obtain l where l: "l \<in> set (pi_lines (squads_process decimal_codec demo_squads_library 0 demo_multisig demo_approval))"
    by (meson list.set_sel(1))
  have version: "squads_input_version demo_approval = V4" "vm_state_address demo_multisig = 7"
    by (simp_all add: demo_approval_def demo_multisig_def)
  show ?thesis
    using multisig_activity_logged [OF l] l unfolding version by blast
qed

end
