(* ===== verification/Config.thy ===== *)
theory Config
  imports Multisig
begin

text \<open>
  The configuration of a deployment (\<open>config.rs\<close>): its data with the defaults of the fields that
  may be left out, and the validation a load ends with. TOML and JSON texts are parsed by
  libraries (parameters); an error is a value of \<open>config_error\<close>, a context one of its constructors.
\<close>

section \<open>Data\<close>

definition grafana_scheduler_interval_seconds :: u64 where "grafana_scheduler_interval_seconds = 10"
definition min_rpc_poll_interval_seconds :: u64 where "min_rpc_poll_interval_seconds = 1"
definition max_rpc_poll_interval_seconds :: u64 where "max_rpc_poll_interval_seconds = 300"
definition min_rpc_replay_window_slots :: u64 where "min_rpc_replay_window_slots = 1"
definition max_rpc_replay_window_slots :: u64 where "max_rpc_replay_window_slots = 100000"
definition max_exact_loki_integer :: nat where "max_exact_loki_integer = 2 ^ 53"
definition rpc_poll_failure_window_seconds :: u64 where "rpc_poll_failure_window_seconds = 900"

datatype alert_kind = EventAlert | InstructionAlert | MultisigAlert

definition alert_kind_str :: "alert_kind \<Rightarrow> string" where
  "alert_kind_str k = (case k of
     EventAlert \<Rightarrow> ''event'' | InstructionAlert \<Rightarrow> ''instruction'' | MultisigAlert \<Rightarrow> ''multisig'')"

datatype alert_severity = Critical | Error | Warning | Info

definition alert_severity_str :: "alert_severity \<Rightarrow> string" where
  "alert_severity_str s = (case s of
     Critical \<Rightarrow> ''critical'' | Error \<Rightarrow> ''error'' | Warning \<Rightarrow> ''warning'' | Info \<Rightarrow> ''info'')"

datatype alert_channel = Slack | Telegram | Pagerduty

definition alert_channel_str :: "alert_channel \<Rightarrow> string" where
  "alert_channel_str c = (case c of
     Slack \<Rightarrow> ''slack'' | Telegram \<Rightarrow> ''telegram'' | Pagerduty \<Rightarrow> ''pagerduty'')"

datatype alert_match = MatchAll | MatchAny

definition alert_match_str :: "alert_match \<Rightarrow> string" where
  "alert_match_str m = (case m of MatchAll \<Rightarrow> ''all'' | MatchAny \<Rightarrow> ''any'')"

datatype alert_operator = Exists | Contains | OpEq | OpNe | OpGt | OpGte | OpLt | OpLte

definition alert_operator_str :: "alert_operator \<Rightarrow> string" where
  "alert_operator_str o' = (case o' of
     Exists \<Rightarrow> ''exists'' | Contains \<Rightarrow> ''contains'' | OpEq \<Rightarrow> ''eq'' | OpNe \<Rightarrow> ''ne''
   | OpGt \<Rightarrow> ''gt'' | OpGte \<Rightarrow> ''gte'' | OpLt \<Rightarrow> ''lt'' | OpLte \<Rightarrow> ''lte'')"

text \<open>A float is its text and whether it is finite; an integer is an \<open>i64\<close>.\<close>

record float64 =
  f_text :: string
  f_finite :: bool

datatype alert_value =
    AlertInteger "64 word" | AlertFloat float64 | AlertBoolean bool | AlertString string

record alert_condition =
  ac_field :: string
  ac_operator :: alert_operator
  ac_value :: "alert_value option"

record alert_rule =
  ar_kind :: alert_kind
  ar_name :: string
  ar_match_mode :: alert_match
  ar_conditions :: "alert_condition list"
  ar_severity :: alert_severity
  ar_channels :: "alert_channel list"
  ar_lookback_window :: "u64 option"
  ar_evaluation_interval :: "u64 option"

record alerting_config =
  al_lookback_window :: u64
  al_evaluation_interval :: u64
  al_explorer_transaction_url :: string
  al_rpc_poll_sustained_failure :: u64
  al_health_pending_period :: u64
  al_multisig_unmatched_window :: u64

definition alerting_config_default :: alerting_config where
  "alerting_config_default = \<lparr>al_lookback_window = 60, al_evaluation_interval = 10,
     al_explorer_transaction_url = ''https://explorer.solana.com/tx/{signature}'',
     al_rpc_poll_sustained_failure = 45, al_health_pending_period = 300,
     al_multisig_unmatched_window = 3600\<rparr>"

record dashboard_config =
  db_event_fields :: "string list"
  db_multisig_fields :: "string list"

definition dashboard_config_default :: dashboard_config where
  "dashboard_config_default =
     \<lparr>db_event_fields = [''name'', ''source'', ''signature'', ''slot'', ''failed''],
      db_multisig_fields = [''action'', ''squads_version'', ''instruction'', ''signature'', ''slot'', ''failed'']\<rparr>"

record multisig_config =
  mc_vault_address :: string
  mc_state_address :: string
  mc_version :: multisig_version

datatype datasource_mode = YellowstoneMode | RpcMode

definition datasource_mode_str :: "datasource_mode \<Rightarrow> string" where
  "datasource_mode_str m = (case m of YellowstoneMode \<Rightarrow> ''yellowstone'' | RpcMode \<Rightarrow> ''rpc'')"

record datasource_config =
  dc_mode :: datasource_mode
  dc_poll_interval :: u64
  dc_replay_window :: u64

definition datasource_config_default :: datasource_config where
  "datasource_config_default =
     \<lparr>dc_mode = YellowstoneMode, dc_poll_interval = 5, dc_replay_window = 600\<rparr>"

definition polls_rpc_with :: "datasource_config \<Rightarrow> string option \<Rightarrow> bool" where
  "polls_rpc_with c rpc_url \<longleftrightarrow> dc_mode c = RpcMode
     \<or> (case rpc_url of None \<Rightarrow> False | Some url \<Rightarrow> trim url \<noteq> [])"

definition polls_rpc :: "datasource_config \<Rightarrow> (string \<Rightarrow> string option) \<Rightarrow> bool" where
  "polls_rpc c var = polls_rpc_with c (var ''RPC_URL'')"

definition sat_mul :: "u64 \<Rightarrow> u64 \<Rightarrow> u64" where
  "sat_mul a b = (if unat a * unat b < 2 ^ 64 then a * b else - 1)"

definition rpc_poll_stale_after_seconds :: "datasource_config \<Rightarrow> u64" where
  "rpc_poll_stale_after_seconds c =
     (let threshold = sat_mul (dc_poll_interval c) 6 in if threshold < 60 then 60 else threshold)"

record config =
  cf_program_id :: string
  cf_idl_path :: string
  cf_multisig :: "multisig_config option"
  cf_datasource :: datasource_config
  cf_alerting :: alerting_config
  cf_dashboard :: dashboard_config
  cf_alert_rules :: "alert_rule list"

section \<open>Errors\<close>

datatype config_error =
    ReadingConfigFile string
  | ParsingConfigFile string
  | InvalidProgramId string
  | InvalidVaultAddress string
  | InvalidStateAddress string
  | IdlFileMissing
  | PollIntervalOutOfRange
  | ReplayWindowOutOfRange
  | InvalidAlertingDefaults config_error
  | LookbackZero
  | EvaluationZero
  | EvaluationNotSchedulable
  | LookbackBelowEvaluation
  | SustainedFailureOutOfRange
  | PendingPeriodZero
  | UnmatchedWindowZero
  | NoDashboardField string
  | InvalidDashboardField string config_error
  | DuplicateDashboardField string string
  | InvalidFieldPath string
  | MultisigAlertWithoutSection nat
  | InvalidAlert nat config_error
  | EmptyAlertName
  | DuplicateChannel alert_channel
  | InvalidCondition nat config_error
  | MultisigFailedCondition nat
  | InexactInteger "64 word"
  | ExistsTakesNoValue
  | ValueRequired alert_operator
  | NonEmptyStringRequired
  | StringRequired
  | FiniteNumberRequired alert_operator
  | ReadingIdl string
  | ParsingIdl string
  | UnknownSignal nat alert_kind string "string list"

definition with_context :: "('e \<Rightarrow> 'e) \<Rightarrow> 'e + 'a \<Rightarrow> 'e + 'a" where
  "with_context c r = (case r of Inl e \<Rightarrow> Inl (c e) | Inr x \<Rightarrow> Inr x)"

lemma with_context_Inr [result_iff]: "with_context c r = Inr x \<longleftrightarrow> r = Inr x"
  by (cases r) (simp_all add: with_context_def)

text \<open>A loop over an enumeration that returns at the first error.\<close>

fun check_from :: "(nat \<Rightarrow> 'a \<Rightarrow> 'e + unit) \<Rightarrow> nat \<Rightarrow> 'a list \<Rightarrow> 'e + unit" where
  "check_from f n [] = Inr ()"
| "check_from f n (x # xs) = bind_r (f n x) (\<lambda>_. check_from f (Suc n) xs)"

lemma check_from_Inr:
  "check_from f n xs = Inr () \<longleftrightarrow> (\<forall>i < length xs. f (n + i) (xs ! i) = Inr ())"
proof (induction xs arbitrary: n)
  case (Cons x xs)
  show ?case
    by (auto simp: bind_r_Inr Cons.IH less_Suc_eq_0_disj)
qed simp

text \<open>The error of the first repetition of an element.\<close>

fun check_distinct :: "('a \<Rightarrow> 'e) \<Rightarrow> 'a list \<Rightarrow> 'a list \<Rightarrow> 'e + unit" where
  "check_distinct err seen [] = Inr ()"
| "check_distinct err seen (x # xs) =
     (if x \<in> set seen then Inl (err x) else check_distinct err (x # seen) xs)"

lemma check_distinct_Inr:
  "check_distinct err seen xs = Inr () \<longleftrightarrow> distinct xs \<and> set seen \<inter> set xs = {}"
  by (induction xs arbitrary: seen) auto

section \<open>Validation\<close>

definition is_ascii_alphabetic :: "char \<Rightarrow> bool" where
  "is_ascii_alphabetic c \<longleftrightarrow>
     (let n = (of_char c :: nat) in (65 \<le> n \<and> n \<le> 90) \<or> (97 \<le> n \<and> n \<le> 122))"

definition is_ascii_alphanumeric :: "char \<Rightarrow> bool" where
  "is_ascii_alphanumeric c \<longleftrightarrow> is_ascii_alphabetic c \<or> is_digit c"

definition path_segment_ok :: "string \<Rightarrow> bool" where
  "path_segment_ok segment =
     (case segment of
        [] \<Rightarrow> False
      | first # characters \<Rightarrow>
          (first = CHR ''_'' \<or> is_ascii_alphabetic first)
          \<and> list_all (\<lambda>c. c = CHR ''_'' \<or> is_ascii_alphanumeric c) characters)"

definition validate_field_path :: "string \<Rightarrow> config_error + unit" where
  "validate_field_path field =
     ensure (field \<noteq> [] \<and> list_all path_segment_ok (split_on (CHR ''.'') field)) (InvalidFieldPath field)"

definition is_multiple_of :: "u64 \<Rightarrow> u64 \<Rightarrow> bool" where
  "is_multiple_of a b = (if b = 0 then a = 0 else a mod b = 0)"

definition validate_timing :: "u64 \<Rightarrow> u64 \<Rightarrow> config_error + unit" where
  "validate_timing lookback evaluation =
     bind_r (ensure (lookback \<noteq> 0) LookbackZero) (\<lambda>_.
     bind_r (ensure (evaluation \<noteq> 0) EvaluationZero) (\<lambda>_.
     bind_r (ensure (is_multiple_of evaluation grafana_scheduler_interval_seconds)
       EvaluationNotSchedulable) (\<lambda>_.
     ensure (\<not> lookback < evaluation) LookbackBelowEvaluation)))"

definition is_ordering :: "alert_operator \<Rightarrow> bool" where
  "is_ordering o' \<longleftrightarrow> o' \<in> {OpGt, OpGte, OpLt, OpLte}"

definition validate_condition :: "alert_condition \<Rightarrow> config_error + unit" where
  "validate_condition c =
     bind_r (validate_field_path (ac_field c)) (\<lambda>_.
     bind_r (case ac_value c of
               Some (AlertInteger v) \<Rightarrow> ensure (nat \<bar>sint v\<bar> \<le> max_exact_loki_integer) (InexactInteger v)
             | _ \<Rightarrow> Inr ()) (\<lambda>_.
     case (ac_operator c, ac_value c) of
       (Exists, None) \<Rightarrow> Inr ()
     | (Exists, Some _) \<Rightarrow> Inl ExistsTakesNoValue
     | (o', None) \<Rightarrow> Inl (ValueRequired o')
     | (Contains, Some (AlertString v)) \<Rightarrow> ensure (v \<noteq> []) NonEmptyStringRequired
     | (Contains, Some _) \<Rightarrow> Inl StringRequired
     | (o', Some v) \<Rightarrow>
         if is_ordering o'
         then (case v of
                 AlertInteger _ \<Rightarrow> Inr ()
               | AlertFloat f \<Rightarrow> ensure (f_finite f) (FiniteNumberRequired o')
               | _ \<Rightarrow> Inl (FiniteNumberRequired o'))
         else (case v of
                 AlertFloat f \<Rightarrow> ensure (f_finite f) (FiniteNumberRequired o')
               | _ \<Rightarrow> Inr ())))"

definition lookback_of :: "alert_rule \<Rightarrow> alerting_config \<Rightarrow> u64" where
  "lookback_of r d = (case ar_lookback_window r of Some w \<Rightarrow> w | None \<Rightarrow> al_lookback_window d)"

definition evaluation_of :: "alert_rule \<Rightarrow> alerting_config \<Rightarrow> u64" where
  "evaluation_of r d = (case ar_evaluation_interval r of Some w \<Rightarrow> w | None \<Rightarrow> al_evaluation_interval d)"

definition validate_rule :: "alert_rule \<Rightarrow> alerting_config \<Rightarrow> config_error + unit" where
  "validate_rule r defaults =
     bind_r (ensure (trim (ar_name r) \<noteq> []) EmptyAlertName) (\<lambda>_.
     bind_r (check_distinct DuplicateChannel [] (ar_channels r)) (\<lambda>_.
     bind_r (check_from (\<lambda>i c.
         bind_r (with_context (InvalidCondition i) (validate_condition c)) (\<lambda>_.
         ensure (\<not> (ar_kind r = MultisigAlert \<and> ac_field c = ''failed'')) (MultisigFailedCondition i)))
       0 (ar_conditions r)) (\<lambda>_.
     validate_timing (lookback_of r defaults) (evaluation_of r defaults))))"

fun check_dashboard_fields :: "string \<Rightarrow> string list \<Rightarrow> string list \<Rightarrow> config_error + unit" where
  "check_dashboard_fields name seen [] = Inr ()"
| "check_dashboard_fields name seen (f # fs) =
     bind_r (with_context (InvalidDashboardField name) (validate_field_path f)) (\<lambda>_.
       if f \<in> set seen then Inl (DuplicateDashboardField name f)
       else check_dashboard_fields name (f # seen) fs)"

definition validate_dashboard_fields :: "string \<Rightarrow> string list \<Rightarrow> config_error + unit" where
  "validate_dashboard_fields name fs =
     bind_r (ensure (fs \<noteq> []) (NoDashboardField name)) (\<lambda>_. check_dashboard_fields name [] fs)"

text \<open>The names the IDL declares.\<close>

record idl_signal_names =
  is_instructions :: "string list"
  is_events :: "string list"

definition declared_names :: "(string \<Rightarrow> string) \<Rightarrow> json \<Rightarrow> string \<Rightarrow> string list" where
  "declared_names snake_case program section =
     oset_of_list (map snake_case (List.map_filter (\<lambda>e. json_as_str (json_index e ''name''))
       (case json_as_array (json_index program section) of None \<Rightarrow> [] | Some entries \<Rightarrow> entries)))"

record config_library =
  cl_parse_toml :: "string \<Rightarrow> string + config"
  cl_parse_json :: "string \<Rightarrow> string + json"
  cl_parse_key :: "string \<Rightarrow> pubkey option"
  cl_snake_case :: "string \<Rightarrow> string"

text \<open>The files a load reads: the configuration, and the IDL beside it.\<close>

record config_files =
  fi_config :: "string + string"
  fi_idl_is_file :: bool
  fi_idl :: "string + string"

definition read_idl_signals :: "config_library \<Rightarrow> config_files \<Rightarrow> config_error + idl_signal_names" where
  "read_idl_signals L fs =
     (case fi_idl fs of
        Inl e \<Rightarrow> Inl (ReadingIdl e)
      | Inr raw \<Rightarrow>
          (case cl_parse_json L raw of
             Inl e \<Rightarrow> Inl (ParsingIdl e)
           | Inr idl \<Rightarrow>
               let program = (case json_get idl ''program'' of Some p \<Rightarrow> p | None \<Rightarrow> idl)
               in Inr \<lparr>is_instructions = declared_names (cl_snake_case L) program ''instructions'',
                       is_events = declared_names (cl_snake_case L) program ''events''\<rparr>))"

definition known_names ::
  "config_library \<Rightarrow> config_files \<Rightarrow> config \<Rightarrow> alert_rule \<Rightarrow> config_error + string list" where
  "known_names L fs c r =
     (case ar_kind r of
        EventAlert \<Rightarrow> bind_r (read_idl_signals L fs) (\<lambda>s. Inr (is_events s))
      | InstructionAlert \<Rightarrow> bind_r (read_idl_signals L fs) (\<lambda>s. Inr (is_instructions s))
      | MultisigAlert \<Rightarrow>
          Inr (case cf_multisig c of Some m \<Rightarrow> action_names (mc_version m) | None \<Rightarrow> []))"

definition validate_alert ::
  "config_library \<Rightarrow> config_files \<Rightarrow> config \<Rightarrow> nat \<Rightarrow> alert_rule \<Rightarrow> config_error + unit" where
  "validate_alert L fs c i r =
     bind_r (ensure (\<not> (ar_kind r = MultisigAlert \<and> cf_multisig c = None))
       (MultisigAlertWithoutSection i)) (\<lambda>_.
     bind_r (with_context (InvalidAlert i) (validate_rule r (cf_alerting c))) (\<lambda>_.
     bind_r (known_names L fs c r) (\<lambda>names.
     ensure (ar_name r \<in> set names) (UnknownSignal i (ar_kind r) (ar_name r) names))))"

definition validate_keys :: "config_library \<Rightarrow> config \<Rightarrow> config_error + unit" where
  "validate_keys L c =
     bind_r (ensure (cl_parse_key L (cf_program_id c) \<noteq> None) (InvalidProgramId (cf_program_id c))) (\<lambda>_.
     case cf_multisig c of
       None \<Rightarrow> Inr ()
     | Some m \<Rightarrow>
         bind_r (ensure (cl_parse_key L (mc_vault_address m) \<noteq> None)
           (InvalidVaultAddress (mc_vault_address m))) (\<lambda>_.
         ensure (cl_parse_key L (mc_state_address m) \<noteq> None)
           (InvalidStateAddress (mc_state_address m))))"

definition validate_datasource :: "datasource_config \<Rightarrow> config_error + unit" where
  "validate_datasource d =
     bind_r (ensure (min_rpc_poll_interval_seconds \<le> dc_poll_interval d
         \<and> dc_poll_interval d \<le> max_rpc_poll_interval_seconds) PollIntervalOutOfRange) (\<lambda>_.
     ensure (min_rpc_replay_window_slots \<le> dc_replay_window d
         \<and> dc_replay_window d \<le> max_rpc_replay_window_slots) ReplayWindowOutOfRange)"

definition validate_alerting :: "alerting_config \<Rightarrow> config_error + unit" where
  "validate_alerting a =
     bind_r (with_context InvalidAlertingDefaults
       (validate_timing (al_lookback_window a) (al_evaluation_interval a))) (\<lambda>_.
     bind_r (ensure (1 \<le> al_rpc_poll_sustained_failure a
         \<and> al_rpc_poll_sustained_failure a \<le> rpc_poll_failure_window_seconds)
       SustainedFailureOutOfRange) (\<lambda>_.
     bind_r (ensure (al_health_pending_period a \<noteq> 0) PendingPeriodZero) (\<lambda>_.
     ensure (al_multisig_unmatched_window a \<noteq> 0) UnmatchedWindowZero)))"

definition validate :: "config_library \<Rightarrow> config_files \<Rightarrow> config \<Rightarrow> config_error + unit" where
  "validate L fs c =
     bind_r (validate_keys L c) (\<lambda>_.
     bind_r (ensure (fi_idl_is_file fs) IdlFileMissing) (\<lambda>_.
     bind_r (validate_datasource (cf_datasource c)) (\<lambda>_.
     bind_r (validate_alerting (cf_alerting c)) (\<lambda>_.
     bind_r (validate_dashboard_fields ''event_fields'' (db_event_fields (cf_dashboard c))) (\<lambda>_.
     bind_r (validate_dashboard_fields ''multisig_fields'' (db_multisig_fields (cf_dashboard c))) (\<lambda>_.
     check_from (validate_alert L fs c) 0 (cf_alert_rules c)))))))"

definition load_config :: "config_library \<Rightarrow> config_files \<Rightarrow> config_error + config" where
  "load_config L fs =
     (case fi_config fs of
        Inl e \<Rightarrow> Inl (ReadingConfigFile e)
      | Inr raw \<Rightarrow>
          (case cl_parse_toml L raw of
             Inl e \<Rightarrow> Inl (ParsingConfigFile e)
           | Inr c \<Rightarrow> bind_r (validate L fs c) (\<lambda>_. Inr c)))"

text \<open>The keys read later with an expect: \<open>None\<close> inside the option is its panic.\<close>

definition multisig_vault_pubkey :: "config_library \<Rightarrow> config \<Rightarrow> pubkey option option" where
  "multisig_vault_pubkey L c = map_option (\<lambda>m. cl_parse_key L (mc_vault_address m)) (cf_multisig c)"

definition multisig_state_pubkey :: "config_library \<Rightarrow> config \<Rightarrow> pubkey option option" where
  "multisig_state_pubkey L c = map_option (\<lambda>m. cl_parse_key L (mc_state_address m)) (cf_multisig c)"

end
