(* ===== verification/Config_Safety.thy ===== *)
theory Config_Safety
  imports Config Rpc_Polling
begin

text \<open>
  What a configuration that loads guarantees to the rest of the program: the values later code
  relies on are in range and parse, every alert names a signal the deployment knows, and every
  condition can be compared by Loki.
\<close>

section \<open>Fields and conditions\<close>

text \<open>A field path is a dotted list of identifiers.\<close>

definition plain_identifier :: "string \<Rightarrow> bool" where
  "plain_identifier s \<longleftrightarrow> s \<noteq> [] \<and> (hd s = CHR ''_'' \<or> is_ascii_alphabetic (hd s))
     \<and> (\<forall>c \<in> set (tl s). c = CHR ''_'' \<or> is_ascii_alphabetic c \<or> is_digit c)"

definition dotted_identifiers :: "string \<Rightarrow> bool" where
  "dotted_identifiers s \<longleftrightarrow> (\<exists>ids. ids \<noteq> [] \<and> list_all plain_identifier ids \<and> s = join_with ''.'' ids)"

lemma segment_identifier: "path_segment_ok s = plain_identifier s"
  by (cases s) (auto simp: path_segment_ok_def plain_identifier_def is_ascii_alphanumeric_def list_all_iff)

lemma dot_not_in_identifiers:
  "\<not> is_ascii_alphabetic (CHR ''.'')" "\<not> is_digit (CHR ''.'')"
  by (simp_all add: is_ascii_alphabetic_def is_digit_def)

lemma identifier_no_dot:
  assumes "plain_identifier s"
  shows "CHR ''.'' \<notin> set s"
proof
  assume "CHR ''.'' \<in> set s"
  then have "hd s = CHR ''.'' \<or> CHR ''.'' \<in> set (tl s)" by (cases s) auto
  then show False
    using assms dot_not_in_identifiers unfolding plain_identifier_def by fastforce
qed

lemma validate_field_path_iff: "validate_field_path f = Inr () \<longleftrightarrow> dotted_identifiers f"
proof
  assume "validate_field_path f = Inr ()"
  then have "list_all plain_identifier (split_on (CHR ''.'') f)"
    by (simp add: validate_field_path_def ensure_Inr segment_identifier [abs_def])
  then show "dotted_identifiers f"
    unfolding dotted_identifiers_def using join_split [of "CHR ''.''" f] split_on_not_Nil by metis
next
  assume "dotted_identifiers f"
  then obtain ids where ids: "ids \<noteq> []" "list_all plain_identifier ids" "f = join_with ''.'' ids"
    by (auto simp: dotted_identifiers_def)
  have "split_on (CHR ''.'') f = ids"
    unfolding ids(3) by (rule split_join [OF ids(1)]) (use ids(2) identifier_no_dot in \<open>auto simp: list_all_iff\<close>)
  moreover have "f \<noteq> []"
    using ids by (cases ids; cases "tl ids") (auto simp: plain_identifier_def join_with_Cons)
  ultimately show "validate_field_path f = Inr ()"
    using ids(2) by (simp add: validate_field_path_def ensure_Inr segment_identifier [abs_def])
qed

text \<open>The table of operators and values the documentation gives.\<close>

definition comparable :: "alert_operator \<Rightarrow> alert_value option \<Rightarrow> bool" where
  "comparable oper v = (case v of
     None \<Rightarrow> oper = Exists
   | Some (AlertInteger i) \<Rightarrow> oper \<notin> {Exists, Contains} \<and> \<bar>sint i\<bar> \<le> 2 ^ 53
   | Some (AlertFloat f) \<Rightarrow> oper \<notin> {Exists, Contains} \<and> f_finite f
   | Some (AlertBoolean b) \<Rightarrow> oper \<in> {OpEq, OpNe}
   | Some (AlertString s) \<Rightarrow> oper \<in> {OpEq, OpNe} \<or> oper = Contains \<and> s \<noteq> [])"

lemma exact_integer: "nat \<bar>sint (i :: 64 word)\<bar> \<le> max_exact_loki_integer \<longleftrightarrow> \<bar>sint i\<bar> \<le> 2 ^ 53"
  by (simp add: max_exact_loki_integer_def nat_le_iff)

lemma condition_valid:
  "validate_condition c = Inr () \<longleftrightarrow> dotted_identifiers (ac_field c) \<and> comparable (ac_operator c) (ac_value c)"
proof (cases "validate_field_path (ac_field c)")
  case (Inr u)
  have "validate_condition c = Inr () \<longleftrightarrow> comparable (ac_operator c) (ac_value c)"
    by (cases "ac_operator c"; cases "ac_value c"; (cases "the (ac_value c)")?)
      (auto simp: validate_condition_def Inr comparable_def is_ordering_def result_iff exact_integer)
  then show ?thesis using Inr validate_field_path_iff [of "ac_field c"] by simp
qed (use validate_field_path_iff [of "ac_field c"] in \<open>simp add: validate_condition_def\<close>)

text \<open>
  A condition is accepted exactly when its field is a path of identifiers and its value is one its
  operator can compare: the existence test without a value, text containment of a non-empty
  string, orderings of exact or finite numbers, equality of those and of booleans and strings.
\<close>

theorem condition_accepted_iff:
  "validate_condition c = Inr () \<longleftrightarrow>
    dotted_identifiers (ac_field c) \<and> comparable (ac_operator c) (ac_value c)"
  by (rule condition_valid)

section \<open>A loaded configuration\<close>

lemma timing_iff:
  "validate_timing l e = Inr () \<longleftrightarrow> 0 < unat e \<and> unat e \<le> unat l \<and> unat e mod 10 = 0"
proof -
  have "is_multiple_of e grafana_scheduler_interval_seconds \<longleftrightarrow> unat e mod 10 = 0"
    by (simp add: is_multiple_of_def grafana_scheduler_interval_seconds_def word_unat_eq_iff
        unat_mod_distrib)
  moreover have "l \<noteq> 0 \<and> e \<noteq> 0 \<and> \<not> l < e \<longleftrightarrow> 0 < unat e \<and> unat e \<le> unat l"
    by (auto simp: word_less_nat_alt unat_gt_0 not_less) (metis le_zero_eq unat_eq_zero word_le_nat_alt)+
  ultimately show ?thesis
    by (auto simp: validate_timing_def result_iff)
qed

lemma dashboard_fields_iff:
  "check_dashboard_fields name seen fs = Inr () \<longleftrightarrow>
    list_all dotted_identifiers fs \<and> distinct fs \<and> set seen \<inter> set fs = {}"
  by (induction name seen fs rule: check_dashboard_fields.induct)
    (auto simp: result_iff validate_field_path_iff)

definition timing_ready :: "u64 \<Rightarrow> u64 \<Rightarrow> bool" where
  "timing_ready lookback evaluation \<longleftrightarrow>
     0 < unat evaluation \<and> unat evaluation \<le> unat lookback \<and> unat evaluation mod 10 = 0"

definition fields_ready :: "string list \<Rightarrow> bool" where
  "fields_ready fs \<longleftrightarrow> fs \<noteq> [] \<and> distinct fs \<and> list_all dotted_identifiers fs"

definition signal_known :: "config_library \<Rightarrow> config_files \<Rightarrow> config \<Rightarrow> alert_rule \<Rightarrow> bool" where
  "signal_known L fs c r =
     (case ar_kind r of
        EventAlert \<Rightarrow> (\<exists>s. read_idl_signals L fs = Inr s \<and> ar_name r \<in> set (is_events s))
      | InstructionAlert \<Rightarrow> (\<exists>s. read_idl_signals L fs = Inr s \<and> ar_name r \<in> set (is_instructions s))
      | MultisigAlert \<Rightarrow> (\<exists>m. cf_multisig c = Some m \<and> ar_name r \<in> set (action_names (mc_version m))))"

definition rule_ready :: "config_library \<Rightarrow> config_files \<Rightarrow> config \<Rightarrow> alert_rule \<Rightarrow> bool" where
  "rule_ready L fs c r \<longleftrightarrow>
     trim (ar_name r) \<noteq> [] \<and> signal_known L fs c r \<and> distinct (ar_channels r)
     \<and> list_all (\<lambda>k. dotted_identifiers (ac_field k) \<and> comparable (ac_operator k) (ac_value k)
          \<and> \<not> (ar_kind r = MultisigAlert \<and> ac_field k = ''failed'')) (ar_conditions r)
     \<and> timing_ready (lookback_of r (cf_alerting c)) (evaluation_of r (cf_alerting c))"

definition config_ready :: "config_library \<Rightarrow> config_files \<Rightarrow> config \<Rightarrow> bool" where
  "config_ready L fs c \<longleftrightarrow>
     cl_parse_key L (cf_program_id c) \<noteq> None
     \<and> multisig_vault_pubkey L c \<noteq> Some None \<and> multisig_state_pubkey L c \<noteq> Some None
     \<and> fi_idl_is_file fs
     \<and> unat (dc_poll_interval (cf_datasource c)) \<in> {1..300}
     \<and> unat (dc_replay_window (cf_datasource c)) \<in> {1..100000}
     \<and> timing_ready (al_lookback_window (cf_alerting c)) (al_evaluation_interval (cf_alerting c))
     \<and> unat (al_rpc_poll_sustained_failure (cf_alerting c)) \<in> {1..900}
     \<and> al_health_pending_period (cf_alerting c) \<noteq> 0 \<and> al_multisig_unmatched_window (cf_alerting c) \<noteq> 0
     \<and> fields_ready (db_event_fields (cf_dashboard c)) \<and> fields_ready (db_multisig_fields (cf_dashboard c))
     \<and> list_all (rule_ready L fs c) (cf_alert_rules c)"

lemma conditions_iff:
  "check_from (\<lambda>i k.
         bind_r (with_context (InvalidCondition i) (validate_condition k)) (\<lambda>_.
         ensure (ar_kind r = MultisigAlert \<longrightarrow> ac_field k \<noteq> ''failed'') (MultisigFailedCondition i)))
       0 ks = Inr () \<longleftrightarrow>
   list_all (\<lambda>k. validate_condition k = Inr () \<and> (ar_kind r = MultisigAlert \<longrightarrow> ac_field k \<noteq> ''failed'')) ks"
  by (auto simp: check_from_Inr result_iff list_all_length)

lemma rule_iff:
  "validate_rule r d = Inr () \<longleftrightarrow>
    trim (ar_name r) \<noteq> [] \<and> distinct (ar_channels r)
    \<and> list_all (\<lambda>k. dotted_identifiers (ac_field k) \<and> comparable (ac_operator k) (ac_value k)
          \<and> \<not> (ar_kind r = MultisigAlert \<and> ac_field k = ''failed'')) (ar_conditions r)
    \<and> timing_ready (lookback_of r d) (evaluation_of r d)"
  by (simp add: validate_rule_def result_iff check_distinct_Inr conditions_iff timing_iff timing_ready_def
      condition_valid conj_assoc)

lemma known_iff:
  assumes "\<not> (ar_kind r = MultisigAlert \<and> cf_multisig c = None)"
  shows "(\<exists>names. known_names L fs c r = Inr names \<and> ar_name r \<in> set names) \<longleftrightarrow> signal_known L fs c r"
  using assms
  by (cases "ar_kind r"; cases "read_idl_signals L fs"; cases "cf_multisig c")
    (simp_all add: known_names_def signal_known_def)

lemma alert_iff: "validate_alert L fs c i r = Inr () \<longleftrightarrow> rule_ready L fs c r"
proof (cases "ar_kind r = MultisigAlert \<and> cf_multisig c = None")
  case True
  then show ?thesis
    by (simp add: validate_alert_def result_iff rule_ready_def signal_known_def)
next
  case False
  then show ?thesis
    using known_iff [OF False, of L fs]
    by (auto simp: validate_alert_def result_iff rule_iff rule_ready_def)
qed

lemma fields_iff: "validate_dashboard_fields name fs = Inr () \<longleftrightarrow> fields_ready fs"
  by (auto simp: validate_dashboard_fields_def result_iff dashboard_fields_iff fields_ready_def)

lemma keys_iff:
  "validate_keys L c = Inr () \<longleftrightarrow> cl_parse_key L (cf_program_id c) \<noteq> None
     \<and> multisig_vault_pubkey L c \<noteq> Some None \<and> multisig_state_pubkey L c \<noteq> Some None"
  by (cases "cf_multisig c")
    (simp_all add: validate_keys_def result_iff multisig_vault_pubkey_def multisig_state_pubkey_def)

lemma datasource_iff:
  "validate_datasource d = Inr () \<longleftrightarrow>
    unat (dc_poll_interval d) \<in> {1..300} \<and> unat (dc_replay_window d) \<in> {1..100000}"
  by (simp add: validate_datasource_def result_iff min_rpc_poll_interval_seconds_def
      max_rpc_poll_interval_seconds_def min_rpc_replay_window_slots_def
      max_rpc_replay_window_slots_def word_le_nat_alt)

lemma alerting_iff:
  "validate_alerting a = Inr () \<longleftrightarrow> timing_ready (al_lookback_window a) (al_evaluation_interval a)
     \<and> unat (al_rpc_poll_sustained_failure a) \<in> {1..900}
     \<and> al_health_pending_period a \<noteq> 0 \<and> al_multisig_unmatched_window a \<noteq> 0"
  by (simp add: validate_alerting_def result_iff timing_iff timing_ready_def
      rpc_poll_failure_window_seconds_def word_le_nat_alt conj_assoc)

lemma loads_ready: "validate L fs c = Inr () \<longleftrightarrow> config_ready L fs c"
  by (simp add: validate_def result_iff keys_iff datasource_iff alerting_iff fields_iff
      check_from_Inr alert_iff config_ready_def list_all_length conj_assoc)

text \<open>
  C37: A configuration loads exactly when everything the rest of the program expects of it holds: its
  keys parse, so the expects on them cannot panic; its intervals and windows are in range; its
  timings fit the scheduler; its dashboard fields are distinct paths; and every alert names a
  signal of the deployment, with distinct channels and conditions Loki can compare.
\<close>

theorem configuration_loads_iff_ready:
  "load_config L fs = Inr c \<longleftrightarrow>
    (\<exists>raw. fi_config fs = Inr raw \<and> cl_parse_toml L raw = Inr c) \<and> config_ready L fs c"
  using loads_ready by (auto simp: load_config_def result_iff split: sum.splits)

section \<open>What the poller relies on\<close>

text \<open>
  C38: A loaded configuration keeps the poller's arithmetic exact: two replay windows do not wrap, so
  the bound under which signatures may be forgotten is the slot less two windows, stopping at 0;
  and the readiness probe allows six poll intervals, never less than a minute.
\<close>

theorem loaded_windows_exact:
  assumes "load_config L fs = Inr c"
  defines "w \<equiv> dc_replay_window (cf_datasource c)"
  shows "2 * unat w < 2 ^ 64 \<and> unat (unreachable_below slot w) = unat slot - 2 * unat w
    \<and> unat (rpc_poll_stale_after_seconds (cf_datasource c))
        = max 60 (6 * unat (dc_poll_interval (cf_datasource c)))"
proof -
  have ranges: "unat w \<le> 100000" "unat (dc_poll_interval (cf_datasource c)) \<le> 300"
    using assms(1) unfolding configuration_loads_iff_ready config_ready_def w_def by auto
  have twice: "unat (2 * w) = 2 * unat w"
    using ranges(1) by (simp add: unat_word_ariths)
  have six: "unat (dc_poll_interval (cf_datasource c) * 6) = unat (dc_poll_interval (cf_datasource c)) * 6"
    using ranges(2) by (simp add: unat_word_ariths)
  have "unat (dc_poll_interval (cf_datasource c)) * 6 < 2 ^ 64"
    using ranges(2) by simp
  then have "unat (rpc_poll_stale_after_seconds (cf_datasource c))
      = max 60 (6 * unat (dc_poll_interval (cf_datasource c)))"
    by (simp add: rpc_poll_stale_after_seconds_def sat_mul_def Let_def word_less_nat_alt six max_def)
  then show ?thesis
    using ranges(1) twice by (simp add: unreachable_below_def unat_sat_sub)
qed

text \<open>A configuration of the smallest kind, with every default.\<close>

definition sample_config :: config where
  "sample_config = \<lparr>cf_program_id = ''key'', cf_idl_path = ''idl.json'', cf_multisig = None,
     cf_datasource = datasource_config_default, cf_alerting = alerting_config_default,
     cf_dashboard = dashboard_config_default, cf_alert_rules = []\<rparr>"

definition sample_library :: config_library where
  "sample_library = \<lparr>cl_parse_toml = (\<lambda>_. Inr sample_config), cl_parse_json = (\<lambda>_. Inr JNull),
     cl_parse_key = (\<lambda>_. Some 7), cl_snake_case = id\<rparr>"

definition sample_files :: config_files where
  "sample_files = \<lparr>fi_config = Inr [], fi_idl_is_file = True, fi_idl = Inr []\<rparr>"

lemma sample_loads: "load_config sample_library sample_files = Inr sample_config"
  by code_simp

theorem loaded_windows_exact_witness:
  "2 * (600 :: nat) < 2 ^ 64 \<and> unat (unreachable_below 5000 600) = 3800
    \<and> unat (rpc_poll_stale_after_seconds datasource_config_default) = 60"
  using loaded_windows_exact [OF sample_loads, of 5000]
  by (simp add: sample_config_def datasource_config_default_def)

end
