(* ===== verification/Logging.thy ===== *)
theory Logging
  imports Prelude
begin

text \<open>
  The log format (\<open>logging.rs\<close>): structured records are diverted or printed as they are, every
  other line is printed with the queries of its URLs removed. The redaction is a loop over the
  rest of the message. Characters are bytes here, so white space is ASCII's.
\<close>

section \<open>The format\<close>

definition structured_target_prefix :: string where
  "structured_target_prefix = ''microscope::''"

definition scheme_end :: string where "scheme_end = ''://''"
definition redacted_query :: string where "redacted_query = ''?<redacted>''"

definition is_structured_target :: "string \<Rightarrow> bool" where
  "is_structured_target target = starts_with structured_target_prefix target"

definition cannot_appear_in_url :: "char \<Rightarrow> bool" where
  "cannot_appear_in_url c \<longleftrightarrow> is_space c
     \<or> c \<in> {CHR 0x22, CHR ''<'', CHR ''>'', CHR 0x5C, CHR ''^'', CHR 0x60, CHR ''{'', CHR ''|'', CHR ''}''}"

definition redact_url :: "string \<Rightarrow> string" where
  "redact_url url =
     (case split_once (CHR ''?'') url of
        Some (location, query) \<Rightarrow> location @ redacted_query
      | None \<Rightarrow> url)"

function redact_url_queries :: "string \<Rightarrow> string" where
  "redact_url_queries message =
     (case split_at_first scheme_end message of
        None \<Rightarrow> message
      | Some (before, after) \<Rightarrow>
          before @ scheme_end
            @ redact_url (takeWhile (\<lambda>c. \<not> cannot_appear_in_url c) after)
            @ redact_url_queries (dropWhile (\<lambda>c. \<not> cannot_appear_in_url c) after))"
  by pat_completeness auto

termination
proof (relation "measure length")
  fix message :: string and x before after
  assume "split_at_first scheme_end message = Some x" "(before, after) = x"
  then have "message = before @ scheme_end @ after" using split_at_first_Some by metis
  then have "length after < length message" by (simp add: scheme_end_def)
  then show "(dropWhile (\<lambda>c. \<not> cannot_appear_in_url c) after, message) \<in> measure length"
    using length_dropWhile_le [of "\<lambda>c. \<not> cannot_appear_in_url c" after] by simp
qed simp

declare redact_url_queries.simps [simp del]

text \<open>Where a record goes: to the sink of a backfill or to the output. The level is padded.\<close>

record log_record =
  lr_target :: string
  lr_level :: string
  lr_args :: string

datatype log_output = Diverted string | Printed string

definition pad_right :: "nat \<Rightarrow> string \<Rightarrow> string" where
  "pad_right n s = s @ replicate (n - length s) (CHR '' '')"

definition format_record :: "bool \<Rightarrow> string \<Rightarrow> log_record \<Rightarrow> log_output" where
  "format_record has_sink timestamp r =
     (if is_structured_target (lr_target r)
      then if has_sink then Diverted (lr_args r) else Printed (lr_args r)
      else Printed (timestamp @ '' '' @ pad_right 5 (lr_level r) @ '' ['' @ lr_target r @ ''] ''
             @ redact_url_queries (lr_args r)))"

text \<open>
  The filter of the levels is the environment's, or \<open>info\<close>; what it lets through is the
  library's to decide, from the text of the filter and the record.
\<close>

definition log_filter :: "(string \<Rightarrow> string option) \<Rightarrow> string" where
  "log_filter var = (case var ''RUST_LOG'' of Some directives \<Rightarrow> directives | None \<Rightarrow> ''info'')"

definition log_line ::
  "(string \<Rightarrow> log_record \<Rightarrow> bool) \<Rightarrow> (string \<Rightarrow> string option) \<Rightarrow> bool \<Rightarrow> string \<Rightarrow> log_record
   \<Rightarrow> log_output option" where
  "log_line enabled var has_sink timestamp r =
     (if enabled (log_filter var) r then Some (format_record has_sink timestamp r) else None)"

section \<open>No query reaches the output\<close>

text \<open>
  Two messages that differ in the queries of their URLs only: a query runs from the question mark
  to the first character no URL has.
\<close>

abbreviation url_text :: "string \<Rightarrow> bool" where
  "url_text \<equiv> list_all (\<lambda>c. \<not> cannot_appear_in_url c)"

definition ends_url :: "string \<Rightarrow> bool" where
  "ends_url rest \<longleftrightarrow> (case rest of [] \<Rightarrow> True | c # _ \<Rightarrow> cannot_appear_in_url c)"

inductive same_but_queries :: "string \<Rightarrow> string \<Rightarrow> bool" where
  same: "same_but_queries m m"
| query: "same_but_queries (pre @ scheme_end @ location @ ''?'' @ q @ rest)
            (pre @ scheme_end @ location @ ''?'' @ q' @ rest')"
    if "same_but_queries rest rest'" "url_text location" "url_text q" "url_text q'"
      "ends_url rest" "ends_url rest'"

lemma url_split:
  assumes "url_text u" "ends_url rest"
  shows "takeWhile (\<lambda>c. \<not> cannot_appear_in_url c) (u @ rest) = u"
    "dropWhile (\<lambda>c. \<not> cannot_appear_in_url c) (u @ rest) = rest"
  using assms by (auto simp: ends_url_def list_all_iff takeWhile_append2 dropWhile_append2
      split: list.splits)

lemma redact_url_query:
  "split_once (CHR ''?'') (u @ ''?'') = Some (v, w) \<Longrightarrow> redact_url (u @ ''?'' @ q) = v @ redacted_query"
proof (induction u arbitrary: v)
  case (Cons c u)
  then show ?case by (auto simp: redact_url_def split: if_splits option.splits)
qed (simp add: redact_url_def)

lemma redact_url_same: "redact_url (u @ ''?'' @ q) = redact_url (u @ ''?'' @ q')"
proof -
  obtain v w where "split_once (CHR ''?'') (u @ ''?'') = Some (v, w)"
    using split_once_None [of "CHR ''?''" "u @ ''?''"] by fastforce
  then show ?thesis by (simp only: redact_url_query)
qed

lemma split_at_first_scheme:
  "split_at_first scheme_end pre = None \<Longrightarrow> split_at_first scheme_end (pre @ scheme_end @ x) = Some (pre, x)"
proof (induction pre)
  case (Cons c pre)
  have "strip_prefix scheme_end (c # pre @ scheme_end @ x) = None"
    using Cons.prems
    by (cases pre; cases "tl pre") (auto simp: scheme_end_def split: if_splits option.splits)
  then show ?case
    using Cons by (auto split: option.splits)
qed (simp add: scheme_end_def)

lemma scheme_is_url: "url_text scheme_end" "url_text ''?''"
  by (simp_all add: scheme_end_def cannot_appear_in_url_def is_space_def)

lemma redact_at_scheme:
  assumes "split_at_first scheme_end m = Some (b, u @ rest)" "url_text u" "ends_url rest"
  shows "redact_url_queries m = b @ scheme_end @ redact_url u @ redact_url_queries rest"
  using assms by (subst redact_url_queries.simps) (simp add: url_split)

lemma redact_rest:
  assumes "redact_url_queries rest = redact_url_queries rest'" "ends_url rest" "ends_url rest'"
    and "split_at_first scheme_end m = Some (b, (u @ ''?'' @ q) @ rest)"
    and "split_at_first scheme_end m' = Some (b, (u @ ''?'' @ q') @ rest')"
    and "url_text u" "url_text q" "url_text q'"
  shows "redact_url_queries m = redact_url_queries m'"
  using redact_at_scheme [OF assms(4)] redact_at_scheme [OF assms(5)] assms scheme_is_url
    redact_url_same [of u q q']
  by simp

lemma redact_same_prefix:
  assumes same: "redact_url_queries rest = redact_url_queries rest'"
    and urls: "url_text location" "url_text q" "url_text q'" "ends_url rest" "ends_url rest'"
  shows "redact_url_queries (pre @ scheme_end @ location @ ''?'' @ q @ rest)
    = redact_url_queries (pre @ scheme_end @ location @ ''?'' @ q' @ rest')"
proof (induction pre rule: length_induct)
  case (1 pre)
  show ?case
  proof (cases "split_at_first scheme_end pre")
    case None
    show ?thesis
      by (rule redact_rest [OF same urls(4,5), where u = location and q = q and q' = q'])
        (use urls None in \<open>simp_all add: split_at_first_scheme\<close>)
  next
    case (Some z)
    obtain b mid where z: "z = (b, mid)" by (cases z)
    let ?t = "takeWhile (\<lambda>c. \<not> cannot_appear_in_url c) mid"
    let ?d = "dropWhile (\<lambda>c. \<not> cannot_appear_in_url c) mid"
    have split: "split_at_first scheme_end (pre @ y) = Some (b, mid @ y)" for y
      using split_at_first_append Some z by simp
    have shorter: "length mid < length pre"
      using split_at_first_Some Some z by (fastforce simp: scheme_end_def)
    have taken: "url_text ?t"
      using set_takeWhileD by (fastforce simp: list_all_iff)
    show ?thesis
    proof (cases ?d)
      case Nil
      then have "mid = ?t" by (metis append_Nil2 takeWhile_dropWhile_id)
      then have "url_text mid" using taken by simp
      then show ?thesis
        by (intro redact_rest [OF same urls(4,5), where u = "mid @ scheme_end @ location" and q = q and q' = q'])
          (use urls scheme_is_url in \<open>simp_all add: split\<close>)
    next
      case (Cons c d)
      have stop: "cannot_appear_in_url c" using Cons dropWhile_eq_Cons_conv by metis
      have mid: "mid = ?t @ c # d" using Cons by (metis takeWhile_dropWhile_id)
      have redacted: "redact_url_queries (pre @ y)
          = b @ scheme_end @ redact_url ?t @ redact_url_queries ((c # d) @ y)" for y
      proof (rule redact_at_scheme)
        show "split_at_first scheme_end (pre @ y) = Some (b, ?t @ (c # d) @ y)"
          using split [of y] mid by (metis append.assoc)
      qed (use taken stop in \<open>simp_all add: ends_url_def\<close>)
      have "length (c # d) < length pre"
        using shorter mid by (metis length_append less_le_trans not_add_less2 not_less)
      then show ?thesis using 1 redacted by metis
    qed
  qed
qed

lemma redact_url_unchanged: "CHR ''?'' \<notin> set u \<Longrightarrow> redact_url u = u"
  by (simp add: redact_url_def split_once_None [THEN iffD2])

lemma redact_unchanged: "CHR ''?'' \<notin> set m \<Longrightarrow> redact_url_queries m = m"
proof (induction m rule: redact_url_queries.induct)
  case (1 m)
  show ?case
  proof (cases "split_at_first scheme_end m")
    case None
    then show ?thesis by (simp add: redact_url_queries.simps)
  next
    case (Some z)
    obtain b a where z: "z = (b, a)" by (cases z)
    have m: "m = b @ scheme_end @ a" using split_at_first_Some Some z by metis
    have "CHR ''?'' \<notin> set (takeWhile (\<lambda>c. \<not> cannot_appear_in_url c) a)"
      "CHR ''?'' \<notin> set (dropWhile (\<lambda>c. \<not> cannot_appear_in_url c) a)"
      using 1(2) m by (auto dest: set_takeWhileD set_dropWhileD)
    then have "redact_url_queries m = b @ scheme_end @ a"
      using 1(1) [OF Some z [symmetric]] Some z
      by (subst redact_url_queries.simps) (simp add: redact_url_unchanged)
    then show ?thesis using m by simp
  qed
qed

lemma redact_same: "same_but_queries m m' \<Longrightarrow> redact_url_queries m = redact_url_queries m'"
  by (induction rule: same_but_queries.induct) (rule refl, rule redact_same_prefix)


text \<open>So do the lines that pass the filter, whichever of the two messages it is shown.\<close>

lemma log_line_redacted:
  assumes "same_but_queries m m'" "\<not> is_structured_target target"
    and "log_line enabled var sink now \<lparr>lr_target = target, lr_level = level, lr_args = m\<rparr> = Some out"
    and "log_line enabled var sink now \<lparr>lr_target = target, lr_level = level, lr_args = m'\<rparr> = Some out'"
  shows "out = out'"
  using assms redact_same [OF assms(1)] by (auto simp: log_line_def format_record_def split: if_splits)

lemma sample_messages:
  "same_but_queries ''RPC error at https://rpc.example/?api-key=one (503)''
     ''RPC error at https://rpc.example/?api-key=other (503)''"
proof -
  have "same_but_queries
      (''RPC error at https'' @ scheme_end @ ''rpc.example/'' @ ''?'' @ ''api-key=one'' @ '' (503)'')
      (''RPC error at https'' @ scheme_end @ ''rpc.example/'' @ ''?'' @ ''api-key=other'' @ '' (503)'')"
    by (rule query [OF same]) (simp_all add: cannot_appear_in_url_def is_space_def ends_url_def)
  then show ?thesis by (simp add: scheme_end_def)
qed


end
