(* ===== verification/Dashboard.thy ===== *)
theory Dashboard
  imports Config Files
begin

text \<open>
  The overview dashboard of Grafana (\<open>dashboard.rs\<close>): the template with its tables configured for
  the deployment, the panels of RPC polling added, and the panels of what is not configured taken
  out. The template is a file of the repository and its JSON a parameter, as are the quoting of a
  JSON string and the title case of a name.
\<close>

section \<open>Constants\<close>

definition overview_uid :: string where "overview_uid = ''microscope-overview''"
definition event_panel_id :: u64 where "event_panel_id = 6"
definition multisig_activity_panel_id :: u64 where "multisig_activity_panel_id = 7"
definition multisig_panel_id :: u64 where "multisig_panel_id = 8"
definition rpc_polling_row_id :: u64 where "rpc_polling_row_id = 9"
definition rpc_poll_age_panel_id :: u64 where "rpc_poll_age_panel_id = 10"
definition rpc_poll_lag_panel_id :: u64 where "rpc_poll_lag_panel_id = 11"
definition rpc_quarantine_panel_id :: u64 where "rpc_quarantine_panel_id = 12"
definition rpc_head_slot_panel_id :: u64 where "rpc_head_slot_panel_id = 13"
definition rpc_activity_panel_id :: u64 where "rpc_activity_panel_id = 14"

record dashboard_library =
  dl_template :: "string + json"
  dl_quote :: "string \<Rightarrow> string"
  dl_title_case :: "string \<Rightarrow> string"
  dl_pretty :: "json \<Rightarrow> string + string"

section \<open>Column names\<close>

definition field_key :: "string \<Rightarrow> nat \<Rightarrow> string" where
  "field_key prefix i = prefix @ ''_'' @ show_nat i"

definition display_name :: "(string \<Rightarrow> string) \<Rightarrow> string \<Rightarrow> string" where
  "display_name title_case path =
     (if path = ''name'' then ''Event''
      else if path = ''program_id'' then ''Program ID''
      else title_case (last (split_on (CHR ''.'') path)))"

definition collision_safe_display_names :: "(string \<Rightarrow> string) \<Rightarrow> string list \<Rightarrow> string list" where
  "collision_safe_display_names title_case paths =
     (let short_names = map (display_name title_case) paths
      in map (\<lambda>(path, short_name). if 1 < count_list short_names short_name then path else short_name)
           (zip paths short_names))"

section \<open>Panels\<close>

definition prometheus_source :: json where
  "prometheus_source = json_object
     [(''type'', JString ''prometheus''),
      (''uid'', JString ''prometheus'')]"

definition rpc_polling_panels :: "u64 \<Rightarrow> json list" where
  "rpc_polling_panels stale_after =
     (let prometheus = prometheus_source in
      [json_object
        [(''id'', json_u64 rpc_polling_row_id),
         (''title'', JString ''RPC polling health''),
         (''type'', JString ''row''),
         (''collapsed'', JBool False),
         (''gridPos'', json_object
          [(''h'', JNumber 1),
           (''w'', JNumber 24),
           (''x'', JNumber 0),
           (''y'', JNumber 56)]),
         (''panels'', JArray [])],
       json_object
        [(''id'', json_u64 rpc_poll_age_panel_id),
         (''title'', JString ''Seconds since successful RPC poll''),
         (''description'', JString ''Alerts when no RPC poll succeeds within the configured freshness window.''),
         (''type'', JString ''stat''),
         (''datasource'', prometheus),
         (''gridPos'', json_object
          [(''h'', JNumber 6),
           (''w'', JNumber 6),
           (''x'', JNumber 0),
           (''y'', JNumber 57)]),
         (''fieldConfig'', json_object
          [(''defaults'', json_object
            [(''unit'', JString ''s''),
             (''thresholds'', json_object
              [(''mode'', JString ''absolute''),
               (''steps'', JArray
                [json_object [(''color'', JString ''green''), (''value'', JNull)],
                 json_object
                  [(''color'', JString ''orange''),
                   (''value'', json_u64 (stale_after div 2))],
                 json_object
                  [(''color'', JString ''red''),
                   (''value'', json_u64 stale_after)]])])]),
           (''overrides'', JArray [])]),
         (''targets'', JArray
          [json_object
            [(''expr'', JString ''time() - (microscope_rpc_poll_last_success_unixtime or microscope_rpc_poll_started_unixtime)''),
             (''legendFormat'', JString ''poll age''),
             (''refId'', JString ''A'')]])],
       json_object
        [(''id'', json_u64 rpc_poll_lag_panel_id),
         (''title'', JString ''RPC polling lag''),
         (''description'', JString ''Confirmed slots between the RPC head and the oldest address cursor.''),
         (''type'', JString ''stat''),
         (''datasource'', prometheus),
         (''gridPos'', json_object
          [(''h'', JNumber 6),
           (''w'', JNumber 6),
           (''x'', JNumber 6),
           (''y'', JNumber 57)]),
         (''fieldConfig'', json_object
          [(''defaults'', json_object [(''unit'', JString ''short'')]),
           (''overrides'', JArray [])]),
         (''targets'', JArray
          [json_object
            [(''expr'', JString ''microscope_rpc_poll_lag_slots''),
             (''legendFormat'', JString ''slots''),
             (''refId'', JString ''A'')]])],
       json_object
        [(''id'', json_u64 rpc_quarantine_panel_id),
         (''title'', JString ''Quarantined RPC transactions''),
         (''description'', JString ''Transactions skipped after bounded fetch or conversion failures.''),
         (''type'', JString ''stat''),
         (''datasource'', prometheus),
         (''gridPos'', json_object
          [(''h'', JNumber 6),
           (''w'', JNumber 6),
           (''x'', JNumber 12),
           (''y'', JNumber 57)]),
         (''fieldConfig'', json_object
          [(''defaults'', json_object
            [(''unit'', JString ''short''),
             (''thresholds'', json_object
              [(''mode'', JString ''absolute''),
               (''steps'', JArray
                [json_object [(''color'', JString ''green''), (''value'', JNull)],
                 json_object
                  [(''color'', JString ''red''),
                   (''value'', JNumber 1)]])])]),
           (''overrides'', JArray [])]),
         (''targets'', JArray
          [json_object
            [(''expr'', JString ''microscope_rpc_poll_quarantined_transactions''),
             (''legendFormat'', JString ''quarantined''),
             (''refId'', JString ''A'')]])],
       json_object
        [(''id'', json_u64 rpc_head_slot_panel_id),
         (''title'', JString ''RPC confirmed head slot''),
         (''type'', JString ''stat''),
         (''datasource'', prometheus),
         (''gridPos'', json_object
          [(''h'', JNumber 6),
           (''w'', JNumber 6),
           (''x'', JNumber 18),
           (''y'', JNumber 57)]),
         (''fieldConfig'', json_object
          [(''defaults'', json_object [(''unit'', JString ''short'')]),
           (''overrides'', JArray [])]),
         (''targets'', JArray
          [json_object
            [(''expr'', JString ''microscope_rpc_poll_head_slot''),
             (''legendFormat'', JString ''slot''),
             (''refId'', JString ''A'')]])],
       json_object
        [(''id'', json_u64 rpc_activity_panel_id),
         (''title'', JString ''RPC polling activity''),
         (''description'', JString ''Transaction throughput and polling, fetch, conversion, and quarantine failures.''),
         (''type'', JString ''timeseries''),
         (''datasource'', prometheus),
         (''gridPos'', json_object
          [(''h'', JNumber 8),
           (''w'', JNumber 24),
           (''x'', JNumber 0),
           (''y'', JNumber 63)]),
         (''fieldConfig'', json_object
          [(''defaults'', json_object [(''unit'', JString ''ops'')]),
           (''overrides'', JArray [])]),
         (''targets'', JArray
          [json_object
            [(''expr'', JString ''sum(rate(microscope_rpc_poll_transactions_total[5m]))''),
             (''legendFormat'', JString ''transactions/s''),
             (''refId'', JString ''A'')],
           json_object
            [(''expr'', JString ''sum(rate(microscope_rpc_poll_failures_total[5m]))''),
             (''legendFormat'', JString ''poll failures/s''),
             (''refId'', JString ''B'')],
           json_object
            [(''expr'', JString ''sum(rate(microscope_rpc_poll_transaction_failures_total[5m]))''),
             (''legendFormat'', JString ''transaction failures/s''),
             (''refId'', JString ''C'')],
           json_object
            [(''expr'', JString ''sum(rate(microscope_rpc_poll_quarantined_transactions_total[5m]))''),
             (''legendFormat'', JString ''quarantined/s''),
             (''refId'', JString ''D'')]])]])"

definition enumerate :: "'a list \<Rightarrow> (nat \<times> 'a) list" where
  "enumerate xs = zip [0..<length xs] xs"

definition configure_table_panel ::
  "dashboard_library \<Rightarrow> string list \<Rightarrow> string \<Rightarrow> string \<Rightarrow> string \<times> string \<Rightarrow> string \<Rightarrow> json \<Rightarrow> json"
where
  "configure_table_panel L fs field_prefix record_kind scope description panel =
     (let (scope_path, scope_value) = scope; quote = dl_quote L;
          json_paths = map (\<lambda>(i, path). json_object
              [(''alias'', JString (field_key field_prefix i)), (''path'', JString path)]) (enumerate fs);
          display_names = enumerate (collision_safe_display_names (dl_title_case L) fs);
          field_order = om_insert_all
              (map (\<lambda>(i, n). (field_key field_prefix i, JNumber (int i + 1))) display_names)
              [(''Time'', JNumber 0)];
          field_names = om_of_list
              (map (\<lambda>(i, n). (field_key field_prefix i, JString n)) display_names);
          panel1 = json_set panel ''type'' (JString ''table'');
          panel2 = json_set panel1 ''description'' (JString description);
          panel3 = json_set panel2 ''fieldConfig'' (json_object
          [(''defaults'', json_object
            [(''custom'', json_object
              [(''align'', JString ''auto''),
               (''cellOptions'', json_object [(''type'', JString ''auto'')]),
               (''filterable'', JBool True),
               (''inspect'', JBool False)]),
             (''mappings'', JArray []),
             (''noValue'', JString [CHR 0xE2, CHR 0x80, CHR 0x94]),
             (''thresholds'', json_object
              [(''mode'', JString ''absolute''),
               (''steps'', JArray [json_object [(''color'', JString ''green''), (''value'', JNull)]])])]),
           (''overrides'', JArray [])]);
          panel4 = json_set panel3 ''options'' (json_object
          [(''cellHeight'', JString ''sm''),
           (''footer'', json_object [(''show'', JBool False)]),
           (''showHeader'', JBool True),
           (''sortBy'', JArray
            [json_object
              [(''desc'', JBool True),
               (''displayName'', JString ''Time'')]])]);
          panel5 = json_set panel4 ''targets'' (JArray
          [json_object
            [(''datasource'', json_object
              [(''type'', JString ''loki''),
               (''uid'', JString ''loki'')]),
             (''editorMode'', JString ''code''),
             (''expr'', JString (''{service_name=\"microscope-indexer\"} | json kind=\"kind\", scope=\"'' @ scope_path @ ''\" | kind = \"'' @ record_kind @ ''\" | scope = '' @ quote scope_value @ '' | __error__ = \"\"'')),
             (''queryType'', JString ''range''),
             (''refId'', JString ''A'')]])
      in json_set panel5 ''transformations'' (JArray
          [json_object
            [(''id'', JString ''extractFields''),
             (''options'', json_object
              [(''format'', JString ''json''),
               (''jsonPaths'', JArray json_paths),
               (''keepTime'', JBool True),
               (''replace'', JBool True),
               (''source'', JString ''Line'')])],
           json_object
            [(''id'', JString ''organize''),
             (''options'', json_object
              [(''excludeByName'', json_object []),
               (''includeByName'', json_object []),
               (''indexByName'', JObject field_order),
               (''renameByName'', JObject field_names)])]]))"

text \<open>The rows below a removed panel move up by its height.\<close>

definition has_id :: "u64 \<Rightarrow> json \<Rightarrow> bool" where
  "has_id i panel \<longleftrightarrow> json_as_u64 (json_index panel ''id'') = Some i"

definition grid_value :: "json \<Rightarrow> string \<Rightarrow> u64" where
  "grid_value panel k =
     (case json_as_u64 (json_index (json_index panel ''gridPos'') k) of Some v \<Rightarrow> v | None \<Rightarrow> 0)"

definition remove_panels :: "u64 list \<Rightarrow> json list \<Rightarrow> json list" where
  "remove_panels ids panels =
     (let is_removed = (\<lambda>panel. list_ex (\<lambda>i. has_id i panel) ids);
          removed = map (\<lambda>panel. (grid_value panel ''y'', grid_value panel ''h'')) (filter is_removed panels)
      in map (\<lambda>panel.
             let y = grid_value panel ''y'';
                 shift = sum_list (map snd (filter (\<lambda>(removed_y, height). removed_y < y) removed))
             in json_set panel ''gridPos''
                  (json_set (json_index panel ''gridPos'') ''y'' (json_u64 (sat_sub y shift))))
           (filter (\<lambda>panel. \<not> is_removed panel) panels))"

fun update_first :: "('a \<Rightarrow> bool) \<Rightarrow> ('a \<Rightarrow> 'a) \<Rightarrow> 'a list \<Rightarrow> 'a list option" where
  "update_first p f [] = None"
| "update_first p f (x # xs) = (if p x then Some (f x # xs) else map_option ((#) x) (update_first p f xs))"

section \<open>The document\<close>

datatype dashboard_error =
    TemplateInvalid string
  | TemplatePanelsMissing
  | TemplatePanelMissing string
  | CreatingDashboardDirectory string
  | DashboardText string
  | WritingDashboard string

definition configure_event_panel ::
  "dashboard_library \<Rightarrow> config \<Rightarrow> json list \<Rightarrow> dashboard_error + json list" where
  "configure_event_panel L c panels =
     (case update_first (has_id event_panel_id)
         (configure_table_panel L (db_event_fields (cf_dashboard c)) ''event_field'' ''program_event''
           (''program_id'', cf_program_id c)
           ''Decoded program events for the configured program. Missing configured fields display as a placeholder.'')
         panels of
        None \<Rightarrow> Inl (TemplatePanelMissing ''event panel'')
      | Some panels' \<Rightarrow> Inr panels')"

definition configure_multisig_panel ::
  "dashboard_library \<Rightarrow> config \<Rightarrow> multisig_config \<Rightarrow> json list \<Rightarrow> dashboard_error + json list" where
  "configure_multisig_panel L c m panels =
     (case update_first (has_id multisig_panel_id)
         (configure_table_panel L (db_multisig_fields (cf_dashboard c)) ''multisig_field'' ''multisig_activity''
           (''vault_address'', mc_vault_address m)
           ''Squads multisig activity for the configured vault. Missing configured fields display as a placeholder.'')
         panels of
        None \<Rightarrow> Inl (TemplatePanelMissing ''multisig panel'')
      | Some panels' \<Rightarrow> Inr panels')"

text \<open>\<open>program_events\<close> is the compile-time switch.\<close>

definition overview_panels ::
  "dashboard_library \<Rightarrow> bool \<Rightarrow> config \<Rightarrow> bool \<Rightarrow> json list \<Rightarrow> dashboard_error + json list" where
  "overview_panels L program_events c rpc_polling panels =
     bind_r (if program_events then configure_event_panel L c panels else Inr panels) (\<lambda>panels1.
     bind_r (case cf_multisig c of None \<Rightarrow> Inr panels1 | Some m \<Rightarrow> configure_multisig_panel L c m panels1) (\<lambda>panels2.
       let panels3 = (if rpc_polling
             then panels2 @ rpc_polling_panels (rpc_poll_stale_after_seconds (cf_datasource c)) else panels2);
           panels4 = (if cf_multisig c = None
             then remove_panels [multisig_activity_panel_id, multisig_panel_id] panels3 else panels3)
       in Inr (if program_events then panels4 else remove_panels [event_panel_id] panels4)))"

definition overview_document ::
  "dashboard_library \<Rightarrow> bool \<Rightarrow> config \<Rightarrow> bool \<Rightarrow> dashboard_error + json" where
  "overview_document L program_events c rpc_polling =
     (case dl_template L of
        Inl e \<Rightarrow> Inl (TemplateInvalid e)
      | Inr dashboard \<Rightarrow>
          (case json_as_array (json_index dashboard ''panels'') of
             None \<Rightarrow> Inl TemplatePanelsMissing
           | Some panels \<Rightarrow>
               bind_r (overview_panels L program_events c rpc_polling panels) (\<lambda>panels'.
                 Inr (json_set dashboard ''panels'' (JArray panels')))))"

definition generate_dashboard ::
  "dashboard_library \<Rightarrow> bool \<Rightarrow> (string \<Rightarrow> string option) \<Rightarrow> write_faults \<Rightarrow> config \<Rightarrow> directory
   \<Rightarrow> directory \<times> (dashboard_error + string)"
where
  "generate_dashboard L program_events var f c d =
     (case overview_document L program_events c (polls_rpc (cf_datasource c) var) of
        Inl e \<Rightarrow> (d, Inl e)
      | Inr document \<Rightarrow>
          if fail_directory f then (d, Inl (CreatingDashboardDirectory ''creating dashboard output directory''))
          else case dl_pretty L document of
            Inl e \<Rightarrow> (d, Inl (DashboardText e))
          | Inr text_of_document \<Rightarrow>
              (case replace f ''overview.json'' text_of_document ''dashboard'' d of
                 (d', Inl e) \<Rightarrow> (d', Inl (WritingDashboard e))
               | (d', Inr _) \<Rightarrow> (d', Inr ''overview.json'')))"

end
