(* ===== verification/Dashboard_Safety.thy ===== *)
theory Dashboard_Safety
  imports Dashboard Config_Safety
begin

text \<open>
  The columns of a table panel: the short names that collide are replaced by their paths, and the
  names that result never collide with each other; when one is the name of the time column that
  every table has is worked out. Title casing is a library's; what is used of it is that it is
  idempotent on the names of fields and writes capitalised words.
\<close>

definition title_case_ok :: "(string \<Rightarrow> string) \<Rightarrow> bool" where
  "title_case_ok T \<longleftrightarrow> T ''Event'' = ''Event'' \<and> T ''Time'' = ''Time''
     \<and> (\<forall>s. plain_identifier s \<longrightarrow>
          T (T s) = T s \<and> CHR ''_'' \<notin> set (T s) \<and> CHR ''.'' \<notin> set (T s) \<and> T s \<noteq> ''name'')"

lemma last_segment:
  assumes "dotted_identifiers p"
  shows "plain_identifier (last (split_on (CHR ''.'') p))"
proof -
  obtain ids where ids: "ids \<noteq> []" "list_all plain_identifier ids" "p = join_with ''.'' ids"
    using assms by (auto simp: dotted_identifiers_def)
  have "split_on (CHR ''.'') p = ids"
    unfolding ids(3) by (rule split_join [OF ids(1)]) (use ids(2) identifier_no_dot in \<open>auto simp: list_all_iff\<close>)
  then show ?thesis using ids by (simp add: list_all_iff)
qed

lemma undotted_identifier:
  "dotted_identifiers p \<Longrightarrow> CHR ''.'' \<notin> set p \<Longrightarrow> plain_identifier p"
  using last_segment [of p] by (simp add: split_on_single)

lemma short_name_is_path:
  assumes T: "title_case_ok T" and r: "dotted_identifiers r" and p: "dotted_identifiers p"
    and eq: "display_name T r = p"
  shows "display_name T p = p"
proof -
  let ?s = "last (split_on (CHR ''.'') r)"
  have space: "p \<noteq> ''Program ID''"
  proof
    assume "p = ''Program ID''"
    then have "plain_identifier ''Program ID''"
      using undotted_identifier [OF p] by simp
    then show False by (simp add: plain_identifier_def is_ascii_alphabetic_def is_digit_def)
  qed
  have name: "T ''Event'' = ''Event''" using T by (simp add: title_case_ok_def)
  show ?thesis
  proof (cases "r = ''name'' \<or> r = ''program_id''")
    case True
    then show ?thesis using eq space name by (auto simp: display_name_def)
  next
    case False
    then have p': "p = T ?s" using eq by (auto simp: display_name_def)
    have s: "T (T ?s) = T ?s" "CHR ''_'' \<notin> set (T ?s)" "CHR ''.'' \<notin> set (T ?s)" "T ?s \<noteq> ''name''"
      using T last_segment [OF r] by (simp_all add: title_case_ok_def)
    have "p \<noteq> ''program_id''" using p' s(2) by auto
    then show ?thesis
      using p' s by (simp add: display_name_def split_on_single)
  qed
qed

lemma count_list_two: "i < length xs \<Longrightarrow> j < length xs \<Longrightarrow> i \<noteq> j \<Longrightarrow> xs ! i = xs ! j \<Longrightarrow> 1 < count_list xs (xs ! i)"
proof -
  assume a: "i < length xs" "j < length xs" "i \<noteq> j" "xs ! i = xs ! j"
  then have "{i, j} \<subseteq> {k. k < length xs \<and> xs ! k = xs ! i}" by auto
  then have "card {i, j} \<le> card {k. k < length xs \<and> xs ! k = xs ! i}" by (intro card_mono) auto
  then show ?thesis
    using a by (simp add: count_list_eq_length_filter length_filter_conv_card eq_commute)
qed

lemma display_names_distinct:
  assumes "validate_dashboard_fields name fs = Inr ()" "title_case_ok T"
  shows "distinct (collision_safe_display_names T fs)
    \<and> length (collision_safe_display_names T fs) = length fs"
proof -
  let ?s = "map (display_name T) fs" and ?c = "collision_safe_display_names T fs"
  have fs: "distinct fs" "list_all dotted_identifiers fs"
    using assms(1) by (simp_all add: fields_iff fields_ready_def)
  have nth: "?c ! i = (if 1 < count_list ?s (display_name T (fs ! i)) then fs ! i else display_name T (fs ! i))"
    if "i < length fs" for i
    using that by (simp add: collision_safe_display_names_def Let_def)
  have clash: False
    if i: "i < length fs" "j < length fs" "i \<noteq> j"
      and p: "display_name T (fs ! j) = fs ! i" and one: "\<not> 1 < count_list ?s (display_name T (fs ! j))" for i j
  proof -
    have "display_name T (fs ! i) = fs ! i"
      using short_name_is_path [OF assms(2) _ _ p] fs(2) i by (simp add: list_all_length)
    then have "?s ! j = ?s ! i" using p i by simp
    then show False using count_list_two [of j ?s i] i one by simp
  qed
  have "?c ! i \<noteq> ?c ! j" if i: "i < length fs" "j < length fs" "i \<noteq> j" for i j
  proof
    assume eq: "?c ! i = ?c ! j"
    consider "1 < count_list ?s (display_name T (fs ! i))" "1 < count_list ?s (display_name T (fs ! j))"
      | "1 < count_list ?s (display_name T (fs ! i))" "\<not> 1 < count_list ?s (display_name T (fs ! j))"
      | "\<not> 1 < count_list ?s (display_name T (fs ! i))" "1 < count_list ?s (display_name T (fs ! j))"
      | "\<not> 1 < count_list ?s (display_name T (fs ! i))" "\<not> 1 < count_list ?s (display_name T (fs ! j))"
      by blast
    then show False
    proof cases
      case 1
      then show ?thesis using eq nth i fs(1) by (simp add: nth_eq_iff_index_eq)
    next
      case 2
      then show ?thesis using eq nth i clash [of i j] by simp
    next
      case 3
      then show ?thesis using eq nth i clash [of j i] by simp
    next
      case 4
      then show ?thesis using eq nth i count_list_two [of i ?s j] by simp
    qed
  qed
  moreover have "length ?c = length fs" by (simp add: collision_safe_display_names_def Let_def)
  ultimately show ?thesis by (simp add: distinct_conv_nth)
qed

section \<open>The columns of a table\<close>

text \<open>
  The columns a panel's transformations make, read off the panel: the time, where it is kept, and one
  for each extracted path, each under the name the second transformation gives it.
\<close>

definition alias_of :: "json \<Rightarrow> string" where
  "alias_of j = (case json_as_str (json_index j ''alias'') of Some s \<Rightarrow> s | None \<Rightarrow> [])"

definition renamed :: "json \<Rightarrow> string \<Rightarrow> string" where
  "renamed names key = (case json_as_str (json_index names key) of Some s \<Rightarrow> s | None \<Rightarrow> key)"

definition transformation :: "json \<Rightarrow> nat \<Rightarrow> json" where
  "transformation panel n = json_index (json_elements (json_index panel ''transformations'') ! n) ''options''"

definition table_columns :: "json \<Rightarrow> string list" where
  "table_columns panel =
     (let extracted = transformation panel 0; organized = transformation panel 1
      in map (renamed (json_index organized ''renameByName''))
           ((if json_index extracted ''keepTime'' = JBool True then [''Time''] else [])
            @ map alias_of (json_elements (json_index extracted ''jsonPaths''))))"

lemma field_key_inject: "field_key p i = field_key p j \<longleftrightarrow> i = j"
  by (simp add: field_key_def show_nat_inject)

lemma field_key_not_time: "field_key p i \<noteq> ''Time''"
proof
  assume "field_key p i = ''Time''"
  then have "CHR ''_'' \<in> set ''Time''" unfolding field_key_def by (metis Un_iff list.set_intros(1) set_append)
  then show False by simp
qed

lemma length_names [simp]: "length (collision_safe_display_names T fs) = length fs"
  by (simp add: collision_safe_display_names_def Let_def)

lemma renamed_key:
  assumes "i < length ns"
  shows "renamed (JObject (om_of_list (map (\<lambda>(i, n). (field_key p i, JString n)) (enumerate ns)))) (field_key p i) = ns ! i"
proof -
  let ?es = "map (\<lambda>(i, n). (field_key p i, JString n)) (enumerate ns)"
  have keys: "distinct (map fst ?es)"
    by (auto simp: distinct_map enumerate_def inj_on_def field_key_inject distinct_zipI1 set_zip)
  have "(field_key p i, JString (ns ! i)) \<in> set ?es"
    using assms by (force simp: enumerate_def set_zip)
  then have "om_get (om_of_list ?es) (field_key p i) = Some (JString (ns ! i))"
    using keys by (simp add: om_get_of_list)
  then show ?thesis by (simp add: renamed_def json_index_def json_get_def)
qed

lemma renamed_time: "renamed (JObject (om_of_list (map (\<lambda>(i, n). (field_key p i, JString n)) es))) ''Time'' = ''Time''"
proof -
  let ?es = "map (\<lambda>(i, n). (field_key p i, JString n)) es"
  have "map_of (rev ?es) ''Time'' = None"
    by (auto simp: map_of_eq_None_iff dest: sym [THEN field_key_not_time [THEN notE]])
  then have "om_get (om_of_list ?es) ''Time'' = None"
    by (simp add: om_of_list_def om_get_insert_all om_get_def map_add_def)
  then show ?thesis by (simp add: renamed_def json_index_def json_get_def json_as_str_def)
qed

lemma table_columns_configured:
  assumes "is_object panel"
  shows "table_columns (configure_table_panel L fs p kind scope description panel)
    = ''Time'' # collision_safe_display_names (dl_title_case L) fs"
proof -
  let ?names = "collision_safe_display_names (dl_title_case L) fs"
  let ?c = "configure_table_panel L fs p kind scope description panel"
  let ?paths = "map (\<lambda>(i, path). json_object [(''alias'', JString (field_key p i)), (''path'', JString path)]) (enumerate fs)"
  have kept: "json_index (transformation ?c 0) ''keepTime'' = JBool True"
      "json_index (transformation ?c 0) ''jsonPaths'' = JArray ?paths"
    and rename: "json_index (transformation ?c (Suc 0)) ''renameByName'' =
      JObject (om_of_list (map (\<lambda>(i, n). (field_key p i, JString n)) (enumerate ?names)))"
    using assms by (simp_all add: configure_table_panel_def transformation_def case_prod_unfold Let_def json_fields)
  have aliases: "map alias_of ?paths = map (field_key p) [0..<length fs]"
    by (rule nth_equalityI) (simp_all add: enumerate_def alias_of_def json_fields)
  have "map (renamed (JObject (om_of_list (map (\<lambda>(i, n). (field_key p i, JString n)) (enumerate ?names)))))
      (map (field_key p) [0..<length fs]) = ?names"
    by (rule nth_equalityI) (simp_all add: renamed_key)
  then show ?thesis
    by (simp add: table_columns_def Let_def kept rename aliases renamed_time del: map_map)
qed

text \<open>When a configured field is shown under the name of the time.\<close>

lemma time_among_names:
  assumes "T ''Time'' = ''Time''"
  shows "''Time'' \<in> set (collision_safe_display_names T fs)
    \<longleftrightarrow> ''Time'' \<in> set fs \<or> count_list (map (display_name T) fs) ''Time'' = 1"
proof -
  let ?s = "map (display_name T) fs"
  have time: "display_name T ''Time'' = ''Time''"
    using assms by (simp add: display_name_def)
  have nth: "collision_safe_display_names T fs ! i =
      (if 1 < count_list ?s (display_name T (fs ! i)) then fs ! i else display_name T (fs ! i))"
    if "i < length fs" for i
    using that by (simp add: collision_safe_display_names_def Let_def)
  have pos: "0 < count_list ?s (display_name T (fs ! i))" if "i < length fs" for i
    using that count_list_0_iff [of ?s "display_name T (fs ! i)"] by (simp add: neq0_conv [symmetric] del: neq0_conv)
  show ?thesis
  proof
    assume "''Time'' \<in> set (collision_safe_display_names T fs)"
    then obtain i where i: "i < length fs" "collision_safe_display_names T fs ! i = ''Time''"
      by (metis in_set_conv_nth length_names)
    show "''Time'' \<in> set fs \<or> count_list ?s ''Time'' = 1"
    proof (cases "fs ! i = ''Time''")
      case True
      then show ?thesis using nth_mem [OF i(1)] by simp
    next
      case False
      then show ?thesis using nth [OF i(1)] pos [OF i(1)] i(2) by (auto split: if_splits)
    qed
  next
    assume "''Time'' \<in> set fs \<or> count_list ?s ''Time'' = 1"
    then have "\<exists>i. i < length fs \<and> display_name T (fs ! i) = ''Time'' \<and> (fs ! i = ''Time'' \<or> count_list ?s ''Time'' = 1)"
    proof
      assume "''Time'' \<in> set fs"
      then obtain i where "i < length fs" "fs ! i = ''Time''" by (auto simp: in_set_conv_nth)
      then show ?thesis using time by auto
    next
      assume one: "count_list ?s ''Time'' = 1"
      then have "''Time'' \<in> set ?s" using count_list_0_iff [of ?s "''Time''"] by simp
      then obtain i where "i < length fs" "?s ! i = ''Time''" by (auto simp: in_set_conv_nth)
      then show ?thesis using one by auto
    qed
    then obtain i where i: "i < length fs" "display_name T (fs ! i) = ''Time''"
      "fs ! i = ''Time'' \<or> count_list ?s ''Time'' = 1" by blast
    then have "collision_safe_display_names T fs ! i = ''Time''" using nth by auto
    then show "''Time'' \<in> set (collision_safe_display_names T fs)" using i(1) by (metis length_names nth_mem)
  qed
qed

text \<open>
  C39: The table panel made from a validated configuration has the time and one column for each
  configured field; the fields' columns never share a name, and one of them hides the time exactly
  when a field is the path \<open>Time\<close> or is the only one whose short name is \<open>Time\<close>.
\<close>

theorem column_names_distinct:
  assumes "validate_dashboard_fields name fs = Inr ()" "title_case_ok (dl_title_case L)" "is_object panel"
  shows "\<exists>columns. table_columns (configure_table_panel L fs p kind scope description panel) = ''Time'' # columns
    \<and> length columns = length fs \<and> distinct columns
    \<and> (''Time'' \<in> set columns \<longleftrightarrow>
         ''Time'' \<in> set fs \<or> count_list (map (display_name (dl_title_case L)) fs) ''Time'' = 1)"
  using display_names_distinct [OF assms(1,2)] time_among_names [of "dl_title_case L" fs] assms(2)
  by (simp add: table_columns_configured [OF assms(3)] title_case_ok_def)

text \<open>A title case that joins words and keeps their letters, but for one name.\<close>

definition sample_title_case :: "string \<Rightarrow> string" where
  "sample_title_case s =
     (let w = filter (\<lambda>c. c \<notin> {CHR ''_'', CHR ''.''}) s
      in if w = ''name'' then ''Name'' else if w = ''time'' then ''Time'' else w)"

lemma sample_title_case_ok: "title_case_ok sample_title_case"
proof -
  have "sample_title_case (sample_title_case s) = sample_title_case s \<and> CHR ''_'' \<notin> set (sample_title_case s)
      \<and> CHR ''.'' \<notin> set (sample_title_case s) \<and> sample_title_case s \<noteq> ''name''" for s
  proof -
    let ?w = "filter (\<lambda>c. c \<notin> {CHR ''_'', CHR ''.''}) s"
    have "filter (\<lambda>c. c \<notin> {CHR ''_'', CHR ''.''}) ?w = ?w"
      by (rule filter_id_conv [THEN iffD2]) simp
    then show ?thesis
      unfolding sample_title_case_def Let_def by simp
  qed
  moreover have "sample_title_case ''Event'' = ''Event''" "sample_title_case ''Time'' = ''Time''" by code_simp+
  ultimately show ?thesis unfolding title_case_ok_def by blast
qed

definition sample_dashboard_library :: dashboard_library where
  "sample_dashboard_library = \<lparr>dl_template = Inl [], dl_quote = (\<lambda>s. s), dl_title_case = sample_title_case,
     dl_pretty = (\<lambda>j. Inl [])\<rparr>"

theorem column_names_distinct_witness:
  "distinct (table_columns (configure_table_panel sample_dashboard_library
     [''name'', ''Event'', ''data.amount'', ''amount'', ''data.time'', ''time'']
     ''event_field'' ''program_event'' (''program_id'', ''5'') ''Events.'' (json_object [])))"
proof -
  let ?fs = "[''name'', ''Event'', ''data.amount'', ''amount'', ''data.time'', ''time'']"
  have valid: "validate_dashboard_fields ''event_fields'' ?fs = Inr ()" by code_simp
  have T: "title_case_ok (dl_title_case sample_dashboard_library)"
    by (simp add: sample_dashboard_library_def sample_title_case_ok)
  have count: "count_list (map (display_name sample_title_case) ?fs) ''Time'' \<noteq> 1" by code_simp
  show ?thesis
    using column_names_distinct [OF valid T is_object_object [of "[]"], of "''event_field''" "''program_event''"
      "(''program_id'', ''5'')" "''Events.''"] count
    by (auto simp: sample_dashboard_library_def)
qed

text \<open>
  A configuration that validates can hide the time: a single field with the short name of the time
  gives the table two columns of that name.
\<close>

lemma time_field_repeats_column:
  "validate_dashboard_fields ''event_fields'' [''name'', ''data.time''] = Inr ()
   \<and> table_columns (configure_table_panel sample_dashboard_library [''name'', ''data.time'']
       ''event_field'' ''program_event'' (''program_id'', ''5'') ''Events.'' (json_object []))
     = [''Time'', ''Event'', ''Time'']"
proof -
  have "collision_safe_display_names sample_title_case [''name'', ''data.time''] = [''Event'', ''Time'']"
    by code_simp
  moreover have "validate_dashboard_fields ''event_fields'' [''name'', ''data.time''] = Inr ()" by code_simp
  ultimately show ?thesis
    by (simp add: table_columns_configured sample_dashboard_library_def)
qed

end
