(* ===== verification/Dashboard_Layout.thy ===== *)
theory Dashboard_Layout
  imports Dashboard Config_Safety
begin

text \<open>
  The layout of the overview: panels are rectangles on a grid, and taking out panels that span the
  width moves what is below them up without an overlap, so the generated dashboard shows every
  panel whole in every combination of what is configured.
\<close>

section \<open>Rectangles\<close>

definition panel_top :: "json \<Rightarrow> nat" where "panel_top p = unat (grid_value p ''y'')"
definition panel_height :: "json \<Rightarrow> nat" where "panel_height p = unat (grid_value p ''h'')"
definition panel_left :: "json \<Rightarrow> nat" where "panel_left p = unat (grid_value p ''x'')"
definition panel_width :: "json \<Rightarrow> nat" where "panel_width p = unat (grid_value p ''w'')"

definition panel_above :: "json \<Rightarrow> json \<Rightarrow> bool" where
  "panel_above p q \<longleftrightarrow> panel_top p + panel_height p \<le> panel_top q"

definition panels_apart :: "json \<Rightarrow> json \<Rightarrow> bool" where
  "panels_apart p q \<longleftrightarrow> panel_above p q \<or> panel_above q p
     \<or> panel_left p + panel_width p \<le> panel_left q \<or> panel_left q + panel_width q \<le> panel_left p"

text \<open>The panels that may be taken out have the width of the dashboard to themselves.\<close>

definition may_go :: "json \<Rightarrow> bool" where
  "may_go p \<longleftrightarrow> list_ex (\<lambda>i. has_id i p) [event_panel_id, multisig_activity_panel_id, multisig_panel_id]"

definition well_placed :: "json \<Rightarrow> json \<Rightarrow> bool" where
  "well_placed p q \<longleftrightarrow> panels_apart p q \<and> (may_go p \<or> may_go q \<longrightarrow> panel_above p q \<or> panel_above q p)"

text \<open>A panel is an object with a grid position, of some height.\<close>

definition panel_ok :: "json \<Rightarrow> bool" where
  "panel_ok p \<longleftrightarrow> (\<exists>m g. p = JObject m \<and> om_wf m \<and> om_get m ''gridPos'' = Some (JObject g) \<and> om_wf g)
     \<and> 0 < panel_height p \<and> panel_top p + panel_height p < 2 ^ 64"

definition layout_ok :: "json list \<Rightarrow> bool" where
  "layout_ok ps \<longleftrightarrow> list_all panel_ok ps \<and> sorted_wrt well_placed ps"

lemma json_set_index:
  assumes "om_wf m"
  shows "json_index (json_set (JObject m) k v) k' = (if k' = k then v else json_index (JObject m) k')"
  using assms by (simp add: json_set_def json_index_def json_get_def om_get_om_insert)

section \<open>Heights of disjoint bands\<close>

lemma bands_card:
  "sorted_wrt (\<lambda>a b. fst a + snd a \<le> fst b \<or> fst b + snd b \<le> (fst a :: nat)) rs \<Longrightarrow>
    sum_list (map snd rs) = card (\<Union>r \<in> set rs. {fst r ..< fst r + snd r})"
proof (induction rs)
  case (Cons r rs)
  have "{fst r ..< fst r + snd r} \<inter> (\<Union>s \<in> set rs. {fst s ..< fst s + snd s}) = {}"
    using Cons.prems by fastforce
  then show ?case
    using Cons by (simp add: card_Un_disjoint)
qed simp

lemma bands_within:
  assumes "sorted_wrt (\<lambda>a b. fst a + snd a \<le> fst b \<or> fst b + snd b \<le> (fst a :: nat)) rs"
    and "\<forall>r \<in> set rs. lo \<le> fst r \<and> fst r + snd r \<le> hi"
  shows "sum_list (map snd rs) \<le> hi - lo"
proof -
  have "(\<Union>r \<in> set rs. {fst r ..< fst r + snd r}) \<subseteq> {lo ..< hi}"
    using assms(2) by fastforce
  then have "card (\<Union>r \<in> set rs. {fst r ..< fst r + snd r}) \<le> card {lo ..< hi}"
    by (intro card_mono) simp_all
  then show ?thesis by (simp add: bands_card [OF assms(1)])
qed

lemma sum_list_split:
  fixes f :: "'a \<Rightarrow> nat"
  shows "sum_list (map f (filter P xs)) =
    sum_list (map f (filter (\<lambda>x. P x \<and> Q x) xs)) + sum_list (map f (filter (\<lambda>x. P x \<and> \<not> Q x) xs))"
  by (induction xs) auto

lemma unat_sum_list:
  "sum_list (map unat ws) < 2 ^ 64 \<Longrightarrow> unat (sum_list (ws :: u64 list)) = sum_list (map unat ws)"
proof (induction ws)
  case (Cons w ws)
  then have "unat (sum_list ws) = sum_list (map unat ws)" by simp
  then show ?case using Cons.prems by (simp add: unat_word_ariths)
qed simp

section \<open>Taking panels out\<close>

abbreviation removed :: "u64 list \<Rightarrow> json \<Rightarrow> bool" where
  "removed ids p \<equiv> list_ex (\<lambda>i. has_id i p) ids"

text \<open>How far a panel at a row moves up, and the panel moved.\<close>

definition rows_gone :: "u64 list \<Rightarrow> json list \<Rightarrow> nat \<Rightarrow> nat" where
  "rows_gone ids ps y = sum_list (map panel_height (filter (\<lambda>r. removed ids r \<and> panel_top r < y) ps))"

definition moved_up :: "u64 list \<Rightarrow> json list \<Rightarrow> json \<Rightarrow> json" where
  "moved_up ids ps p = json_set p ''gridPos'' (json_set (json_index p ''gridPos'') ''y''
     (json_u64 (sat_sub (grid_value p ''y'')
       (sum_list (map (\<lambda>r. grid_value r ''h'')
         (filter (\<lambda>r. removed ids r \<and> grid_value r ''y'' < grid_value p ''y'') ps))))))"

lemma remove_panels_eq:
  "remove_panels ids ps = map (moved_up ids ps) (filter (\<lambda>p. \<not> removed ids p) ps)"
proof -
  have "map snd (filter (\<lambda>(removed_y, height). removed_y < grid_value p ''y'')
      (map (\<lambda>r. (grid_value r ''y'', grid_value r ''h'')) (filter (removed ids) ps)))
    = map (\<lambda>r. grid_value r ''h'') (filter (\<lambda>r. removed ids r \<and> grid_value r ''y'' < grid_value p ''y'') ps)" for p
    by (induction ps) auto
  then show ?thesis by (simp add: remove_panels_def Let_def moved_up_def)
qed

lemma well_placed_sym: "well_placed p q \<Longrightarrow> well_placed q p"
  by (auto simp: well_placed_def panels_apart_def)

lemma well_placed_members:
  assumes "layout_ok ps" "p \<in> set ps" "q \<in> set ps" "p \<noteq> q"
  shows "well_placed p q"
proof -
  have "sorted_wrt well_placed xs \<Longrightarrow> x \<in> set xs \<Longrightarrow> y \<in> set xs \<Longrightarrow> x \<noteq> y \<Longrightarrow> well_placed x y" for xs x y
    by (induction xs) (auto intro: well_placed_sym)
  then show ?thesis using assms unfolding layout_ok_def by blast
qed

lemma removed_bands:
  assumes "layout_ok ps" "\<forall>p. removed ids p \<longrightarrow> may_go p"
  shows "sorted_wrt (\<lambda>a b. fst a + snd a \<le> fst b \<or> fst b + snd b \<le> (fst a :: nat))
    (map (\<lambda>r. (panel_top r, panel_height r)) (filter (\<lambda>r. removed ids r \<and> Q r) ps))"
proof -
  have "sorted_wrt well_placed (filter (\<lambda>r. removed ids r \<and> Q r) ps)"
    using assms(1) by (simp add: layout_ok_def sorted_wrt_filter)
  then show ?thesis
    unfolding sorted_wrt_map
    by (rule sorted_wrt_mono_rel [rotated]) (use assms(2) in \<open>auto simp: well_placed_def panel_above_def\<close>)
qed

text \<open>The bands taken out between two rows fit between them.\<close>

lemma bands_between:
  assumes "layout_ok ps" "\<forall>p. removed ids p \<longrightarrow> may_go p"
    and "\<And>r. r \<in> set ps \<Longrightarrow> removed ids r \<Longrightarrow> Q r \<Longrightarrow> lo \<le> panel_top r \<and> panel_top r + panel_height r \<le> hi"
  shows "sum_list (map panel_height (filter (\<lambda>r. removed ids r \<and> Q r) ps)) \<le> hi - lo"
  using bands_within [OF removed_bands [OF assms(1,2), where Q = Q], where lo = lo and hi = hi] assms(3)
  by (simp add: comp_def)

lemma kept_removed:
  assumes "layout_ok ps" "\<forall>p. removed ids p \<longrightarrow> may_go p"
    and "p \<in> set ps" "\<not> removed ids p" "r \<in> set ps" "removed ids r"
  shows "panel_above p r \<or> panel_above r p"
  using well_placed_members [OF assms(1,3,5)] assms(2,4,6) by (auto simp: well_placed_def)

lemma rows_gone_le:
  assumes "layout_ok ps" "\<forall>p. removed ids p \<longrightarrow> may_go p" "p \<in> set ps" "\<not> removed ids p"
  shows "rows_gone ids ps (panel_top p) \<le> panel_top p"
proof -
  have "sum_list (map panel_height (filter (\<lambda>r. removed ids r \<and> panel_top r < panel_top p) ps))
      \<le> panel_top p - 0"
    by (rule bands_between [OF assms(1,2)])
      (use kept_removed [OF assms] in \<open>fastforce simp: panel_above_def\<close>)+
  then show ?thesis by (simp add: rows_gone_def)
qed

lemma rows_gone_between:
  assumes "layout_ok ps" "\<forall>p. removed ids p \<longrightarrow> may_go p" "p \<in> set ps" "\<not> removed ids p"
    and "q \<in> set ps" "\<not> removed ids q" "panel_above p q"
  shows "panel_top p + panel_height p + rows_gone ids ps (panel_top q)
    \<le> panel_top q + rows_gone ids ps (panel_top p)"
proof -
  let ?mid = "\<lambda>r. panel_top r < panel_top q \<and> \<not> panel_top r < panel_top p"
  have le: "panel_top p \<le> panel_top q" using assms(7) by (simp add: panel_above_def)
  have low: "filter (\<lambda>r. (removed ids r \<and> panel_top r < panel_top q) \<and> panel_top r < panel_top p) ps
      = filter (\<lambda>r. removed ids r \<and> panel_top r < panel_top p) ps"
    using le by (intro filter_cong) auto
  have "rows_gone ids ps (panel_top q) = rows_gone ids ps (panel_top p)
      + sum_list (map panel_height (filter (\<lambda>r. removed ids r \<and> ?mid r) ps))"
    using sum_list_split [of panel_height "\<lambda>r. removed ids r \<and> panel_top r < panel_top q" ps
        "\<lambda>r. panel_top r < panel_top p"] low
    by (simp add: rows_gone_def conj_assoc)
  moreover have "sum_list (map panel_height (filter (\<lambda>r. removed ids r \<and> ?mid r) ps))
      \<le> panel_top q - (panel_top p + panel_height p)"
  proof (rule bands_between [OF assms(1,2)])
    fix r
    assume r: "r \<in> set ps" "removed ids r" "?mid r"
    have "0 < panel_height r" using assms(1) r(1) by (auto simp: layout_ok_def list_all_iff panel_ok_def)
    then show "panel_top p + panel_height p \<le> panel_top r \<and> panel_top r + panel_height r \<le> panel_top q"
      using kept_removed [OF assms(1-4) r(1,2)] kept_removed [OF assms(1,2,5,6) r(1,2)] r(3)
      by (auto simp: panel_above_def)
  qed
  ultimately show ?thesis
    using assms(7) by (simp add: panel_above_def)
qed

text \<open>The panel moved: only its row changes.\<close>

lemma moved_grid:
  assumes "panel_ok p"
  shows "has_id i (moved_up ids ps p) = has_id i p"
    and "grid_value (moved_up ids ps p) k = (if k = ''y''
      then sat_sub (grid_value p ''y'') (sum_list (map (\<lambda>r. grid_value r ''h'')
         (filter (\<lambda>r. removed ids r \<and> grid_value r ''y'' < grid_value p ''y'') ps)))
      else grid_value p k)"
    and "\<exists>m g. moved_up ids ps p = JObject m \<and> om_wf m \<and> om_get m ''gridPos'' = Some (JObject g) \<and> om_wf g"
proof -
  obtain m g where p: "p = JObject m" "om_wf m" "om_get m ''gridPos'' = Some (JObject g)" "om_wf g"
    using assms by (auto simp: panel_ok_def)
  have g: "json_index p ''gridPos'' = JObject g" by (simp add: p json_index_def json_get_def)
  show "has_id i (moved_up ids ps p) = has_id i p"
    by (simp add: has_id_def moved_up_def p(1) json_set_index [OF p(2)])
  show "grid_value (moved_up ids ps p) k = (if k = ''y''
      then sat_sub (grid_value p ''y'') (sum_list (map (\<lambda>r. grid_value r ''h'')
         (filter (\<lambda>r. removed ids r \<and> grid_value r ''y'' < grid_value p ''y'') ps)))
      else grid_value p k)"
    unfolding moved_up_def g
    by (simp add: grid_value_def p(1) json_set_index [OF p(2)] json_set_index [OF p(4)] g [unfolded p(1)])
  show "\<exists>m g. moved_up ids ps p = JObject m \<and> om_wf m \<and> om_get m ''gridPos'' = Some (JObject g) \<and> om_wf g"
    unfolding moved_up_def g
    by (simp add: p(1) json_set_def om_get_om_insert p(2,4) om_wf_om_insert)
qed

lemma moved_top:
  assumes "layout_ok ps" "\<forall>p. removed ids p \<longrightarrow> may_go p" "p \<in> set ps" "\<not> removed ids p"
  shows "panel_top (moved_up ids ps p) = panel_top p - rows_gone ids ps (panel_top p)"
    and "panel_height (moved_up ids ps p) = panel_height p"
    and "panel_left (moved_up ids ps p) = panel_left p" "panel_width (moved_up ids ps p) = panel_width p"
proof -
  have ok: "panel_ok p" using assms(1,3) by (simp add: layout_ok_def list_all_iff)
  note G = moved_grid(2) [OF ok, of ids ps]
  let ?ws = "map (\<lambda>r. grid_value r ''h'')
         (filter (\<lambda>r. removed ids r \<and> grid_value r ''y'' < grid_value p ''y'') ps)"
  have "sum_list (map unat ?ws) = rows_gone ids ps (panel_top p)"
    by (simp add: rows_gone_def panel_top_def panel_height_def [abs_def] word_less_nat_alt comp_def)
  moreover have "rows_gone ids ps (panel_top p) < 2 ^ 64"
    using rows_gone_le [OF assms] ok by (simp add: panel_ok_def)
  ultimately have "unat (sum_list ?ws) = rows_gone ids ps (panel_top p)"
    using unat_sum_list [of ?ws] by simp
  then show "panel_top (moved_up ids ps p) = panel_top p - rows_gone ids ps (panel_top p)"
    unfolding panel_top_def G by (simp add: unat_sat_sub)
  show "panel_height (moved_up ids ps p) = panel_height p"
    "panel_left (moved_up ids ps p) = panel_left p" "panel_width (moved_up ids ps p) = panel_width p"
    by (simp_all add: panel_height_def panel_left_def panel_width_def G)
qed

lemma remove_panels_layout:
  assumes "layout_ok ps" "\<forall>p. removed ids p \<longrightarrow> may_go p"
  shows "layout_ok (remove_panels ids ps)"
proof -
  have ok: "panel_ok p" if "p \<in> set ps" for p
    using assms(1) that by (simp add: layout_ok_def list_all_iff)
  note top = moved_top [OF assms]
  have above: "panel_above (moved_up ids ps p) (moved_up ids ps q)"
    if "p \<in> set ps" "\<not> removed ids p" "q \<in> set ps" "\<not> removed ids q" "panel_above p q" for p q
    using top(1,2) [OF that(1,2)] top(1) [OF that(3,4)] rows_gone_between [OF assms that]
      rows_gone_le [OF assms that(1,2)] rows_gone_le [OF assms that(3,4)]
    by (simp add: panel_above_def)
  have same: "may_go (moved_up ids ps p) = may_go p" if "p \<in> set ps" for p
    using moved_grid(1) [OF ok [OF that]] by (simp add: may_go_def)
  have placed: "well_placed (moved_up ids ps p) (moved_up ids ps q)"
    if "p \<in> set ps" "\<not> removed ids p" "q \<in> set ps" "\<not> removed ids q" "well_placed p q" for p q
    using that(5) above [OF that(1-4)] above [OF that(3,4,1,2)] top(3,4) [OF that(1,2)] top(3,4) [OF that(3,4)]
      same [OF that(1)] same [OF that(3)]
    unfolding well_placed_def panels_apart_def by auto
  have "panel_ok (moved_up ids ps p)" if "p \<in> set ps" "\<not> removed ids p" for p
    using moved_grid(3) [OF ok [OF that(1)]] top(1,2) [OF that] ok [OF that(1)]
    unfolding panel_ok_def by (auto simp del: power_numeral)
  moreover have "sorted_wrt well_placed (map (moved_up ids ps) (filter (\<lambda>p. \<not> removed ids p) ps))"
    unfolding sorted_wrt_map
    by (rule sorted_wrt_mono_rel [where P = well_placed])
      (use assms(1) placed in \<open>auto simp: layout_ok_def sorted_wrt_filter\<close>)
  ultimately show ?thesis
    by (auto simp: layout_ok_def remove_panels_eq list_all_iff)
qed

lemma remove_panels_ids:
  assumes "list_all panel_ok ps"
  shows "list_all (\<lambda>p. \<not> removed ids p) (remove_panels ids ps)"
    and "list_all (\<lambda>p. \<not> has_id i p) ps \<Longrightarrow> list_all (\<lambda>p. \<not> has_id i p) (remove_panels ids ps)"
  using assms by (auto simp: remove_panels_eq list_all_iff list_ex_iff moved_grid(1))

section \<open>The overview\<close>

text \<open>Configuring a table changes neither the place nor the identity of its panel.\<close>

lemma json_set_frame:
  assumes "panel_ok p" "k \<noteq> ''gridPos''" "k \<noteq> ''id''"
  shows "panel_ok (json_set p k v)" "has_id i (json_set p k v) = has_id i p"
    "grid_value (json_set p k v) j = grid_value p j"
proof -
  obtain m g where p: "p = JObject m" "om_wf m" "om_get m ''gridPos'' = Some (JObject g)" "om_wf g"
    using assms(1) by (auto simp: panel_ok_def)
  show id: "has_id i (json_set p k v) = has_id i p"
    and grid: "grid_value (json_set p k v) j = grid_value p j" for j
    using assms(2,3) by (simp_all add: has_id_def grid_value_def p(1) json_set_index [OF p(2)])
  have "\<exists>m g. json_set p k v = JObject m \<and> om_wf m \<and> om_get m ''gridPos'' = Some (JObject g) \<and> om_wf g"
    using assms(2) by (simp add: p(1) json_set_def om_get_om_insert p om_wf_om_insert)
  then show "panel_ok (json_set p k v)"
    using assms(1) by (simp add: panel_ok_def panel_height_def panel_top_def grid)
qed

definition in_place_of :: "json \<Rightarrow> json \<Rightarrow> bool" where
  "in_place_of p q \<longleftrightarrow> panel_ok q \<and> (\<forall>i. has_id i q = has_id i p) \<and> (\<forall>k. grid_value q k = grid_value p k)"

lemma in_place_set:
  "in_place_of p q \<Longrightarrow> k \<noteq> ''gridPos'' \<Longrightarrow> k \<noteq> ''id'' \<Longrightarrow> in_place_of p (json_set q k v)"
  by (simp add: in_place_of_def json_set_frame)

lemma configured_in_place: "panel_ok p \<Longrightarrow> in_place_of p (configure_table_panel L fs pre kind scope desc p)"
  unfolding configure_table_panel_def Let_def case_prod_unfold
  by (intro in_place_set) (simp_all add: in_place_of_def)

lemma update_first_in_place:
  "update_first t f ps = Some qs \<Longrightarrow> (\<And>p. panel_ok p \<Longrightarrow> in_place_of p (f p)) \<Longrightarrow> list_all panel_ok ps \<Longrightarrow>
    list_all2 in_place_of ps qs"
proof (induction ps arbitrary: qs)
  case (Cons p ps)
  have "list_all2 in_place_of ps ps"
    using Cons.prems(3) by (intro list.rel_refl_strong) (simp add: in_place_of_def list_all_iff)
  then show ?case using Cons by (auto split: if_splits) (simp add: in_place_of_def)
qed simp

lemma in_place_relations:
  assumes "in_place_of p p'" "in_place_of q q'"
  shows "well_placed p' q' = well_placed p q" "panel_top p' + panel_height p' = panel_top p + panel_height p"
  using assms
  by (simp_all add: in_place_of_def well_placed_def panels_apart_def panel_above_def panel_top_def
      panel_height_def panel_left_def panel_width_def may_go_def)

lemma layout_in_place:
  assumes "list_all2 in_place_of ps qs" "layout_ok ps" "list_all (\<lambda>p. panel_top p + panel_height p \<le> n) ps"
  shows "layout_ok qs" "list_all (\<lambda>p. panel_top p + panel_height p \<le> n) qs"
proof -
  have at: "in_place_of (ps ! i) (qs ! i)" if "i < length ps" for i
    using assms(1) that by (simp add: list_all2_conv_all_nth)
  have len: "length qs = length ps" using assms(1) by (simp add: list_all2_lengthD)
  have "well_placed (qs ! i) (qs ! j)" if "i < j" "j < length qs" for i j
    using that assms(2) in_place_relations(1) [OF at at, of i j]
    by (simp add: layout_ok_def sorted_wrt_iff_nth_less len)
  then have "sorted_wrt well_placed qs" by (simp add: sorted_wrt_iff_nth_less)
  moreover have "list_all panel_ok qs"
    using at by (simp add: list_all_length len in_place_of_def)
  ultimately show "layout_ok qs" by (simp add: layout_ok_def)
  show "list_all (\<lambda>p. panel_top p + panel_height p \<le> n) qs"
    using assms(3) in_place_relations(2) [OF at at] by (simp add: list_all_length len)
qed

text \<open>The panels of RPC polling: six rectangles below row 56.\<close>

definition grid_of :: "json \<Rightarrow> (nat \<times> nat) \<times> (nat \<times> nat)" where
  "grid_of p = ((panel_left p, panel_width p), (panel_top p, panel_height p))"

lemma panel_ok_object:
  assumes "distinct (map fst fs)" "map_of fs ''gridPos'' = Some (json_object gs)"
    and "0 < panel_height (json_object fs)" "panel_top (json_object fs) + panel_height (json_object fs) < 2 ^ 64"
  shows "panel_ok (json_object fs)"
  using assms by (auto simp: panel_ok_def json_object_def om_get_of_list)

lemma rpc_grids:
  "map grid_of (rpc_polling_panels t) =
    [((0, 24), (56, 1)), ((0, 6), (57, 6)), ((6, 6), (57, 6)), ((12, 6), (57, 6)), ((18, 6), (57, 6)), ((0, 24), (63, 8))]"
  by code_simp

lemma panels_apart_grid:
  "panels_apart p q \<longleftrightarrow>
    (case (grid_of p, grid_of q) of (((x, w), (y, h)), ((x', w'), (y', h'))) \<Rightarrow>
       y + h \<le> y' \<or> y' + h' \<le> y \<or> x + w \<le> x' \<or> x' + w' \<le> x)"
  by (simp add: grid_of_def panels_apart_def panel_above_def)

lemma rpc_layout:
  "layout_ok (rpc_polling_panels t)" "list_all (\<lambda>p. 56 \<le> panel_top p) (rpc_polling_panels t)"
proof -
  let ?ps = "rpc_polling_panels t"
  have tops: "map panel_top ?ps = map (\<lambda>g. fst (snd g)) (map grid_of ?ps)"
    "map panel_height ?ps = map (\<lambda>g. snd (snd g)) (map grid_of ?ps)"
    by (simp_all add: grid_of_def)
  have "list_all (\<lambda>y. 56 \<le> y) (map panel_top ?ps)" unfolding tops rpc_grids by simp
  then show "list_all (\<lambda>p. 56 \<le> panel_top p) ?ps" by (simp add: list.pred_map comp_def)
  have apart: "sorted_wrt panels_apart ?ps"
  proof -
    let ?apart = "\<lambda>((x, w), (y, h)) ((x', w'), (y', h')).
       y + h \<le> y' \<or> y' + h' \<le> y \<or> x + w \<le> x' \<or> x' + w' \<le> (x :: nat)"
    have "sorted_wrt ?apart (map grid_of ?ps)" unfolding rpc_grids by simp
    then show ?thesis
      unfolding sorted_wrt_map by (simp add: panels_apart_grid [abs_def] case_prod_unfold)
  qed
  have stays: "list_all (\<lambda>p. \<not> may_go p) ?ps" by code_simp
  have "list_all (\<lambda>p. \<exists>fs gs. p = json_object fs \<and> distinct (map fst fs)
      \<and> map_of fs ''gridPos'' = Some (json_object gs)) ?ps"
    by (simp add: rpc_polling_panels_def Let_def) (intro conjI exI; (rule refl)?; simp)
  moreover have "list_all (\<lambda>g. 0 < snd (snd g) \<and> fst (snd g) + snd (snd g) < 2 ^ 64) (map grid_of ?ps)"
    unfolding rpc_grids by simp
  ultimately have "list_all panel_ok ?ps"
    using panel_ok_object by (fastforce simp: list_all_iff grid_of_def)
  then show "layout_ok ?ps"
    using sorted_wrt_mono_rel [OF _ apart, of well_placed] stays
    by (auto simp: layout_ok_def well_placed_def list_all_iff)
qed

lemma layout_append:
  assumes "layout_ok ps" "layout_ok qs" "list_all (\<lambda>p. panel_top p + panel_height p \<le> n) ps"
    and "list_all (\<lambda>q. n \<le> panel_top q) qs"
  shows "layout_ok (ps @ qs)"
proof -
  have "well_placed p q" if "p \<in> set ps" "q \<in> set qs" for p q
  proof -
    have "panel_top p + panel_height p \<le> n" "n \<le> panel_top q"
      using assms(3,4) that by (auto simp: list_all_iff)
    then have "panel_above p q" by (simp add: panel_above_def)
    then show ?thesis by (simp add: well_placed_def panels_apart_def)
  qed
  then show ?thesis
    using assms(1,2) by (auto simp: layout_ok_def sorted_wrt_append)
qed

lemma may_go_ids:
  "\<forall>p. removed [multisig_activity_panel_id, multisig_panel_id] p \<longrightarrow> may_go p"
  "\<forall>p. removed [event_panel_id] p \<longrightarrow> may_go p"
  by (auto simp: may_go_def)

text \<open>The stages of the overview: the configured and added panels, then the removals.\<close>

lemma overview_stages:
  assumes "overview_panels L program_events c rpc_polling panels = Inr panels'"
    and "layout_ok panels" "list_all (\<lambda>p. panel_top p + panel_height p \<le> 56) panels"
  obtains ps3 ps4 where "layout_ok ps3" "layout_ok ps4"
    "ps4 = (if cf_multisig c = None then remove_panels [multisig_activity_panel_id, multisig_panel_id] ps3 else ps3)"
    "panels' = (if program_events then ps4 else remove_panels [event_panel_id] ps4)"
proof -
  let ?low = "list_all (\<lambda>p. panel_top p + panel_height p \<le> 56)"
  obtain ps1 where ps1: "(if program_events then configure_event_panel L c panels else Inr panels) = Inr ps1"
    using assms(1) by (auto simp: overview_panels_def result_iff)
  obtain ps2 where ps2: "(case cf_multisig c of None \<Rightarrow> Inr ps1 | Some m \<Rightarrow> configure_multisig_panel L c m ps1) = Inr ps2"
    using assms(1) ps1 by (auto simp: overview_panels_def result_iff)
  have in_place: "layout_ok qs \<and> ?low qs"
    if "update_first t (configure_table_panel L fs pre kind scope desc) ps = Some qs" "layout_ok ps" "?low ps"
    for t fs pre kind scope desc ps qs
    using layout_in_place [OF update_first_in_place [OF that(1) configured_in_place] that(2,3)] that(2)
    by (simp add: layout_ok_def)
  have ok1: "layout_ok ps1" "?low ps1"
    using ps1 assms(2,3) in_place
    by (auto simp: configure_event_panel_def split: if_splits option.splits)
  have ok2: "layout_ok ps2" "?low ps2"
    using ps2 ok1 in_place
    by (auto simp: configure_multisig_panel_def split: option.splits)
  define ps3 where "ps3 = (if rpc_polling
     then ps2 @ rpc_polling_panels (rpc_poll_stale_after_seconds (cf_datasource c)) else ps2)"
  have ok3: "layout_ok ps3"
    using ok2 layout_append [OF ok2(1) rpc_layout(1) ok2(2) rpc_layout(2)] by (simp add: ps3_def)
  define ps4 where "ps4 = (if cf_multisig c = None
     then remove_panels [multisig_activity_panel_id, multisig_panel_id] ps3 else ps3)"
  have ok4: "layout_ok ps4"
    using ok3 remove_panels_layout [OF ok3 may_go_ids(1)] by (simp add: ps4_def)
  have "overview_panels L program_events c rpc_polling panels =
      Inr (if program_events then ps4 else remove_panels [event_panel_id] ps4)"
    unfolding overview_panels_def ps1 by (simp add: ps2 ps3_def ps4_def Let_def)
  then have final: "panels' = (if program_events then ps4 else remove_panels [event_panel_id] ps4)"
    using assms(1) by simp
  then show thesis using that [OF ok3 ok4] by (simp add: ps4_def)
qed

text \<open>
  C40: No panel of the generated dashboard overlaps another, whether RPC polling, a multisig and program
  events are configured or not: from a template whose panels are apart, those that may go alone in
  their rows, every combination leaves the panels apart, without those of what is not configured.
\<close>

theorem overview_panels_apart:
  assumes "overview_panels L program_events c rpc_polling panels = Inr panels'"
    and "layout_ok panels" "list_all (\<lambda>p. panel_top p + panel_height p \<le> 56) panels"
  shows "sorted_wrt panels_apart panels'
    \<and> (program_events \<or> list_all (\<lambda>p. \<not> has_id event_panel_id p) panels')
    \<and> (cf_multisig c \<noteq> None \<or> list_all (\<lambda>p. \<not> has_id multisig_activity_panel_id p
          \<and> \<not> has_id multisig_panel_id p) panels')"
proof -
  obtain ps3 ps4 where ok3: "layout_ok ps3" and ok4: "layout_ok ps4"
    and ps4_def: "ps4 = (if cf_multisig c = None
      then remove_panels [multisig_activity_panel_id, multisig_panel_id] ps3 else ps3)"
    and final: "panels' = (if program_events then ps4 else remove_panels [event_panel_id] ps4)"
    by (rule overview_stages [OF assms])
  have "layout_ok panels'"
    using ok4 remove_panels_layout [OF ok4 may_go_ids(2)] by (simp add: final)
  then have "sorted_wrt panels_apart panels'"
    using sorted_wrt_mono_rel [of panels' well_placed panels_apart] by (simp add: layout_ok_def well_placed_def)
  moreover have "program_events \<or> list_all (\<lambda>p. \<not> has_id event_panel_id p) panels'"
    using remove_panels_ids(1) [of ps4 "[event_panel_id]"] ok4 by (simp add: final layout_ok_def)
  moreover have "cf_multisig c \<noteq> None \<or> list_all (\<lambda>p. \<not> has_id multisig_activity_panel_id p
          \<and> \<not> has_id multisig_panel_id p) panels'"
  proof (cases "cf_multisig c")
    case None
    have gone: "list_all (\<lambda>p. \<not> has_id i p) ps4" if "i \<in> {multisig_activity_panel_id, multisig_panel_id}" for i
      using remove_panels_ids(1) [of ps3 "[multisig_activity_panel_id, multisig_panel_id]"] ok3 that None
      by (auto simp: ps4_def layout_ok_def list_all_iff)
    then show ?thesis
      using remove_panels_ids(2) [of ps4 _ "[event_panel_id]"] ok4
      by (auto simp: final layout_ok_def list_all_iff)
  qed simp
  ultimately show ?thesis by blast
qed

text \<open>The panels of the repository's template, by their places.\<close>

definition template_panel :: "int \<Rightarrow> (int \<times> int) \<times> (int \<times> int) \<Rightarrow> json" where
  "template_panel i g = (case g of ((x, w), (y, h)) \<Rightarrow> json_object
     [(''id'', JNumber i), (''gridPos'', json_object
        [(''h'', JNumber h), (''w'', JNumber w), (''x'', JNumber x), (''y'', JNumber y)])])"

definition template_panels :: "json list" where
  "template_panels =
     [template_panel 1 ((0, 12), (0, 8)), template_panel 2 ((12, 12), (0, 8)),
      template_panel 3 ((0, 24), (8, 8)), template_panel 4 ((0, 12), (16, 8)),
      template_panel 5 ((12, 12), (16, 8)), template_panel 7 ((0, 24), (24, 8)),
      template_panel 6 ((0, 24), (32, 12)), template_panel 8 ((0, 24), (44, 12))]"

lemma template_grids:
  "map grid_of template_panels = [((0, 12), (0, 8)), ((12, 12), (0, 8)), ((0, 24), (8, 8)), ((0, 12), (16, 8)),
      ((12, 12), (16, 8)), ((0, 24), (24, 8)), ((0, 24), (32, 12)), ((0, 24), (44, 12))]"
  by code_simp

lemma template_layout: "layout_ok template_panels"
  "list_all (\<lambda>p. panel_top p + panel_height p \<le> 56) template_panels"
proof -
  show "list_all (\<lambda>p. panel_top p + panel_height p \<le> 56) template_panels" by code_simp
  have "sorted_wrt well_placed template_panels" by code_simp
  moreover have "panel_ok p" if p: "p \<in> set template_panels" for p
  proof -
    obtain i x w y h where i: "p = template_panel i ((x, w), (y, h))"
      using p by (auto simp: template_panels_def)
    have "list_all (\<lambda>g. 0 < snd (snd g) \<and> fst (snd g) + snd (snd g) < 2 ^ 64) (map grid_of template_panels)"
      unfolding template_grids by simp
    then have "0 < panel_height p" "panel_top p + panel_height p < 2 ^ 64"
      using p by (auto simp: list_all_iff grid_of_def)
    then show ?thesis
      unfolding i template_panel_def prod.case by (intro panel_ok_object) simp_all
  qed
  then have "list_all panel_ok template_panels" by (simp add: list_all_iff)
  ultimately show "layout_ok template_panels" by (simp add: layout_ok_def)
qed

theorem overview_panels_apart_witness:
  "\<exists>panels'. overview_panels \<lparr>dl_template = Inr JNull, dl_quote = id, dl_title_case = id, dl_pretty = (\<lambda>_. Inr [])\<rparr>
       False sample_config True template_panels = Inr panels'
     \<and> sorted_wrt panels_apart panels' \<and> list_all (\<lambda>p. \<not> has_id multisig_panel_id p) panels'"
proof -
  let ?L = "\<lparr>dl_template = Inr JNull, dl_quote = id, dl_title_case = id, dl_pretty = (\<lambda>_. Inr [])\<rparr>"
  have c: "cf_multisig sample_config = None" by (simp add: sample_config_def)
  obtain panels' where p: "overview_panels ?L False sample_config True template_panels = Inr panels'"
    by (simp add: overview_panels_def c Let_def)
  show ?thesis
    using overview_panels_apart [OF p template_layout] c p by (auto simp: list_all_iff)
qed

end
