(* ===== verification/Alerting.thy ===== *)
theory Alerting
  imports Dashboard
begin

text \<open>
  The generated Grafana provisioning (\<open>alerting.rs\<close>): one rule per alert and channel, the rules
  about the health of the deployment, the contact points and routes of the channels in use, and
  the deletion of what an earlier document had and this one has not. JSON text, the escaping of a
  regular expression and SHA-256 are a library's: fields of \<open>alerting_library\<close>. An environment
  variable is read from \<open>var\<close>. The generated health texts are definitions of their own.
\<close>

section \<open>Channels and errors\<close>

definition channel_rank :: "alert_channel \<Rightarrow> nat" where
  "channel_rank c = (case c of Slack \<Rightarrow> 0 | Telegram \<Rightarrow> 1 | Pagerduty \<Rightarrow> 2)"

lemma channel_rank_inject: "channel_rank a = channel_rank b \<longleftrightarrow> a = b"
  by (cases a; cases b) (simp_all add: channel_rank_def)

instantiation alert_channel :: linorder
begin

definition less_eq_alert_channel :: "alert_channel \<Rightarrow> alert_channel \<Rightarrow> bool" where
  "less_eq_alert_channel a b \<longleftrightarrow> channel_rank a \<le> channel_rank b"

definition less_alert_channel :: "alert_channel \<Rightarrow> alert_channel \<Rightarrow> bool" where
  "less_alert_channel a b \<longleftrightarrow> channel_rank a < channel_rank b"

instance
  by standard (auto simp: less_eq_alert_channel_def less_alert_channel_def channel_rank_inject)

end

definition rpc_health_evaluation_interval_seconds :: u64 where
  "rpc_health_evaluation_interval_seconds = 30"
definition checkpoint_stale_after_seconds :: u64 where "checkpoint_stale_after_seconds = 300"
definition health_log_window_seconds :: u64 where "health_log_window_seconds = 120"
definition stream_interruption_window_seconds :: u64 where "stream_interruption_window_seconds = 900"
definition stream_interruption_threshold :: u64 where "stream_interruption_threshold = 5"
definition yellowstone_gap_window_seconds :: u64 where "yellowstone_gap_window_seconds = 600"
definition yellowstone_probe_window_seconds :: u64 where "yellowstone_probe_window_seconds = 120"

text \<open>The last constructor is the panic of an operator that is rendered separately.\<close>

datatype alerting_error =
    ConditionRejected config_error
  | MultisigSectionMissing string
  | ConditionInvalid string
  | ConditionValueMissing
  | SerializingAlert string
  | CredentialMissing string alert_channel
  | CreatingAlertingDirectory
  | ParsingExisting string
  | ReadingExisting string
  | WritingAlerting string
  | OperatorUnreachable

record alerting_library =
  at_string :: "string \<Rightarrow> string + string"
  at_float :: "float64 \<Rightarrow> string + string"
  at_value :: "alert_value \<Rightarrow> string + string"
  at_conditions :: "alert_condition list \<Rightarrow> string + string"
  at_regex_escape :: "string \<Rightarrow> string"
  at_sha256_hex :: "string \<Rightarrow> string"
  at_parse :: "string \<Rightarrow> string + json"
  at_pretty :: "json \<Rightarrow> string + string"

definition serialized :: "string + 'a \<Rightarrow> alerting_error + 'a" where
  "serialized r = (case r of Inl e \<Rightarrow> Inl (SerializingAlert e) | Inr t \<Rightarrow> Inr t)"

definition configured_channels :: "config \<Rightarrow> alert_channel list" where
  "configured_channels c = oset_of_list (concat (map ar_channels (cf_alert_rules c)))"

definition required_credentials :: "alert_channel \<Rightarrow> string list" where
  "required_credentials channel = (case channel of
     Slack \<Rightarrow> [''SLACK_WEBHOOK_URL'']
   | Telegram \<Rightarrow> [''TELEGRAM_BOT_TOKEN'', ''TELEGRAM_CHAT_ID'']
   | Pagerduty \<Rightarrow> [''PAGERDUTY_INTEGRATION_KEY''])"

definition unset :: "(string \<Rightarrow> string option) \<Rightarrow> string \<Rightarrow> bool" where
  "unset var variable = (case var variable of None \<Rightarrow> True | Some value \<Rightarrow> trim value = [])"

definition validate_contact_point_credentials ::
  "(string \<Rightarrow> string option) \<Rightarrow> alert_channel list \<Rightarrow> alerting_error + unit" where
  "validate_contact_point_credentials var channels =
     (case List.find (\<lambda>(channel, variable). unset var variable)
         (concat (map (\<lambda>channel. map (Pair channel) (required_credentials channel)) channels)) of
        None \<Rightarrow> Inr ()
      | Some (channel, variable) \<Rightarrow> Inl (CredentialMissing variable channel))"

definition log_stream_selector_for :: "string option \<Rightarrow> string" where
  "log_stream_selector_for deployment =
     (let plain = ''{service_name=\"microscope-indexer\"}'' in
      case deployment of
        None \<Rightarrow> plain
      | Some name \<Rightarrow>
          if trim name = [] then plain
          else ''{service_name=\"microscope-indexer\", deployment=\"'' @ trim name @ ''\"}'')"

definition log_stream_selector :: "(string \<Rightarrow> string option) \<Rightarrow> string" where
  "log_stream_selector var = log_stream_selector_for (var ''MICROSCOPE_DEPLOYMENT'')"

definition health_channel_names :: "alert_channel list \<Rightarrow> string list" where
  "health_channel_names channels = (if channels = [] then [''none''] else map alert_channel_str channels)"

definition notification_settings :: "string \<Rightarrow> json option" where
  "notification_settings channel =
     (if channel \<noteq> ''none''
      then Some (json_object [(''receiver'', JString (''microscope-'' @ channel))]) else None)"

section \<open>Rules\<close>

definition loki_query :: "string \<Rightarrow> u64 \<Rightarrow> json" where
  "loki_query query window_seconds =
    json_object
     [(''refId'', JString ''A''),
      (''queryType'', JString ''range''),
      (''relativeTimeRange'', json_object [(''from'', json_u64 window_seconds), (''to'', JNumber 0)]),
      (''datasourceUid'', JString ''loki''),
      (''model'', json_object
       [(''datasource'', json_object [(''type'', JString ''loki''), (''uid'', JString ''loki'')]),
        (''editorMode'', JString ''code''),
        (''expr'', JString query),
        (''intervalMs'', JNumber 1000),
        (''maxDataPoints'', JNumber 43200),
        (''queryType'', JString ''range''),
        (''refId'', JString ''A'')])]"

definition rule_data :: "json \<Rightarrow> string \<Rightarrow> json" where
  "rule_data query condition =
    JArray
     [query,
      json_object
       [(''refId'', JString ''B''),
        (''queryType'', JString []),
        (''relativeTimeRange'', json_object [(''from'', JNumber 0), (''to'', JNumber 0)]),
        (''datasourceUid'', JString ''__expr__''),
        (''model'', json_object
         [(''conditions'', JArray []),
          (''datasource'', json_object
           [(''type'', JString ''__expr__''),
            (''uid'', JString ''__expr__'')]),
          (''expression'', JString ''A''),
          (''reducer'', JString ''last''),
          (''refId'', JString ''B''),
          (''settings'', json_object [(''mode'', JString ''dropNN'')]),
          (''type'', JString ''reduce'')])],
      json_object
       [(''refId'', JString ''C''),
        (''queryType'', JString []),
        (''relativeTimeRange'', json_object [(''from'', JNumber 0), (''to'', JNumber 0)]),
        (''datasourceUid'', JString ''__expr__''),
        (''model'', json_object
         [(''conditions'', JArray []),
          (''datasource'', json_object
           [(''type'', JString ''__expr__''),
            (''uid'', JString ''__expr__'')]),
          (''expression'', JString condition),
          (''refId'', JString ''C''),
          (''type'', JString ''math'')])]]"

definition with_notification :: "string \<Rightarrow> json \<Rightarrow> json" where
  "with_notification channel rule =
     (case notification_settings channel of
        None \<Rightarrow> rule
      | Some settings \<Rightarrow> json_set rule ''notification_settings'' settings)"

definition health_rule ::
  "string \<Rightarrow> string \<Rightarrow> json \<Rightarrow> string \<Rightarrow> u64 \<Rightarrow> string \<Rightarrow> string \<Rightarrow> string \<Rightarrow> string \<Rightarrow> string \<Rightarrow> json"
where
  "health_rule uid title query condition pending_seconds no_data_state severity signal_name channel description =
     with_notification channel
       (json_object
         [(''uid'', JString uid),
          (''title'', JString title),
          (''condition'', JString ''C''),
          (''data'', rule_data query condition),
          (''noDataState'', JString no_data_state),
          (''execErrState'', JString ''Error''),
          (''for'', JString (show_u64 pending_seconds @ ''s'')),
          (''annotations'', json_object
           [(''description'', JString description),
            (''summary'', JString title)]),
          (''labels'', json_object
           [(''channel'', JString channel),
            (''severity'', JString severity),
            (''signal_kind'', JString ''datasource''),
            (''signal_name'', JString signal_name)]),
          (''isPaused'', JBool False)])"

definition prometheus_health_rule ::
  "string \<Rightarrow> string \<Rightarrow> string \<Rightarrow> string \<Rightarrow> string \<Rightarrow> string \<Rightarrow> string \<Rightarrow> string \<Rightarrow> string \<Rightarrow> u64 \<Rightarrow> json"
where
  "prometheus_health_rule uid title query condition no_data_state severity signal_name channel description pending_seconds =
     health_rule uid title
       (json_object
         [(''refId'', JString ''A''),
          (''queryType'', JString []),
          (''relativeTimeRange'', json_object [(''from'', JNumber 600), (''to'', JNumber 0)]),
          (''datasourceUid'', JString ''prometheus''),
          (''model'', json_object
           [(''datasource'', json_object
             [(''type'', JString ''prometheus''),
              (''uid'', JString ''prometheus'')]),
            (''editorMode'', JString ''code''),
            (''expr'', JString query),
            (''instant'', JBool True),
            (''intervalMs'', JNumber 15000),
            (''legendFormat'', JString ''__auto''),
            (''maxDataPoints'', JNumber 43200),
            (''range'', JBool False),
            (''refId'', JString ''A'')])])
       condition pending_seconds no_data_state severity signal_name channel description"

definition loki_health_rule ::
  "string \<Rightarrow> string \<Rightarrow> string \<Rightarrow> u64 \<Rightarrow> string \<Rightarrow> string \<Rightarrow> string \<Rightarrow> string \<Rightarrow> string \<Rightarrow> u64 \<Rightarrow> json"
where
  "loki_health_rule uid title query window_seconds condition severity signal_name channel description pending_seconds =
     health_rule uid title (loki_query query window_seconds) condition
       (min pending_seconds (window_seconds div 2)) ''OK'' severity signal_name channel description"

section \<open>The health of the deployment\<close>

definition about_rpc_recovery_disabled :: "string" where
  "about_rpc_recovery_disabled =
     ''RPC recovery disabled itself and stays off until the indexer restarts; the reason label '' @
     ''on microscope_rpc_recovery_degraded says whether the cause was a checkpoint failure, '' @
     ''exhausted provider history, or a cursor past the confirmed head. In Yellowstone mode '' @
     ''the stack continues but gaps are no longer recovered; in RPC mode nothing is indexed at '' @
     ''all.''"

definition about_rpc_checkpoint_corrupt :: "string" where
  "about_rpc_checkpoint_corrupt =
     ''A corrupt RPC checkpoint was moved aside. Recovery restarted from the configured replay '' @
     ''window; backfill may be required for older activity. This resolves once the quarantined '' @
     ''rpc-polling.json.corrupt-* file is deleted.''"

definition about_datasource_updates_dropped :: "string" where
  "about_datasource_updates_dropped =
     ''The Yellowstone datasource discarded a monitored update because the channel it forwards '' @
     ''into was full; the signature is in the log line. With RPC_URL configured the poller '' @
     ''re-delivers it within the replay window, so confirm the transaction was indexed rather '' @
     ''than treating it as lost. Without RPC_URL the transaction is lost and that slot needs a '' @
     ''backfill.''"

definition about_yellowstone_stream_interrupted :: "string" where
  "about_yellowstone_stream_interrupted =
     ''The Yellowstone stream closed, timed out, or could not resubscribe more than five times '' @
     ''in fifteen minutes. No on-chain activity is observed while this fires, and the indexer '' @
     ''resumes at the stream head, so the interrupted interval is lost unless RPC_URL is '' @
     ''configured.''"

definition about_yellowstone_gap_unrecovered :: "string" where
  "about_yellowstone_gap_unrecovered =
     ''The Yellowstone stream reconnected at the provider's current head after a disconnect '' @
     ''while RPC recovery is not replaying the gap, either because RPC_URL is unset or because '' @
     ''recovery disabled itself (see the RPC recovery disabled alert). The transactions in the '' @
     ''gap will never be indexed. microscope_yellowstone_missed_slots_total gives the size of '' @
     ''the gap; backfill this interval.''"

definition about_yellowstone_endpoint_unreachable :: "string" where
  "about_yellowstone_endpoint_unreachable =
     ''Every probe of the Yellowstone endpoint failed, so the datasource cannot establish a '' @
     ''stream. The disconnect and missed-slot counters stay flat throughout, because they only '' @
     ''move once an established stream goes silent, so this is the only metric that shows a '' @
     ''provider refusing connections. No data also alerts here: the probe gauge is seeded at '' @
     ''startup, so its absence means the indexer is gone.''"

definition about_log_delivery_stalled :: "string" where
  "about_log_delivery_stalled =
     ''The indexer decoded transactions but Alloy shipped no log entries. Decoded records are '' @
     ''not reaching Loki, so every activity alert evaluates against an empty stream and stays '' @
     ''silent.''"

definition about_multisig_unmatched_state :: "string" where
  "about_multisig_unmatched_state =
     ''Squads instructions decoded but referenced a different internal state account than the '' @
     ''configured one, so no multisig activity was recorded for the configured vault. The '' @
     ''multisig.state_address or multisig.version is wrong for this vault. Without this alert '' @
     ''a misconfigured vault is indistinguishable from an idle one: both leave the multisig '' @
     ''panels empty.''"

definition about_rpc_poll_stale :: "u64 \<Rightarrow> string" where
  "about_rpc_poll_stale stale_after =
     ''No RPC poll has completed successfully within '' @ show_u64 stale_after @ '' seconds.''"

definition about_rpc_poll_lag :: "u64 \<Rightarrow> string" where
  "about_rpc_poll_lag lag_threshold_slots =
     ''RPC polling cursors trail the confirmed head by more than '' @ show_u64 lag_threshold_slots @ '' slots (twice the replay window). Polls are succeeding but transactions are not being '' @
     ''decoded; check for unfetchable transactions or provider history gaps.''"

definition about_rpc_poll_failing :: "u64 \<Rightarrow> u64 \<Rightarrow> string" where
  "about_rpc_poll_failing threshold sustained_failure_seconds =
     ''At least '' @ show_u64 threshold @ '' RPC polls failed in the last '' @ show_u64 rpc_poll_failure_window_seconds @ '' seconds, the count an unbroken outage produces in '' @ show_u64 sustained_failure_seconds @ '' seconds. Enough polls are still succeeding to keep the freshness and lag rules green, '' @
     ''so gap recovery is partially dead rather than stopped; read the poll failure logs for '' @
     ''the RPC error.''"

definition about_rpc_checkpoint_stale :: "string" where
  "about_rpc_checkpoint_stale =
     ''No RPC recovery checkpoint has been written within '' @ show_u64 checkpoint_stale_after_seconds @ '' seconds. Polling continues, but a restart would resume from a stale cursor and '' @
     ''re-fetch or miss the uncheckpointed window.''"

definition about_rpc_transaction_quarantined :: "string" where
  "about_rpc_transaction_quarantined =
     ''RPC transactions were skipped after bounded fetch or conversion failures.''"

definition rpc_recovery_degraded_rules :: "alert_channel list \<Rightarrow> u64 \<Rightarrow> json list" where
  "rpc_recovery_degraded_rules channels pending_seconds =
     concat (map (\<lambda>channel.
      [prometheus_health_rule (''ms-rpc-recovery-degraded-'' @ channel) (''RPC recovery disabled ['' @ channel @ '']'')
         ''max(microscope_rpc_recovery_degraded)''
         ''$B > 0'' ''OK'' ''critical'' ''rpc_recovery_disabled'' channel about_rpc_recovery_disabled pending_seconds,
       prometheus_health_rule (''ms-rpc-checkpoint-corrupt-'' @ channel) (''RPC checkpoint recovered from corruption ['' @ channel @ '']'')
         ''microscope_rpc_checkpoint_quarantined_files''
         ''$B > 0'' ''OK'' ''critical'' ''rpc_checkpoint_corrupt'' channel about_rpc_checkpoint_corrupt pending_seconds])
       (health_channel_names channels))"

definition datasource_drop_rules ::
  "(string \<Rightarrow> string option) \<Rightarrow> alert_channel list \<Rightarrow> u64 \<Rightarrow> json list" where
  "datasource_drop_rules var channels pending_seconds =
     concat (map (\<lambda>channel.
      [loki_health_rule (''ms-datasource-drop-'' @ channel) (''Datasource updates dropped ['' @ channel @ '']'')
         (''(sum(count_over_time('' @ log_stream_selector var @ '' |~ \"Failed to send (account|transaction)\" ['' @ show_u64 health_log_window_seconds @ ''s])) or on() vector(0))'')
         health_log_window_seconds ''$B > 0'' ''critical'' ''datasource_updates_dropped'' channel about_datasource_updates_dropped pending_seconds])
       (health_channel_names channels))"

definition yellowstone_health_rules ::
  "(string \<Rightarrow> string option) \<Rightarrow> alert_channel list \<Rightarrow> u64 \<Rightarrow> json list" where
  "yellowstone_health_rules var channels pending_seconds =
     concat (map (\<lambda>channel.
      [loki_health_rule (''ms-yellowstone-stream-'' @ channel) (''Yellowstone stream interrupted ['' @ channel @ '']'')
         (''(sum(count_over_time('' @ log_stream_selector var @ '' |~ \"Stream timeout - no messages|Failed to subscribe|Geyser stream error|Stream '' @
           ''closed\" ['' @ show_u64 stream_interruption_window_seconds @ ''s])) or on() vector(0))'')
         stream_interruption_window_seconds (''$B > '' @ show_u64 stream_interruption_threshold) ''error'' ''yellowstone_stream_interrupted'' channel about_yellowstone_stream_interrupted pending_seconds,
       prometheus_health_rule (''ms-yellowstone-gap-'' @ channel) (''Yellowstone gap unrecovered ['' @ channel @ '']'')
         (''max(increase(microscope_yellowstone_disconnects_total['' @ show_u64 yellowstone_gap_window_seconds @ ''s]) and on() microscope_rpc_recovery_enabled == 0)'')
         ''$B > 0'' ''OK'' ''error'' ''yellowstone_gap_unrecovered'' channel about_yellowstone_gap_unrecovered pending_seconds,
       prometheus_health_rule (''ms-yellowstone-unreachable-'' @ channel) (''Yellowstone endpoint unreachable ['' @ channel @ '']'')
         (''max(max_over_time(microscope_yellowstone_probe_healthy['' @ show_u64 yellowstone_probe_window_seconds @ ''s]))'')
         ''$B < 1'' ''Alerting'' ''error'' ''yellowstone_endpoint_unreachable'' channel about_yellowstone_endpoint_unreachable pending_seconds])
       (health_channel_names channels))"

definition log_delivery_rules :: "alert_channel list \<Rightarrow> u64 \<Rightarrow> json list" where
  "log_delivery_rules channels pending_seconds =
     concat (map (\<lambda>channel.
      [prometheus_health_rule (''ms-log-delivery-stalled-'' @ channel) (''Log delivery stalled ['' @ channel @ '']'')
         (''sum(increase(microscope_transactions_total[10m])) > 0 unless '' @
           ''sum(increase(loki_write_sent_entries_total[10m])) > 0'')
         ''$B > 0'' ''OK'' ''error'' ''log_delivery_stalled'' channel about_log_delivery_stalled pending_seconds])
       (health_channel_names channels))"

definition multisig_health_rules :: "alert_channel list \<Rightarrow> u64 \<Rightarrow> u64 \<Rightarrow> json list" where
  "multisig_health_rules channels window_seconds pending_seconds =
     concat (map (\<lambda>channel.
      [prometheus_health_rule (''ms-multisig-unmatched-'' @ channel) (''Squads activity for another multisig ['' @ channel @ '']'')
         (''max(increase(microscope_multisig_unmatched_state_total['' @ show_u64 window_seconds @ ''s]))'')
         ''$B > 0'' ''OK'' ''error'' ''multisig_unmatched_state'' channel about_multisig_unmatched_state pending_seconds])
       (health_channel_names channels))"

definition div_ceil :: "u64 \<Rightarrow> u64 \<Rightarrow> u64" where
  "div_ceil a b = (if a mod b = 0 then a div b else a div b + 1)"

definition failure_threshold :: "config \<Rightarrow> u64" where
  "failure_threshold c =
     max (div_ceil (al_rpc_poll_sustained_failure (cf_alerting c)) (max (dc_poll_interval (cf_datasource c)) 1)) 1"

definition rpc_health_rules :: "config \<Rightarrow> alert_channel list \<Rightarrow> u64 \<Rightarrow> json list" where
  "rpc_health_rules c channels pending_seconds =
     (let stale_after = rpc_poll_stale_after_seconds (cf_datasource c);
          lag_threshold_slots = sat_mul (dc_replay_window (cf_datasource c)) 2;
          sustained_failure_seconds = al_rpc_poll_sustained_failure (cf_alerting c);
          threshold = failure_threshold c
      in concat (map (\<lambda>channel.
      [prometheus_health_rule (''ms-rpc-poll-stale-'' @ channel) (''RPC polling stale ['' @ channel @ '']'')
         (''time() - (microscope_rpc_poll_last_success_unixtime or '' @
           ''microscope_rpc_poll_started_unixtime)'')
         (''$B > '' @ show_u64 stale_after) ''Alerting'' ''error'' ''rpc_poll_stale'' channel (about_rpc_poll_stale stale_after) pending_seconds,
       prometheus_health_rule (''ms-rpc-poll-lag-'' @ channel) (''RPC polling lagging ['' @ channel @ '']'')
         ''microscope_rpc_poll_lag_slots''
         (''$B > '' @ show_u64 lag_threshold_slots) ''OK'' ''warning'' ''rpc_poll_lag'' channel (about_rpc_poll_lag lag_threshold_slots) pending_seconds,
       prometheus_health_rule (''ms-rpc-poll-failing-'' @ channel) (''RPC polling failing ['' @ channel @ '']'')
         (''increase(microscope_rpc_poll_failures_total['' @ show_u64 rpc_poll_failure_window_seconds @ ''s])'')
         (''$B >= '' @ show_u64 threshold) ''OK'' ''warning'' ''rpc_poll_failing'' channel (about_rpc_poll_failing threshold sustained_failure_seconds) pending_seconds,
       prometheus_health_rule (''ms-rpc-checkpoint-stale-'' @ channel) (''RPC checkpoint stale ['' @ channel @ '']'')
         (''time() - (microscope_rpc_checkpoint_last_success_unixtime or '' @
           ''microscope_rpc_poll_started_unixtime)'')
         (''$B > '' @ show_u64 checkpoint_stale_after_seconds) ''Alerting'' ''error'' ''rpc_checkpoint_stale'' channel about_rpc_checkpoint_stale pending_seconds,
       prometheus_health_rule (''ms-rpc-quarantine-'' @ channel) (''RPC transactions quarantined ['' @ channel @ '']'')
         ''microscope_rpc_poll_quarantined_transactions''
         ''$B > 0'' ''OK'' ''error'' ''rpc_transaction_quarantined'' channel about_rpc_transaction_quarantined pending_seconds])
       (health_channel_names channels)))"

section \<open>Alert rules\<close>

definition logql_operator :: "alert_operator \<Rightarrow> alerting_error + string" where
  "logql_operator oper = (case oper of
     OpEq \<Rightarrow> Inr ''='' | OpNe \<Rightarrow> Inr ''!='' | OpGt \<Rightarrow> Inr ''>'' | OpGte \<Rightarrow> Inr ''>=''
   | OpLt \<Rightarrow> Inr ''<'' | OpLte \<Rightarrow> Inr ''<='' | Exists \<Rightarrow> Inl OperatorUnreachable
   | Contains \<Rightarrow> Inl OperatorUnreachable)"

definition logql_value :: "alerting_library \<Rightarrow> alert_value \<Rightarrow> alerting_error + string" where
  "logql_value A v = (case v of
     AlertInteger i \<Rightarrow> Inr (show_int (sint i))
   | AlertFloat f \<Rightarrow> serialized (at_float A f)
   | AlertBoolean b \<Rightarrow> serialized (at_string A (if b then ''true'' else ''false''))
   | AlertString s \<Rightarrow> serialized (at_string A s))"

definition is_text_or_boolean :: "alert_value \<Rightarrow> bool" where
  "is_text_or_boolean v = (case v of AlertString _ \<Rightarrow> True | AlertBoolean _ \<Rightarrow> True | _ \<Rightarrow> False)"

definition condition_filter ::
  "alerting_library \<Rightarrow> alert_condition \<Rightarrow> string \<Rightarrow> alerting_error + string" where
  "condition_filter A k label =
     (case (ac_operator k, ac_value k) of
        (Exists, None) \<Rightarrow> Inr (label @ '' != \"\"'')
      | (Contains, Some (AlertString v)) \<Rightarrow>
          bind_r (serialized (at_string A (''.*'' @ at_regex_escape A v @ ''.*'')))
            (\<lambda>pattern. Inr (label @ '' =~ '' @ pattern))
      | (oper, Some v) \<Rightarrow>
          if oper = OpNe \<and> is_text_or_boolean v
          then bind_r (logql_value A v) (\<lambda>t. Inr (label @ '' != \"\" and '' @ label @ '' != '' @ t))
          else bind_r (logql_operator oper) (\<lambda>o'.
               bind_r (logql_value A v) (\<lambda>t. Inr (label @ '' '' @ o' @ '' '' @ t)))
      | _ \<Rightarrow> Inl (ConditionInvalid (ac_field k)))"

definition condition_label :: "nat \<Rightarrow> string" where
  "condition_label i = ''condition_'' @ show_nat i"

definition validated :: "config_error + 'a \<Rightarrow> alerting_error + 'a" where
  "validated r = (case r of Inl e \<Rightarrow> Inl (ConditionRejected e) | Inr x \<Rightarrow> Inr x)"

text \<open>One query of the signatures that match all of the given conditions.\<close>

definition count_query ::
  "alerting_library \<Rightarrow> string \<Rightarrow> string \<Rightarrow> u64 \<Rightarrow> (nat \<times> alert_condition) list \<Rightarrow> alerting_error + string" where
  "count_query A parser filters lookback conditions =
     bind_r (traverse_r (\<lambda>(i, k).
         bind_r (validated (validate_condition k)) (\<lambda>_. condition_filter A k (condition_label i)))
       conditions) (\<lambda>condition_filters.
     let parser' = parser @ concat (map (\<lambda>(i, k).
             '', '' @ condition_label i @ ''=\"'' @ ac_field k @ ''\"'') conditions);
         filters' = (if condition_filters = [] then filters
             else filters @ '' | ('' @ join_with '' and '' condition_filters @ '')'')
     in Inr (''sum by (signature) (count_over_time({service_name=\"microscope-indexer\"} '' @ parser'
          @ '' '' @ filters' @ '' | __error__ = \"\" ['' @ show_u64 lookback @ ''s]))''))"

definition alert_scope ::
  "config \<Rightarrow> alert_rule \<Rightarrow> alerting_error + string \<times> string \<times> string \<times> string" where
  "alert_scope c alert = (case ar_kind alert of
     EventAlert \<Rightarrow> Inr (''program_event'', ''name'', ''program_id'', cf_program_id c)
   | InstructionAlert \<Rightarrow> Inr (''program_instruction'', ''name'', ''program_id'', cf_program_id c)
   | MultisigAlert \<Rightarrow>
       (case cf_multisig c of
          None \<Rightarrow> Inl (MultisigSectionMissing (ar_name alert))
        | Some m \<Rightarrow> Inr (''multisig_activity'', ''action'', ''vault_address'', mc_vault_address m)))"

definition logql_query :: "alerting_library \<Rightarrow> config \<Rightarrow> alert_rule \<Rightarrow> alerting_error + string" where
  "logql_query A c alert =
     bind_r (alert_scope c alert) (\<lambda>(record_kind, signal_path, scope_path, scope_value).
     bind_r (serialized (at_string A (ar_name alert))) (\<lambda>quoted_name.
     bind_r (serialized (at_string A scope_value)) (\<lambda>quoted_scope.
     let of_multisig = (ar_kind alert = MultisigAlert);
         parser = ''| json kind=\"kind\", signal=\"'' @ signal_path @ ''\", scope=\"'' @ scope_path
           @ ''\", signature=\"signature\"'' @ (if of_multisig then '', failed=\"failed\"'' else []);
         filters = ''| kind = \"'' @ record_kind @ ''\" | signal = '' @ quoted_name @ '' | scope = ''
           @ quoted_scope @ (if of_multisig then '' | failed = \"false\"'' else []);
         lookback = lookback_of alert (cf_alerting c);
         indexed_conditions = enumerate (ar_conditions alert)
     in bind_r
          (if ar_match_mode alert = MatchAny \<and> 1 < length indexed_conditions
           then bind_r (traverse_r (\<lambda>k. count_query A parser filters lookback [k]) indexed_conditions)
                  (\<lambda>queries. Inr (join_with '' or '' queries))
           else count_query A parser filters lookback indexed_conditions)
          (\<lambda>matched. Inr (''('' @ matched @ '' or on() vector(0))'')))))"

definition condition_description :: "alerting_library \<Rightarrow> alert_condition \<Rightarrow> alerting_error + string" where
  "condition_description A k =
     (if ac_operator k = Exists then Inr (ac_field k @ '' is present and non-empty'')
      else case ac_value k of
        None \<Rightarrow> Inl ConditionValueMissing
      | Some v \<Rightarrow> bind_r (serialized (at_value A v)) (\<lambda>t.
          Inr (ac_field k @ '' '' @ alert_operator_str (ac_operator k) @ '' '' @ t)))"

definition rule_description :: "alerting_library \<Rightarrow> alert_rule \<Rightarrow> alerting_error + string" where
  "rule_description A alert =
     (let matched = ''Matched '' @ alert_kind_str (ar_kind alert) @ '' '' @ ar_name alert in
      if ar_conditions alert = [] then Inr matched
      else bind_r (traverse_r (condition_description A) (ar_conditions alert)) (\<lambda>conditions.
        Inr (matched @ '' where ''
          @ join_with ('' '' @ alert_match_str (ar_match_mode alert) @ '' '') conditions)))"

definition log_panel_id :: "alert_kind \<Rightarrow> u64 option" where
  "log_panel_id kind = (case kind of
     EventAlert \<Rightarrow> Some event_panel_id | MultisigAlert \<Rightarrow> Some multisig_panel_id | InstructionAlert \<Rightarrow> None)"

text \<open>The text a rule is identified by, and its identifier of 35 characters.\<close>

definition canonical_text :: "config \<Rightarrow> alert_rule \<Rightarrow> string \<Rightarrow> string \<Rightarrow> string" where
  "canonical_text c alert conditions channel =
     join_with [CHR 0x00]
       [cf_program_id c, alert_kind_str (ar_kind alert), ar_name alert,
        alert_match_str (ar_match_mode alert), conditions, alert_severity_str (ar_severity alert), channel]"

definition rule_uid :: "alerting_library \<Rightarrow> config \<Rightarrow> alert_rule \<Rightarrow> string \<Rightarrow> string \<Rightarrow> string" where
  "rule_uid A c alert conditions channel =
     ''ms-'' @ take 32 (at_sha256_hex A (canonical_text c alert conditions channel))"

definition rule_annotations :: "config \<Rightarrow> alert_rule \<Rightarrow> string \<Rightarrow> json" where
  "rule_annotations c alert description =
     (let transaction_url = str_replace ''{signature}'' ''{{ $labels.signature }}''
            (al_explorer_transaction_url (cf_alerting c));
          annotations =
       json_object
         [(''description'', JString description),
          (''summary'', JString (''Microscope matched '' @ alert_kind_str (ar_kind alert) @ '' '' @ ar_name alert)),
          (''transaction'', JString (''{{ $labels.signature }} '' @ transaction_url))]
      in case log_panel_id (ar_kind alert) of
           None \<Rightarrow> annotations
         | Some panel_id \<Rightarrow>
             json_set (json_set annotations ''__dashboardUid__'' (JString overview_uid))
               ''__panelId__'' (JString (show_u64 panel_id)))"

definition rule_document ::
  "config \<Rightarrow> alert_rule \<Rightarrow> string \<Rightarrow> string \<Rightarrow> string \<Rightarrow> string \<Rightarrow> json" where
  "rule_document c alert channel uid query description =
     (let title = alert_kind_str (ar_kind alert) @ '' '' @ ar_name alert @ '' ['' @ channel @ '']'';
          lookback = lookback_of alert (cf_alerting c);
          annotations = rule_annotations c alert description
      in with_notification channel
       (json_object
         [(''uid'', JString uid),
          (''title'', JString title),
          (''condition'', JString ''C''),
          (''data'', rule_data (loki_query query lookback) ''$B > 0''),
          (''noDataState'', JString ''OK''),
          (''execErrState'', JString ''OK''),
          (''for'', JString ''0s''),
          (''annotations'', annotations),
          (''labels'', json_object
           [(''channel'', JString channel),
            (''program_id'', JString (cf_program_id c)),
            (''severity'', JString (alert_severity_str (ar_severity alert))),
            (''signal_kind'', JString (alert_kind_str (ar_kind alert))),
            (''signal_name'', JString (ar_name alert))]),
          (''isPaused'', JBool False)]))"

definition channel_name :: "alert_channel option \<Rightarrow> string" where
  "channel_name channel = (case channel of None \<Rightarrow> ''none'' | Some ch \<Rightarrow> alert_channel_str ch)"

definition grafana_rule ::
  "alerting_library \<Rightarrow> config \<Rightarrow> alert_rule \<Rightarrow> alert_channel option \<Rightarrow> alerting_error + json" where
  "grafana_rule A c alert channel =
     bind_r (logql_query A c alert) (\<lambda>query.
     bind_r (serialized (at_conditions A (ar_conditions alert))) (\<lambda>conditions.
     bind_r (rule_description A alert) (\<lambda>description.
     Inr (rule_document c alert (channel_name channel)
       (rule_uid A c alert conditions (channel_name channel)) query description))))"

section \<open>The document\<close>

definition contact_point_settings :: "alert_channel \<Rightarrow> json" where
  "contact_point_settings channel = (case channel of
     Slack \<Rightarrow> json_object [(''url'', JString ''$SLACK_WEBHOOK_URL'')]
   | Telegram \<Rightarrow> json_object
         [(''bottoken'', JString ''$TELEGRAM_BOT_TOKEN''),
          (''chatid'', JString ''$TELEGRAM_CHAT_ID'')]
   | Pagerduty \<Rightarrow> json_object
         [(''integrationKey'', JString ''$PAGERDUTY_INTEGRATION_KEY''),
          (''severity'', JString ''{{ .CommonLabels.severity }}'')])"

definition contact_point :: "alert_channel \<Rightarrow> json" where
  "contact_point channel =
     (let settings = contact_point_settings channel in
       json_object
         [(''orgId'', JNumber 1),
          (''name'', JString (''microscope-'' @ alert_channel_str channel)),
          (''receivers'', JArray
           [json_object
             [(''uid'', JString (''microscope-'' @ alert_channel_str channel)),
              (''type'', JString (alert_channel_str channel)),
              (''settings'', settings),
              (''disableResolveMessage'', JBool False)]])])"

definition noop_contact_point :: json where
  "noop_contact_point =
       json_object
         [(''orgId'', JNumber 1),
          (''name'', JString ''microscope-noop''),
          (''receivers'', JArray
           [json_object
             [(''uid'', JString ''microscope-noop''),
              (''type'', JString ''webhook''),
              (''settings'', json_object [(''url'', JString ''http://127.0.0.1:9'')]),
              (''disableResolveMessage'', JBool True)]])]"

definition muted_route :: json where
  "muted_route =
       json_object
         [(''receiver'', JString ''microscope-noop''),
          (''object_matchers'', JArray [JArray [JString ''channel'', JString ''='', JString ''none'']]),
          (''mute_time_intervals'', JArray [JString ''microscope-always'']),
          (''continue'', JBool False)]"

definition channel_route :: "alert_channel \<Rightarrow> json" where
  "channel_route channel =
       json_object
         [(''receiver'', JString (''microscope-'' @ alert_channel_str channel)),
          (''object_matchers'', JArray [JArray [JString ''channel'', JString ''='', JString (alert_channel_str channel)]]),
          (''continue'', JBool False)]"

definition health_rules ::
  "(string \<Rightarrow> string option) \<Rightarrow> config \<Rightarrow> alert_channel list \<Rightarrow> bool \<Rightarrow> json list" where
  "health_rules var c channels rpc_polling =
     (let pending_seconds = al_health_pending_period (cf_alerting c)
      in rpc_recovery_degraded_rules channels pending_seconds
         @ datasource_drop_rules var channels pending_seconds
         @ (if dc_mode (cf_datasource c) = YellowstoneMode
            then yellowstone_health_rules var channels pending_seconds else [])
         @ log_delivery_rules channels pending_seconds
         @ (if cf_multisig c \<noteq> None
            then multisig_health_rules channels (al_multisig_unmatched_window (cf_alerting c)) pending_seconds
            else [])
         @ (if rpc_polling then rpc_health_rules c channels pending_seconds else []))"

definition alert_rules_of :: "alerting_library \<Rightarrow> config \<Rightarrow> alert_rule \<Rightarrow> alerting_error + json list" where
  "alert_rules_of A c alert =
     traverse_r (grafana_rule A c alert)
       (if ar_channels alert = [] then [None] else map Some (ar_channels alert))"

definition group_rules :: "(u64, json list) omap \<Rightarrow> u64 \<Rightarrow> json list" where
  "group_rules m interval = (case om_get m interval of None \<Rightarrow> [] | Some rules \<Rightarrow> rules)"

fun add_alert_rules ::
  "alerting_library \<Rightarrow> config \<Rightarrow> alert_rule list \<Rightarrow> (u64, json list) omap
   \<Rightarrow> alerting_error + (u64, json list) omap"
where
  "add_alert_rules A c [] m = Inr m"
| "add_alert_rules A c (alert # alerts) m =
     bind_r (alert_rules_of A c alert) (\<lambda>rules.
       let interval = evaluation_of alert (cf_alerting c)
       in add_alert_rules A c alerts (om_insert interval (group_rules m interval @ rules) m))"

definition rule_group :: "u64 \<times> json list \<Rightarrow> json" where
  "rule_group g = (case g of (interval, rules) \<Rightarrow>
       json_object
         [(''orgId'', JNumber 1),
          (''name'', JString (''microscope-'' @ show_u64 interval @ ''s'')),
          (''folder'', JString ''Microscope''),
          (''interval'', JString (show_u64 interval @ ''s'')),
          (''rules'', JArray rules)])"

definition document_of :: "alert_channel list \<Rightarrow> (u64, json list) omap \<Rightarrow> json" where
  "document_of channels rules_by_interval =
     (let groups = map rule_group rules_by_interval;
          contact_points = noop_contact_point # map contact_point channels;
          routes = muted_route # map channel_route channels
      in
       json_object
         [(''apiVersion'', JNumber 1),
          (''groups'', JArray groups),
          (''contactPoints'', JArray contact_points),
          (''muteTimes'', JArray
           [json_object
             [(''orgId'', JNumber 1),
              (''name'', JString ''microscope-always''),
              (''time_intervals'', JArray
               [json_object
                 [(''location'', JString ''UTC''),
                  (''times'', JArray
                   [json_object
                     [(''start_time'', JString ''00:00''),
                      (''end_time'', JString ''24:00'')]])]])]]),
          (''policies'', JArray
           [json_object
             [(''orgId'', JNumber 1),
              (''receiver'', JString ''microscope-noop''),
              (''group_by'', JArray [JString ''alertname'', JString ''channel'']),
              (''group_wait'', JString ''5s''),
              (''group_interval'', JString ''1m''),
              (''repeat_interval'', JString ''4h''),
              (''routes'', JArray routes)]])])"

definition provisioning_document ::
  "alerting_library \<Rightarrow> (string \<Rightarrow> string option) \<Rightarrow> config \<Rightarrow> alert_channel list \<Rightarrow> bool
   \<Rightarrow> alerting_error + json"
where
  "provisioning_document A var c channels rpc_polling =
     bind_r (add_alert_rules A c (cf_alert_rules c)
         [(rpc_health_evaluation_interval_seconds, health_rules var c channels rpc_polling)])
       (\<lambda>m. Inr (document_of channels m))"

section \<open>Deletions and the written file\<close>

definition uids :: "json list \<Rightarrow> string list" where
  "uids js = List.map_filter (\<lambda>j. json_as_str (json_index j ''uid'')) js"

definition rule_uids :: "json \<Rightarrow> string list" where
  "rule_uids document =
     oset_of_list (uids (concat (map (\<lambda>group. json_elements (json_index group ''rules''))
       (json_elements (json_index document ''groups'')))))"

definition deletion_uids :: "json \<Rightarrow> string \<Rightarrow> string list" where
  "deletion_uids document k = oset_of_list (uids (json_elements (json_index document k)))"

definition contact_point_uids :: "json \<Rightarrow> string list" where
  "contact_point_uids document =
     oset_of_list (uids (concat (map (\<lambda>p. json_elements (json_index p ''receivers''))
       (json_elements (json_index document ''contactPoints'')))))"

definition deletion :: "string \<Rightarrow> json" where
  "deletion uid = json_object [(''orgId'', JNumber 1), (''uid'', JString uid)]"

definition set_deletions :: "string \<Rightarrow> string \<Rightarrow> string list \<Rightarrow> string list \<Rightarrow> json \<Rightarrow> json" where
  "set_deletions k prefix desired earlier document =
     (let deleted = filter (\<lambda>uid. uid \<notin> set desired \<and> starts_with prefix uid) (oset_of_list earlier)
      in if deleted = [] then document else json_set document k (JArray (map deletion deleted)))"

definition add_resource_deletions :: "json \<Rightarrow> json \<Rightarrow> json" where
  "add_resource_deletions document previous =
     (let document' = set_deletions ''deleteRules'' ''ms-'' (rule_uids document)
            (rule_uids previous @ deletion_uids previous ''deleteRules'') document
      in set_deletions ''deleteContactPoints'' ''microscope-'' (contact_point_uids document')
           (contact_point_uids previous @ deletion_uids previous ''deleteContactPoints'') document')"

record generate_faults = write_faults +
  gf_read :: bool

definition alerting_file :: string where "alerting_file = ''microscope.json''"

definition read_existing_document ::
  "alerting_library \<Rightarrow> generate_faults \<Rightarrow> directory \<Rightarrow> alerting_error + json option" where
  "read_existing_document A f d =
     (if gf_read f then Inl (ReadingExisting alerting_file)
      else case om_get d alerting_file of
        None \<Rightarrow> Inr None
      | Some raw \<Rightarrow>
          (case at_parse A raw of Inl e \<Rightarrow> Inl (ParsingExisting e) | Inr j \<Rightarrow> Inr (Some j)))"

definition new_document ::
  "alerting_library \<Rightarrow> (string \<Rightarrow> string option) \<Rightarrow> config \<Rightarrow> json option \<Rightarrow> alerting_error + json" where
  "new_document A var c previous =
     bind_r (provisioning_document A var c (configured_channels c) (polls_rpc (cf_datasource c) var))
       (\<lambda>document. Inr (case previous of None \<Rightarrow> document | Some p \<Rightarrow> add_resource_deletions document p))"

definition prepare_document ::
  "alerting_library \<Rightarrow> (string \<Rightarrow> string option) \<Rightarrow> generate_faults \<Rightarrow> config \<Rightarrow> directory
   \<Rightarrow> alerting_error + json"
where
  "prepare_document A var f c d =
     bind_r (validate_contact_point_credentials var (configured_channels c)) (\<lambda>_.
     bind_r (ensure (\<not> fail_directory f) CreatingAlertingDirectory) (\<lambda>_.
     bind_r (read_existing_document A f d) (\<lambda>previous.
     new_document A var c previous)))"

definition generate_alerting ::
  "alerting_library \<Rightarrow> (string \<Rightarrow> string option) \<Rightarrow> generate_faults \<Rightarrow> config \<Rightarrow> directory
   \<Rightarrow> directory \<times> (alerting_error + string)"
where
  "generate_alerting A var f c d =
     (case bind_r (prepare_document A var f c d) (\<lambda>document. serialized (at_pretty A document)) of
        Inl e \<Rightarrow> (d, Inl e)
      | Inr contents \<Rightarrow>
          (case replace (write_faults.truncate f) alerting_file contents ''alerting config'' d of
             (d', Inl e) \<Rightarrow> (d', Inl (WritingAlerting e))
           | (d', Inr _) \<Rightarrow> (d', Inr alerting_file)))"

end
