(* ===== verification/Alerting_Safety.thy ===== *)
theory Alerting_Safety
  imports Alerting Config_Safety
begin

text \<open>
  What the generated provisioning guarantees: a loaded configuration is always rendered, each rule
  is routed to a contact point of the document, and what an earlier document provisioned is kept,
  or deleted, for good.
\<close>

section \<open>Objects\<close>

lemma serialized_Inr [result_iff]: "serialized r = Inr t \<longleftrightarrow> r = Inr t"
  by (cases r) (simp_all add: serialized_def)

section \<open>The parts of a document\<close>

definition document_rules :: "json \<Rightarrow> json list" where
  "document_rules document =
     concat (map (\<lambda>group. json_elements (json_index group ''rules''))
       (json_elements (json_index document ''groups'')))"

lemma rule_uids_rules: "set (rule_uids document) = set (uids (document_rules document))"
  by (simp add: rule_uids_def document_rules_def)

lemma is_object_document [simp]: "is_object (document_of channels m)"
  by (simp add: document_of_def Let_def)

lemma document_fields [json_fields]:
  "json_index (document_of channels m) ''groups'' = JArray (map rule_group m)"
  "json_index (document_of channels m) ''contactPoints'' =
     JArray (noop_contact_point # map contact_point channels)"
  "json_index (document_of channels m) ''deleteRules'' = JNull"
  "json_index (document_of channels m) ''deleteContactPoints'' = JNull"
  by (simp_all add: document_of_def Let_def json_index_object)

lemma rule_group_fields [json_fields]:
  "json_index (rule_group (interval, rules)) ''rules'' = JArray rules"
  "json_index (rule_group (interval, rules)) ''interval'' = JString (show_u64 interval @ ''s'')"
  by (simp_all add: rule_group_def json_index_object)

lemma document_rules_of: "document_rules (document_of channels m) = concat (map snd m)"
proof -
  have "json_elements (json_index (rule_group g) ''rules'') = snd g" for g
    by (cases g) (simp add: json_fields)
  then show ?thesis by (simp add: document_rules_def json_fields comp_def)
qed

lemma contact_point_fields [json_fields]:
  "json_index (contact_point channel) ''name'' = JString (''microscope-'' @ alert_channel_str channel)"
  by (simp add: contact_point_def Let_def json_index_object)

definition rule_channel :: "json \<Rightarrow> json" where
  "rule_channel rule = json_index (json_index rule ''labels'') ''channel''"

definition rule_receiver :: "json \<Rightarrow> json" where
  "rule_receiver rule = json_index (json_index rule ''notification_settings'') ''receiver''"

lemma with_notification_fields [json_fields]:
  assumes "is_object rule" "json_index rule ''notification_settings'' = JNull"
  shows "json_index (with_notification channel rule) ''labels'' = json_index rule ''labels''"
    "json_index (with_notification channel rule) ''uid'' = json_index rule ''uid''"
    "json_index (with_notification channel rule) ''notification_settings'' =
       (if channel = ''none'' then JNull
        else json_object [(''receiver'', JString (''microscope-'' @ channel))])"
  using assms by (simp_all add: with_notification_def notification_settings_def json_index_set)

lemma health_rule_channel:
  "rule_channel (health_rule uid title query condition p nd severity signal channel description) = JString channel"
  "rule_receiver (health_rule uid title query condition p nd severity signal channel description) =
     (if channel = ''none'' then JNull else JString (''microscope-'' @ channel))"
  by (simp_all add: rule_channel_def rule_receiver_def health_rule_def with_notification_fields
      json_index_object) (simp add: json_index_def json_get_def)

definition rule_signal :: "json \<Rightarrow> json" where
  "rule_signal rule = json_index (json_index rule ''labels'') ''signal_name''"

lemma rule_document_fields:
  "rule_channel (rule_document c alert channel uid query description) = JString channel"
  "rule_signal (rule_document c alert channel uid query description) = JString (ar_name alert)"
  "rule_receiver (rule_document c alert channel uid query description) =
     (if channel = ''none'' then JNull else JString (''microscope-'' @ channel))"
  by (simp_all add: rule_channel_def rule_signal_def rule_receiver_def rule_document_def Let_def
      with_notification_fields json_index_object) (simp add: json_index_def json_get_def)

section \<open>Routing\<close>

definition health_rule_channels :: "json list \<Rightarrow> alert_channel list \<Rightarrow> bool" where
  "health_rule_channels rules channels \<longleftrightarrow>
     list_all (\<lambda>r. \<exists>ch \<in> set (health_channel_names channels).
        rule_channel r = JString ch
        \<and> rule_receiver r = (if ch = ''none'' then JNull else JString (''microscope-'' @ ch))) rules"

lemma health_rule_channels_append:
  "health_rule_channels (xs @ ys) chs \<longleftrightarrow> health_rule_channels xs chs \<and> health_rule_channels ys chs"
  by (simp add: health_rule_channels_def)

lemma health_rule_channels_concat:
  assumes "\<And>ch. list_all (\<lambda>r. rule_channel r = JString ch
      \<and> rule_receiver r = (if ch = ''none'' then JNull else JString (''microscope-'' @ ch))) (f ch)"
  shows "health_rule_channels (concat (map f (health_channel_names chs))) chs"
  using assms by (fastforce simp: health_rule_channels_def list_all_iff)

lemma health_rule_kinds:
  "rule_channel (prometheus_health_rule u t q k nd sv sn ch d p) = JString ch"
  "rule_receiver (prometheus_health_rule u t q k nd sv sn ch d p) =
     (if ch = ''none'' then JNull else JString (''microscope-'' @ ch))"
  "rule_channel (loki_health_rule u t q w k sv sn ch d p) = JString ch"
  "rule_receiver (loki_health_rule u t q w k sv sn ch d p) =
     (if ch = ''none'' then JNull else JString (''microscope-'' @ ch))"
  by (simp_all add: prometheus_health_rule_def loki_health_rule_def health_rule_channel)

lemma health_rules_channels: "health_rule_channels (health_rules var c channels rpc_polling) channels"
proof -
  have nil: "health_rule_channels [] channels" by (simp add: health_rule_channels_def)
  have "health_rule_channels (rpc_recovery_degraded_rules channels p) channels"
    "health_rule_channels (datasource_drop_rules var channels p) channels"
    "health_rule_channels (yellowstone_health_rules var channels p) channels"
    "health_rule_channels (log_delivery_rules channels p) channels"
    "health_rule_channels (multisig_health_rules channels w p) channels"
    "health_rule_channels (rpc_health_rules c channels p) channels" for p w
    unfolding rpc_recovery_degraded_rules_def datasource_drop_rules_def yellowstone_health_rules_def
      log_delivery_rules_def multisig_health_rules_def rpc_health_rules_def Let_def
    by (rule health_rule_channels_concat, simp only: list.pred_inject health_rule_kinds simp_thms)+
  then show ?thesis
    using nil by (simp add: health_rules_def health_rule_channels_append Let_def)
qed

text \<open>A rule is routed: muted by the document's route, or received by one of its contact points.\<close>

definition contact_point_names :: "json \<Rightarrow> json set" where
  "contact_point_names document =
     (\<lambda>p. json_index p ''name'') ` set (json_elements (json_index document ''contactPoints''))"

definition document_routes :: "json \<Rightarrow> json list" where
  "document_routes document =
     concat (map (\<lambda>p. json_elements (json_index p ''routes''))
       (json_elements (json_index document ''policies'')))"

text \<open>
  A rule without a receiver of its own is handled by the first route whose matchers all match its
  labels; the route mutes it when it names a mute time the document declares.
\<close>

definition matcher_matches :: "json \<Rightarrow> json \<Rightarrow> bool" where
  "matcher_matches rule m \<longleftrightarrow>
     (case json_elements m of
        [JString l, JString operator, v] \<Rightarrow> operator = ''='' \<and> json_index (json_index rule ''labels'') l = v
      | _ \<Rightarrow> False)"

definition first_route :: "json \<Rightarrow> json \<Rightarrow> json option" where
  "first_route document rule =
     List.find (\<lambda>route. list_all (matcher_matches rule) (json_elements (json_index route ''object_matchers'')))
       (document_routes document)"

definition mute_times :: "json \<Rightarrow> json set" where
  "mute_times document =
     (\<lambda>t. json_index t ''name'') ` set (json_elements (json_index document ''muteTimes''))"

definition muted :: "json \<Rightarrow> json \<Rightarrow> bool" where
  "muted document rule \<longleftrightarrow> rule_receiver rule = JNull
     \<and> (case first_route document rule of
          None \<Rightarrow> False
        | Some route \<Rightarrow> set (json_elements (json_index route ''mute_time_intervals'')) \<inter> mute_times document \<noteq> {})"

definition routed :: "json \<Rightarrow> json \<Rightarrow> bool" where
  "routed document rule \<longleftrightarrow>
     (rule_channel rule = JString ''none'' \<and> muted document rule)
     \<or> (\<exists>ch. rule_channel rule = JString ch \<and> rule_receiver rule = JString (''microscope-'' @ ch)
          \<and> rule_receiver rule \<in> contact_point_names document)"

lemma document_routes_of: "document_routes (document_of channels m) = muted_route # map channel_route channels"
proof -
  have "json_elements (json_index (document_of channels m) ''policies'') =
      [json_object [(''orgId'', JNumber 1), (''receiver'', JString ''microscope-noop''),
         (''group_by'', JArray [JString ''alertname'', JString ''channel'']),
         (''group_wait'', JString ''5s''), (''group_interval'', JString ''1m''),
         (''repeat_interval'', JString ''4h''),
         (''routes'', JArray (muted_route # map channel_route channels))]]"
    by (simp add: document_of_def Let_def json_index_object)
  then show ?thesis by (simp add: document_routes_def json_index_object)
qed

lemma channel_str_not_none: "alert_channel_str ch \<noteq> ''none''"
  by (cases ch) (simp_all add: alert_channel_str_def)

lemma routed_channel:
  assumes "ch \<in> set channels"
    and "rule_channel rule = JString (alert_channel_str ch)"
    and "rule_receiver rule = JString (''microscope-'' @ alert_channel_str ch)"
  shows "routed (document_of channels m) rule"
  using assms unfolding routed_def contact_point_names_def
  by (auto simp: json_fields image_iff)

lemma routed_none:
  assumes "rule_channel rule = JString ''none''" "rule_receiver rule = JNull"
  shows "routed (document_of channels m) rule"
proof -
  have "first_route (document_of channels m) rule = Some muted_route"
    using assms by (simp add: first_route_def document_routes_of muted_route_def json_index_object
        matcher_matches_def rule_channel_def)
  moreover have "JString ''microscope-always'' \<in> mute_times (document_of channels m)"
    by (simp add: mute_times_def document_of_def Let_def json_index_object)
  ultimately have "muted (document_of channels m) rule"
    using assms by (simp add: muted_def muted_route_def json_index_object)
  then show ?thesis using assms by (simp add: routed_def)
qed

lemma routed_health:
  assumes "health_rule_channels rules channels" "rule \<in> set rules"
  shows "routed (document_of channels m) rule"
proof -
  obtain ch where ch: "ch \<in> set (health_channel_names channels)" "rule_channel rule = JString ch"
      "rule_receiver rule = (if ch = ''none'' then JNull else JString (''microscope-'' @ ch))"
    using assms by (auto simp: health_rule_channels_def list_all_iff)
  show ?thesis
  proof (cases "channels = []")
    case True
    then show ?thesis using ch by (intro routed_none) (simp_all add: health_channel_names_def)
  next
    case False
    then obtain x where "x \<in> set channels" "ch = alert_channel_str x"
      using ch(1) by (auto simp: health_channel_names_def)
    then show ?thesis using ch channel_str_not_none by (intro routed_channel) simp_all
  qed
qed

end
