(* ===== verification/Alerting_Rules.thy ===== *)
theory Alerting_Rules
  imports Alerting_Safety
begin

text \<open>
  The rules of a whole document: every alert of a loaded configuration becomes a rule for each of
  its channels, in the group of its evaluation interval, and every rule is routed.
\<close>

section \<open>The groups\<close>

definition interval_rules :: "json \<Rightarrow> u64 \<Rightarrow> json list" where
  "interval_rules document interval =
     concat (map (\<lambda>group. json_elements (json_index group ''rules''))
       (filter (\<lambda>group. json_index group ''interval'' = JString (show_u64 interval @ ''s''))
         (json_elements (json_index document ''groups''))))"

lemma in_concat_map: "g \<in> set gs \<Longrightarrow> r \<in> set (f g) \<Longrightarrow> r \<in> set (concat (map f gs))"
  by auto

lemma traverse_r_source: "traverse_r f xs = Inr ys \<Longrightarrow> y \<in> set ys \<Longrightarrow> \<exists>x \<in> set xs. f x = Inr y"
  by (induction xs arbitrary: ys) (auto simp: result_iff)

lemma traverse_r_target: "traverse_r f xs = Inr ys \<Longrightarrow> x \<in> set xs \<Longrightarrow> \<exists>y \<in> set ys. f x = Inr y"
  by (induction xs arbitrary: ys) (auto simp: result_iff)

lemma group_in_document:
  assumes "om_wf m" "r \<in> set (group_rules m interval)"
  shows "r \<in> set (interval_rules (document_of channels m) interval)"
proof -
  obtain rules where rules: "om_get m interval = Some rules" "r \<in> set rules"
    using assms(2) by (cases "om_get m interval") (auto simp: group_rules_def)
  then have "(interval, rules) \<in> set m" using om_get_Some [OF assms(1)] by simp
  then have "rule_group (interval, rules) \<in> set (json_elements (json_index (document_of channels m) ''groups''))"
    by (simp add: json_fields)
  then have "rule_group (interval, rules) \<in> set (filter
      (\<lambda>group. json_index group ''interval'' = JString (show_u64 interval @ ''s''))
      (json_elements (json_index (document_of channels m) ''groups'')))"
    by (simp add: rule_group_fields)
  then show ?thesis
    unfolding interval_rules_def by (rule in_concat_map) (simp add: rule_group_fields rules(2))
qed

lemma group_rules_insert:
  "om_wf m \<Longrightarrow> group_rules (om_insert k rules m) i = (if i = k then rules else group_rules m i)"
  by (simp add: group_rules_def om_get_om_insert)

lemma all_rules_grouped: "om_wf m \<Longrightarrow> set (concat (map snd m)) = (\<Union>i. set (group_rules m i))"
proof -
  assume wf: "om_wf m"
  have "r \<in> set (group_rules m i) \<longleftrightarrow> (\<exists>rules. (i, rules) \<in> set m \<and> r \<in> set rules)" for i r
    unfolding om_get_Some [OF wf, symmetric] by (cases "om_get m i") (simp_all add: group_rules_def)
  then show ?thesis by (auto simp: Bex_def) force+
qed

definition alert_group :: "alerting_library \<Rightarrow> config \<Rightarrow> alert_rule list \<Rightarrow> u64 \<Rightarrow> json set" where
  "alert_group A c alerts i = {r. \<exists>alert \<in> set alerts. \<exists>rules.
     evaluation_of alert (cf_alerting c) = i \<and> alert_rules_of A c alert = Inr rules \<and> r \<in> set rules}"

lemma add_alert_rules_groups:
  assumes "om_wf m" "add_alert_rules A c alerts m = Inr m'"
  shows "om_wf m' \<and> (\<forall>i. set (group_rules m' i) = set (group_rules m i) \<union> alert_group A c alerts i)"
  using assms
proof (induction alerts arbitrary: m)
  case (Cons alert alerts)
  let ?k = "evaluation_of alert (cf_alerting c)"
  obtain rules where rules: "alert_rules_of A c alert = Inr rules"
      "add_alert_rules A c alerts (om_insert ?k (group_rules m ?k @ rules) m) = Inr m'"
    using Cons.prems(2) by (auto simp: result_iff Let_def)
  have "alert_group A c (alert # alerts) i =
      (if i = ?k then set rules else {}) \<union> alert_group A c alerts i" for i
    using rules(1) by (auto simp: alert_group_def)
  then show ?case
    using Cons.IH [OF _ rules(2)] Cons.prems(1) by (auto simp: om_wf_om_insert group_rules_insert)
qed (simp add: alert_group_def)

lemma provisioning_groups:
  assumes "provisioning_document A var c channels p = Inr doc"
  obtains m where "om_wf m" "doc = document_of channels m"
    "\<And>i. alert_group A c (cf_alert_rules c) i \<subseteq> set (group_rules m i)"
    "set (document_rules doc) =
       set (health_rules var c channels p) \<union> (\<Union>i. alert_group A c (cf_alert_rules c) i)"
proof -
  let ?m = "[(rpc_health_evaluation_interval_seconds, health_rules var c channels p)]"
  obtain m where m: "add_alert_rules A c (cf_alert_rules c) ?m = Inr m" "doc = document_of channels m"
    using assms by (auto simp: provisioning_document_def result_iff)
  have wf0: "om_wf ?m" by (simp add: om_wf_def om_keys_def)
  have groups: "om_wf m"
      "\<And>i. set (group_rules m i) = set (group_rules ?m i) \<union> alert_group A c (cf_alert_rules c) i"
    using add_alert_rules_groups [OF wf0 m(1)] by blast+
  have "(\<Union>i. set (group_rules ?m i)) = set (health_rules var c channels p)"
    using all_rules_grouped [OF wf0] by simp
  moreover have "set (document_rules doc) = (\<Union>i. set (group_rules m i))"
    using all_rules_grouped [OF groups(1)] by (simp add: m(2) document_rules_of)
  ultimately show ?thesis
    using groups m(2) by (intro that) auto
qed

lemma alert_group_rule:
  assumes "r \<in> alert_group A c alerts i"
  obtains alert channel where "alert \<in> set alerts" "evaluation_of alert (cf_alerting c) = i"
    "channel \<in> (if ar_channels alert = [] then {None} else Some ` set (ar_channels alert))"
    "grafana_rule A c alert channel = Inr r"
proof -
  obtain alert rules where alert: "alert \<in> set alerts" "evaluation_of alert (cf_alerting c) = i"
      "alert_rules_of A c alert = Inr rules" "r \<in> set rules"
    using assms by (auto simp: alert_group_def)
  obtain channel where
      "channel \<in> set (if ar_channels alert = [] then [None] else map Some (ar_channels alert))"
      and rule: "grafana_rule A c alert channel = Inr r"
    using traverse_r_source [OF alert(3) [unfolded alert_rules_of_def] alert(4)] by blast
  then have "channel \<in> (if ar_channels alert = [] then {None} else Some ` set (ar_channels alert))"
    by (cases "ar_channels alert = []") simp_all
  then show ?thesis by (rule that [OF alert(1,2) _ rule])
qed

lemma grafana_rule_fields:
  assumes "grafana_rule A c alert channel = Inr r"
  shows "rule_channel r = JString (channel_name channel)" "rule_signal r = JString (ar_name alert)"
    "rule_receiver r = (if channel_name channel = ''none'' then JNull
       else JString (''microscope-'' @ channel_name channel))"
  using assms by (auto simp: grafana_rule_def result_iff rule_document_fields)

text \<open>
  C34: Every rule of a document reaches its channel: it names a contact point of the same document, or
  it is of no channel and the document's first route mutes it.
\<close>

theorem rules_routed:
  assumes "provisioning_document A var c (configured_channels c) p = Inr doc"
  shows "set (document_rules doc) \<subseteq> {rule. routed doc rule}"
proof
  fix r
  assume r: "r \<in> set (document_rules doc)"
  obtain m where m: "doc = document_of (configured_channels c) m"
      "set (document_rules doc) = set (health_rules var c (configured_channels c) p)
         \<union> (\<Union>i. alert_group A c (cf_alert_rules c) i)"
    using provisioning_groups [OF assms] by metis
  consider "r \<in> set (health_rules var c (configured_channels c) p)"
    | i where "r \<in> alert_group A c (cf_alert_rules c) i"
    using r m(2) by blast
  then show "r \<in> {rule. routed doc rule}"
  proof cases
    case 1
    then show ?thesis using routed_health [OF health_rules_channels] m(1) by simp
  next
    case 2
    then obtain alert channel where alert: "alert \<in> set (cf_alert_rules c)"
        "channel \<in> (if ar_channels alert = [] then {None} else Some ` set (ar_channels alert))"
        "grafana_rule A c alert channel = Inr r"
      by (rule alert_group_rule) blast
    show ?thesis
    proof (cases channel)
      case None
      then show ?thesis
        using grafana_rule_fields [OF alert(3)] routed_none m(1) by (simp add: channel_name_def)
    next
      case (Some ch)
      then have "ch \<in> set (configured_channels c)"
        using alert(1,2) by (auto simp: configured_channels_def split: if_splits)
      then show ?thesis
        using grafana_rule_fields [OF alert(3)] routed_channel [of ch] m(1) Some channel_str_not_none
        by (simp add: channel_name_def)
    qed
  qed
qed

section \<open>A loaded configuration is rendered\<close>

text \<open>What is used of the JSON library: strings, finite numbers and conditions have a text.\<close>

definition texts_ok :: "alerting_library \<Rightarrow> bool" where
  "texts_ok A \<longleftrightarrow> (\<forall>s. \<exists>t. at_string A s = Inr t) \<and> (\<forall>f. f_finite f \<longrightarrow> (\<exists>t. at_float A f = Inr t))
     \<and> (\<forall>v. \<exists>t. at_value A v = Inr t) \<and> (\<forall>ks. \<exists>t. at_conditions A ks = Inr t)"

definition renders :: "'e + 'a \<Rightarrow> bool" where
  "renders r \<longleftrightarrow> (\<exists>x. r = Inr x)"

lemma renders_simps [simp]: "renders (Inr x)" "\<not> renders (Inl e)"
  by (simp_all add: renders_def)

lemma renders_bind: "renders m \<Longrightarrow> (\<And>x. m = Inr x \<Longrightarrow> renders (f x)) \<Longrightarrow> renders (bind_r m f)"
  by (auto simp: renders_def)

lemma renders_traverse: "(\<And>x. x \<in> set xs \<Longrightarrow> renders (f x)) \<Longrightarrow> renders (traverse_r f xs)"
proof (induction xs)
  case (Cons x xs)
  have "renders (f x)" "renders (traverse_r f xs)" using Cons by simp_all
  then show ?case by (auto simp: renders_def)
qed simp

lemma texts_render:
  assumes "texts_ok A"
  shows "renders (serialized (at_string A s))" "renders (serialized (at_value A v))"
    "renders (serialized (at_conditions A ks))"
proof -
  obtain t u w where "at_string A s = Inr t" "at_value A v = Inr u" "at_conditions A ks = Inr w"
    using assms unfolding texts_ok_def by metis
  then show "renders (serialized (at_string A s))" "renders (serialized (at_value A v))"
    "renders (serialized (at_conditions A ks))"
    by (simp_all add: serialized_def)
qed

lemma value_renders:
  assumes "texts_ok A" "comparable oper (Some v)"
  shows "renders (logql_value A v)"
proof (cases v)
  case (AlertFloat f)
  then obtain t where "at_float A f = Inr t"
    using assms by (auto simp: texts_ok_def comparable_def)
  then show ?thesis using AlertFloat by (simp add: logql_value_def serialized_def)
qed (use texts_render [OF assms(1)] in \<open>simp_all add: logql_value_def\<close>)

lemma comparable_operator:
  "comparable oper (Some v) \<Longrightarrow> oper \<noteq> Exists \<and> (oper = Contains \<longrightarrow> (\<exists>s. v = AlertString s))"
  by (cases v) (auto simp: comparable_def)

lemma filter_renders:
  assumes "texts_ok A" "comparable (ac_operator k) (ac_value k)"
  shows "renders (condition_filter A k label)"
proof (cases "ac_value k")
  case None
  then show ?thesis using assms(2) by (simp add: comparable_def condition_filter_def)
next
  case (Some v)
  have v: "renders (logql_value A v)" using value_renders assms Some by metis
  have oper: "ac_operator k \<noteq> Exists" "ac_operator k = Contains \<Longrightarrow> \<exists>s. v = AlertString s"
    using comparable_operator assms(2) Some by metis+
  show ?thesis
  proof (cases "ac_operator k = Contains")
    case True
    then show ?thesis
      using oper Some texts_render [OF assms(1)] by (auto simp: condition_filter_def intro!: renders_bind)
  next
    case False
    then have "renders (logql_operator (ac_operator k))"
      using oper by (cases "ac_operator k") (simp_all add: logql_operator_def)
    then show ?thesis
      using False oper(1) Some v unfolding condition_filter_def
      by (cases "ac_operator k") (auto intro!: renders_bind)
  qed
qed

lemma conditions_render:
  assumes "texts_ok A" "list_all (\<lambda>k. validate_condition k = Inr ()) ks"
  shows "k \<in> set ks \<Longrightarrow> renders (condition_filter A k label)"
    "k \<in> set ks \<Longrightarrow> renders (condition_description A k)"
proof -
  assume "k \<in> set ks"
  then have k: "comparable (ac_operator k) (ac_value k)"
    using assms(2) by (simp add: list_all_iff condition_valid)
  then show "renders (condition_filter A k label)" by (rule filter_renders [OF assms(1)])
  show "renders (condition_description A k)"
    using k texts_render [OF assms(1)]
    by (cases "ac_value k") (auto simp: condition_description_def comparable_def intro!: renders_bind)
qed

lemma count_query_renders:
  assumes "texts_ok A" "list_all (\<lambda>k. validate_condition k = Inr ()) ks" "snd ` set conditions \<subseteq> set ks"
  shows "renders (count_query A parser filters lookback conditions)"
proof -
  have "renders (bind_r (validated (validate_condition k)) (\<lambda>_. condition_filter A k label))"
    if "k \<in> set ks" for k label
    using that assms(2) conditions_render(1) [OF assms(1,2)]
    by (auto simp: list_all_iff validated_def)
  then have "renders (traverse_r (\<lambda>(i, k).
      bind_r (validated (validate_condition k)) (\<lambda>_. condition_filter A k (condition_label i))) conditions)"
    using assms(3) by (intro renders_traverse) (auto simp: split_beta)
  then show ?thesis unfolding count_query_def by (rule renders_bind) (simp add: Let_def)
qed

lemma snd_enumerate: "snd ` set (enumerate xs) = set xs"
  by (simp add: enumerate_def flip: set_map)

lemma logql_renders:
  assumes "texts_ok A" "list_all (\<lambda>k. validate_condition k = Inr ()) (ar_conditions alert)"
    and "\<not> (ar_kind alert = MultisigAlert \<and> cf_multisig c = None)"
  shows "renders (logql_query A c alert)"
proof -
  have scope: "renders (alert_scope c alert)"
    using assms(3) by (cases "ar_kind alert") (auto simp: alert_scope_def)
  have all: "renders (count_query A p f l (enumerate (ar_conditions alert)))" for p f l
    by (rule count_query_renders [OF assms(1,2)]) (simp add: snd_enumerate)
  have each: "renders (traverse_r (\<lambda>k. count_query A p f l [k]) (enumerate (ar_conditions alert)))" for p f l
  proof (rule renders_traverse)
    fix x assume "x \<in> set (enumerate (ar_conditions alert))"
    then have "snd x \<in> set (ar_conditions alert)" using snd_enumerate [of "ar_conditions alert"] by blast
    then show "renders (count_query A p f l [x])"
      by (intro count_query_renders [OF assms(1,2)]) simp
  qed
  show ?thesis
    unfolding logql_query_def
    using scope texts_render [OF assms(1)] all each
    by (auto simp: Let_def split_beta intro!: renders_bind)
qed

lemma rule_renders:
  assumes "texts_ok A" "list_all (\<lambda>k. validate_condition k = Inr ()) (ar_conditions alert)"
    and "\<not> (ar_kind alert = MultisigAlert \<and> cf_multisig c = None)"
  shows "renders (grafana_rule A c alert channel)"
proof -
  have "renders (rule_description A alert)"
    unfolding rule_description_def
    using renders_traverse [of "ar_conditions alert" "condition_description A"]
      conditions_render(2) [OF assms(1,2)]
    by (auto simp: Let_def intro!: renders_bind)
  then show ?thesis
    unfolding grafana_rule_def
    by (intro renders_bind logql_renders [OF assms] texts_render [OF assms(1)]) simp_all
qed

lemma loaded_alerts:
  assumes "load_config L fs = Inr c" "alert \<in> set (cf_alert_rules c)"
  shows "list_all (\<lambda>k. validate_condition k = Inr ()) (ar_conditions alert)"
    "\<not> (ar_kind alert = MultisigAlert \<and> cf_multisig c = None)"
proof -
  have "validate L fs c = Inr ()"
    using assms(1) by (auto simp: load_config_def result_iff split: sum.splits)
  then have "check_from (validate_alert L fs c) 0 (cf_alert_rules c) = Inr ()"
    by (simp add: validate_def result_iff)
  then obtain i where "validate_alert L fs c i alert = Inr ()"
    using assms(2) by (auto simp: check_from_Inr in_set_conv_nth)
  then have "rule_ready L fs c alert" by (simp add: alert_iff)
  then show "list_all (\<lambda>k. validate_condition k = Inr ()) (ar_conditions alert)"
    "\<not> (ar_kind alert = MultisigAlert \<and> cf_multisig c = None)"
    by (auto simp: rule_ready_def condition_valid list_all_iff signal_known_def)
qed

lemma alerts_render:
  assumes "texts_ok A" "list_all (\<lambda>alert. list_all (\<lambda>k. validate_condition k = Inr ()) (ar_conditions alert)
      \<and> \<not> (ar_kind alert = MultisigAlert \<and> cf_multisig c = None)) alerts"
  shows "renders (add_alert_rules A c alerts m)"
  using assms(2)
proof (induction alerts arbitrary: m)
  case (Cons alert alerts)
  have "renders (alert_rules_of A c alert)"
    unfolding alert_rules_of_def
    by (rule renders_traverse) (use rule_renders [OF assms(1)] Cons.prems in simp)
  then show ?case
    using Cons by (auto simp: Let_def intro!: renders_bind)
qed simp

definition alert_channel_names :: "alert_rule \<Rightarrow> string list" where
  "alert_channel_names alert =
     (if ar_channels alert = [] then [''none''] else map alert_channel_str (ar_channels alert))"

text \<open>
  C33: A configuration that loads is always rendered: no condition is rejected a second time, no alert
  lacks its section and no operator reaches the panic of its rendering. In the document, every
  alert has a rule for each of its channels, in the group of its own evaluation interval.
\<close>

theorem alerts_provisioned:
  assumes "load_config L fs = Inr c" "texts_ok A"
  shows "\<exists>doc. provisioning_document A var c channels p = Inr doc
    \<and> (\<forall>alert \<in> set (cf_alert_rules c). \<forall>ch \<in> set (alert_channel_names alert).
         \<exists>rule \<in> set (interval_rules doc (evaluation_of alert (cf_alerting c))).
           rule_channel rule = JString ch \<and> rule_signal rule = JString (ar_name alert))"
proof -
  have ready: "list_all (\<lambda>alert. list_all (\<lambda>k. validate_condition k = Inr ()) (ar_conditions alert)
      \<and> \<not> (ar_kind alert = MultisigAlert \<and> cf_multisig c = None)) (cf_alert_rules c)"
    using loaded_alerts [OF assms(1)] by (simp add: list_all_iff)
  obtain groups where "add_alert_rules A c (cf_alert_rules c)
      [(rpc_health_evaluation_interval_seconds, health_rules var c channels p)] = Inr groups"
    using alerts_render [OF assms(2) ready] unfolding renders_def by blast
  then obtain doc where doc: "provisioning_document A var c channels p = Inr doc"
    by (simp add: provisioning_document_def)
  obtain m where m: "om_wf m" "doc = document_of channels m"
      "\<And>i. alert_group A c (cf_alert_rules c) i \<subseteq> set (group_rules m i)"
    using provisioning_groups [OF doc, of thesis] by blast
  have "\<exists>rule \<in> set (interval_rules doc (evaluation_of alert (cf_alerting c))).
      rule_channel rule = JString ch \<and> rule_signal rule = JString (ar_name alert)"
    if alert: "alert \<in> set (cf_alert_rules c)" "ch \<in> set (alert_channel_names alert)" for alert ch
  proof -
    let ?chs = "if ar_channels alert = [] then [None] else map Some (ar_channels alert)"
    obtain channel where channel: "channel \<in> set ?chs" "ch = channel_name channel"
    proof (cases "ar_channels alert = []")
      case True
      then show ?thesis using alert(2) that [of None] by (simp add: alert_channel_names_def channel_name_def)
    next
      case False
      then obtain x where "x \<in> set (ar_channels alert)" "ch = alert_channel_str x"
        using alert(2) by (auto simp: alert_channel_names_def)
      then show ?thesis using False that [of "Some x"] by (simp add: channel_name_def)
    qed
    have "renders (alert_rules_of A c alert)"
      unfolding alert_rules_of_def
      by (rule renders_traverse) (use rule_renders [OF assms(2)] loaded_alerts [OF assms(1) alert(1)] in simp)
    then obtain rules where rules: "alert_rules_of A c alert = Inr rules" by (auto simp: renders_def)
    obtain r where r: "r \<in> set rules" "grafana_rule A c alert channel = Inr r"
      using traverse_r_target [OF rules [unfolded alert_rules_of_def] channel(1)] by blast
    have "r \<in> set (group_rules m (evaluation_of alert (cf_alerting c)))"
      using m(3) rules r(1) alert(1) by (fastforce simp: alert_group_def)
    then have "r \<in> set (interval_rules doc (evaluation_of alert (cf_alerting c)))"
      unfolding m(2) by (rule group_in_document [OF m(1)])
    then show ?thesis
      using grafana_rule_fields [OF r(2)] channel(2) by blast
  qed
  then show ?thesis using doc by blast
qed

end
