(* ===== verification/Alerting_Deletions.thy ===== *)
theory Alerting_Deletions
  imports Alerting_Safety
begin

text \<open>
  The generated file over the generations of a deployment: what an earlier document provisioned is
  in the current one, or listed there for deletion, however often the file was regenerated.
\<close>

section \<open>Deletions of one document\<close>

lemma uids_deletions [simp]: "uids (map deletion us) = us"
  by (induction us) (simp_all add: uids_def map_filter_simps deletion_def json_index_object)

lemma is_object_deletions [simp]: "is_object doc \<Longrightarrow> is_object (set_deletions k prefix desired earlier doc)"
  by (simp add: set_deletions_def Let_def)

lemma set_deletions_other:
  "is_object doc \<Longrightarrow> k' \<noteq> k \<Longrightarrow>
    json_index (set_deletions k prefix desired earlier doc) k' = json_index doc k'"
  by (simp add: set_deletions_def Let_def json_index_set)

lemma set_deletions_uids:
  assumes "is_object doc" "json_index doc k = JNull"
  shows "set (deletion_uids (set_deletions k prefix desired earlier doc) k)
    = {u \<in> set earlier. u \<notin> set desired \<and> starts_with prefix u}"
proof -
  let ?deleted = "filter (\<lambda>uid. uid \<notin> set desired \<and> starts_with prefix uid) (oset_of_list earlier)"
  have "set (deletion_uids (set_deletions k prefix desired earlier doc) k) = set ?deleted"
    using assms
    by (simp add: set_deletions_def Let_def deletion_uids_def json_index_set del: set_filter)
      (auto simp: uids_def)
  then show ?thesis by auto
qed

definition same_parts :: "json \<Rightarrow> json \<Rightarrow> bool" where
  "same_parts a b \<longleftrightarrow> json_index a ''groups'' = json_index b ''groups''
     \<and> json_index a ''contactPoints'' = json_index b ''contactPoints''"

lemma same_parts_uids:
  "same_parts a b \<Longrightarrow> rule_uids a = rule_uids b \<and> contact_point_uids a = contact_point_uids b"
  by (simp add: same_parts_def rule_uids_def contact_point_uids_def)

definition fresh_document :: "json \<Rightarrow> bool" where
  "fresh_document doc \<longleftrightarrow> is_object doc \<and> json_index doc ''deleteRules'' = JNull
     \<and> json_index doc ''deleteContactPoints'' = JNull"

lemma provisioned_fresh: "provisioning_document A var c channels p = Inr doc \<Longrightarrow> fresh_document doc"
  by (auto simp: provisioning_document_def result_iff fresh_document_def json_fields)

lemma deletions_of:
  assumes "fresh_document doc"
  shows "same_parts (add_resource_deletions doc previous) doc"
    "set (deletion_uids (add_resource_deletions doc previous) ''deleteRules'')
      = {u \<in> set (rule_uids previous) \<union> set (deletion_uids previous ''deleteRules'').
           u \<notin> set (rule_uids doc) \<and> starts_with ''ms-'' u}"
    "set (deletion_uids (add_resource_deletions doc previous) ''deleteContactPoints'')
      = {u \<in> set (contact_point_uids previous) \<union> set (deletion_uids previous ''deleteContactPoints'').
           u \<notin> set (contact_point_uids doc) \<and> starts_with ''microscope-'' u}"
proof -
  let ?d = "set_deletions ''deleteRules'' ''ms-'' (rule_uids doc)
    (rule_uids previous @ deletion_uids previous ''deleteRules'') doc"
  let ?e = "set_deletions ''deleteContactPoints'' ''microscope-'' (contact_point_uids ?d)
    (contact_point_uids previous @ deletion_uids previous ''deleteContactPoints'') ?d"
  have newer: "is_object doc" "json_index doc ''deleteRules'' = JNull"
      "json_index doc ''deleteContactPoints'' = JNull"
    using assms by (simp_all add: fresh_document_def)
  have e: "add_resource_deletions doc previous = ?e"
    by (simp add: add_resource_deletions_def Let_def)
  have parts: "same_parts ?d doc" "same_parts ?e ?d"
    using newer(1) by (simp_all add: same_parts_def set_deletions_other)
  show "same_parts (add_resource_deletions doc previous) doc"
    using parts unfolding e by (simp add: same_parts_def)
  have "deletion_uids ?e ''deleteRules'' = deletion_uids ?d ''deleteRules''"
    using newer(1) by (simp add: deletion_uids_def set_deletions_other)
  then show "set (deletion_uids (add_resource_deletions doc previous) ''deleteRules'')
      = {u \<in> set (rule_uids previous) \<union> set (deletion_uids previous ''deleteRules'').
           u \<notin> set (rule_uids doc) \<and> starts_with ''ms-'' u}"
    unfolding e using set_deletions_uids [OF newer(1,2)] by simp
  have "json_index ?d ''deleteContactPoints'' = JNull"
    using newer by (simp add: set_deletions_other)
  then show "set (deletion_uids (add_resource_deletions doc previous) ''deleteContactPoints'')
      = {u \<in> set (contact_point_uids previous) \<union> set (deletion_uids previous ''deleteContactPoints'').
           u \<notin> set (contact_point_uids doc) \<and> starts_with ''microscope-'' u}"
    unfolding e
    using set_deletions_uids [of ?d "''deleteContactPoints''"] same_parts_uids [OF parts(1)] newer(1)
    by simp
qed

section \<open>Generations\<close>

text \<open>
  The generations of one output directory: a run writes a document, which the library reads again
  as it wrote it, or it fails somewhere. The environment, the configuration and the faults differ
  from run to run.
\<close>

inductive generations :: "alerting_library \<Rightarrow> directory \<Rightarrow> json list \<Rightarrow> bool" for A where
  none: "generations A d []" if "om_wf d" "om_get d alerting_file = None"
| written: "generations A d' (docs @ [doc])"
    if "generations A d docs" "generate_alerting A var f c d = (d', Inr out)"
      "prepare_document A var f c d = Inr doc" "at_pretty A doc = Inr raw" "at_parse A raw = Inr doc"
| failed: "generations A d' docs"
    if "generations A d docs" "generate_alerting A var f c d = (d', Inl e)"

text \<open>What a document still accounts for: it has it, or it deletes it.\<close>

definition kept_or_deleted :: "(json \<Rightarrow> string list) \<Rightarrow> string \<Rightarrow> string \<Rightarrow> json list \<Rightarrow> json \<Rightarrow> bool" where
  "kept_or_deleted resources prefix k docs current \<longleftrightarrow>
     {u \<in> (\<Union>x \<in> set docs. set (resources x)). starts_with prefix u}
       \<subseteq> set (resources current) \<union> set (deletion_uids current k)
     \<and> set (resources current) \<inter> set (deletion_uids current k) = {}"

definition file_holds :: "alerting_library \<Rightarrow> directory \<Rightarrow> json list \<Rightarrow> bool" where
  "file_holds A d docs \<longleftrightarrow> om_wf d \<and>
     (if docs = [] then om_get d alerting_file = None
      else \<exists>raw. om_get d alerting_file = Some raw \<and> at_parse A raw = Inr (last docs))"

lemma replace_failed: "om_wf d \<Longrightarrow> replace f n c s d = (d', Inl e) \<Longrightarrow> om_get d' n = om_get d n"
  using write_file_other [of d n "temporary_path n" f c]
  by (auto simp: replace_def split: prod.splits bool.splits if_splits)

lemma generate_cases:
  assumes "om_wf d" "generate_alerting A var f c d = (d', r)"
  shows "om_wf d' \<and> (case r of
      Inl e \<Rightarrow> om_get d' alerting_file = om_get d alerting_file
    | Inr out \<Rightarrow> \<exists>doc raw. prepare_document A var f c d = Inr doc \<and> at_pretty A doc = Inr raw
        \<and> om_get d' alerting_file = Some raw)"
proof (cases "bind_r (prepare_document A var f c d) (\<lambda>document. serialized (at_pretty A document))")
  case (Inl e)
  then have "generate_alerting A var f c d = (d, Inl e)" by (simp add: generate_alerting_def)
  then show ?thesis using assms by simp
next
  case (Inr raw)
  then obtain doc where doc: "prepare_document A var f c d = Inr doc" "at_pretty A doc = Inr raw"
    by (auto simp: result_iff)
  obtain d'' q where q: "replace (write_faults.truncate f) alerting_file raw ''alerting config'' d = (d'', q)"
    by (cases "replace (write_faults.truncate f) alerting_file raw ''alerting config'' d")
  have "om_wf d''" using replaced.law_wf [OF assms(1)] q by (metis fst_conv)
  moreover have "om_get d'' alerting_file = om_get d alerting_file" if "q = Inl e" for e
    using replace_failed [OF assms(1)] q that by blast
  moreover have "om_get d'' alerting_file = Some raw" if "q = Inr ()"
    using replaced.law_success [OF assms(1)] q that by (metis fst_conv snd_conv)
  ultimately show ?thesis
    using assms(2) Inr q doc by (auto simp: generate_alerting_def split: sum.splits)
qed

lemma generations_file: "generations A d docs \<Longrightarrow> file_holds A d docs"
proof (induction rule: generations.induct)
  case (none d)
  then show ?case by (simp add: file_holds_def)
next
  case (written d docs var f c d' out doc raw)
  then have "om_wf d" by (simp add: file_holds_def)
  then show ?case
    using generate_cases [OF _ written.hyps(2)] written.hyps by (auto simp: file_holds_def)
next
  case (failed d docs var f c d' e)
  then have "om_wf d" by (simp add: file_holds_def)
  then show ?case
    using generate_cases [OF _ failed.hyps(2)] failed.IH by (auto simp: file_holds_def split: if_splits)
qed

lemma prepared_document:
  assumes "file_holds A d docs" "prepare_document A var f c d = Inr doc"
  obtains newer where "fresh_document newer"
    "doc = (if docs = [] then newer else add_resource_deletions newer (last docs))"
proof -
  obtain previous where previous: "read_existing_document A f d = Inr previous"
      "new_document A var c previous = Inr doc"
    using assms(2) by (auto simp: prepare_document_def result_iff)
  have "previous = (if docs = [] then None else Some (last docs))"
    using assms(1) previous(1)
    by (auto simp: read_existing_document_def file_holds_def split: if_splits option.splits sum.splits)
  then show ?thesis
    using previous(2) provisioned_fresh that by (fastforce simp: new_document_def result_iff split: if_splits)
qed

lemma accounted_step:
  assumes "docs = [] \<or> kept_or_deleted resources prefix k docs (last docs)"
    and "resources doc = resources newer"
    and "set (deletion_uids doc k) = (if docs = [] then {}
      else {u \<in> set (resources (last docs)) \<union> set (deletion_uids (last docs) k).
        u \<notin> set (resources newer) \<and> starts_with prefix u})"
  shows "kept_or_deleted resources prefix k (docs @ [doc]) doc"
  using assms by (fastforce simp: kept_or_deleted_def)

lemma fresh_deletions: "fresh_document doc \<Longrightarrow> deletion_uids doc ''deleteRules'' = []
    \<and> deletion_uids doc ''deleteContactPoints'' = []"
  by (simp add: fresh_document_def deletion_uids_def uids_def oset_of_list_def map_filter_simps)

lemma generations_accounted:
  assumes "generations A d docs"
  shows "docs = [] \<or> kept_or_deleted rule_uids ''ms-'' ''deleteRules'' docs (last docs)
    \<and> kept_or_deleted contact_point_uids ''microscope-'' ''deleteContactPoints'' docs (last docs)"
  using assms
proof (induction rule: generations.induct)
  case (written d docs var f c d' out doc raw)
  obtain newer where newer: "fresh_document newer"
      "doc = (if docs = [] then newer else add_resource_deletions newer (last docs))"
    by (rule prepared_document [OF generations_file [OF written.hyps(1)] written.hyps(3)])
  have uids: "rule_uids doc = rule_uids newer" "contact_point_uids doc = contact_point_uids newer"
    using newer same_parts_uids [OF deletions_of(1) [OF newer(1)]] by simp_all
  have deleted: "set (deletion_uids doc ''deleteRules'') = (if docs = [] then {}
      else {u \<in> set (rule_uids (last docs)) \<union> set (deletion_uids (last docs) ''deleteRules'').
        u \<notin> set (rule_uids newer) \<and> starts_with ''ms-'' u})"
    "set (deletion_uids doc ''deleteContactPoints'') = (if docs = [] then {}
      else {u \<in> set (contact_point_uids (last docs)) \<union> set (deletion_uids (last docs) ''deleteContactPoints'').
        u \<notin> set (contact_point_uids newer) \<and> starts_with ''microscope-'' u})"
    using newer fresh_deletions [OF newer(1)] deletions_of(2,3) [OF newer(1)] by simp_all
  have "kept_or_deleted rule_uids ''ms-'' ''deleteRules'' (docs @ [doc]) doc"
    "kept_or_deleted contact_point_uids ''microscope-'' ''deleteContactPoints'' (docs @ [doc]) doc"
    using accounted_step [OF _ uids(1) deleted(1)] accounted_step [OF _ uids(2) deleted(2)] written.IH
    by blast+
  then show ?case by simp
qed simp_all

text \<open>
  C32: Nothing provisioned is forgotten: over any number of generations, with any configurations and
  failures between, every rule and contact point a document ever had is in the document on disk
  or in its list of deletions, and nothing it has is in that list.
\<close>

theorem retired_resources_deleted:
  assumes "generations A d (docs @ [current])"
  shows "(\<exists>raw. om_get d alerting_file = Some raw \<and> at_parse A raw = Inr current)
    \<and> kept_or_deleted rule_uids ''ms-'' ''deleteRules'' (docs @ [current]) current
    \<and> kept_or_deleted contact_point_uids ''microscope-'' ''deleteContactPoints'' (docs @ [current]) current"
  using generations_accounted [OF assms] generations_file [OF assms] by (simp add: file_holds_def)

end
