(* ===== verification/Alerting_Examples.thy ===== *)
theory Alerting_Examples
  imports Alerting_Rules Alerting_Deletions "HOL-Library.Countable"
begin

text \<open>
  A deployment with one alert, rendered with a library whose texts are read as they were written.
  The witnesses of the provisioning properties apply them here.
\<close>

instance json :: countable
  by countable_datatype

definition demo_alerting_library :: alerting_library where
  "demo_alerting_library = \<lparr>at_string = Inr, at_float = (\<lambda>f. Inr (f_text f)), at_value = (\<lambda>_. Inr ''v''),
     at_conditions = (\<lambda>_. Inr ''[]''), at_regex_escape = id, at_sha256_hex = (\<lambda>s. replicate 64 (CHR ''0'')),
     at_parse = (\<lambda>s. Inr (from_nat (length s))),
     at_pretty = (\<lambda>j. Inr (replicate (to_nat j) (CHR ''x'')))\<rparr>"

definition demo_alert :: alert_rule where
  "demo_alert = \<lparr>ar_kind = EventAlert, ar_name = ''transfer'', ar_match_mode = MatchAll,
     ar_conditions = [\<lparr>ac_field = ''data.amount'', ac_operator = OpGt, ac_value = Some (AlertInteger 100)\<rparr>],
     ar_severity = Warning, ar_channels = [Slack], ar_lookback_window = None, ar_evaluation_interval = None\<rparr>"

definition alerting_sample_config :: config where
  "alerting_sample_config = sample_config\<lparr>cf_alert_rules := [demo_alert]\<rparr>"

definition alerting_sample_library :: config_library where
  "alerting_sample_library = sample_library\<lparr>cl_parse_toml := (\<lambda>_. Inr alerting_sample_config),
     cl_parse_json := (\<lambda>_. Inr (JObject
       [(''events'', JArray [JObject [(''name'', JString ''transfer'')]])]))\<rparr>"

lemma alerting_sample_loads:
  "load_config alerting_sample_library sample_files = Inr alerting_sample_config"
proof -
  have "validate sample_library sample_files sample_config = Inr ()"
    using sample_loads by (simp add: load_config_def sample_library_def sample_files_def result_iff)
  then have ready: "config_ready sample_library sample_files sample_config" by (simp add: loads_ready)
  have signal: "signal_known alerting_sample_library sample_files alerting_sample_config demo_alert"
  proof -
    have "read_idl_signals alerting_sample_library sample_files
        = Inr \<lparr>is_instructions = [], is_events = [''transfer'']\<rparr>"
      by code_simp
    then show ?thesis by (simp add: signal_known_def demo_alert_def)
  qed
  have field: "dotted_identifiers ''data.amount''"
    unfolding validate_field_path_iff [symmetric] by code_simp
  have name: "trim ''transfer'' \<noteq> []" by code_simp
  have "rule_ready alerting_sample_library sample_files alerting_sample_config demo_alert"
    using signal unfolding rule_ready_def
    by (simp add: demo_alert_def field name comparable_def lookback_of_def evaluation_of_def timing_ready_def
        alerting_sample_config_def sample_config_def alerting_config_default_def)
  then have "config_ready alerting_sample_library sample_files alerting_sample_config"
    using ready by (simp add: config_ready_def alerting_sample_config_def alerting_sample_library_def
        multisig_vault_pubkey_def multisig_state_pubkey_def sample_config_def)
  then have "validate alerting_sample_library sample_files alerting_sample_config = Inr ()"
    by (simp add: loads_ready)
  then show ?thesis
    by (simp add: load_config_def alerting_sample_library_def sample_files_def)
qed

lemma demo_texts_ok: "texts_ok demo_alerting_library"
  by (simp add: texts_ok_def demo_alerting_library_def)

theorem alerts_provisioned_witness:
  "\<exists>doc. provisioning_document demo_alerting_library (\<lambda>_. None) alerting_sample_config [Slack] False = Inr doc
    \<and> (\<exists>rule \<in> set (interval_rules doc 10).
         rule_channel rule = JString ''slack'' \<and> rule_signal rule = JString ''transfer'')"
  using alerts_provisioned [OF alerting_sample_loads demo_texts_ok, of "\<lambda>_. None" "[Slack]" False]
  by (auto simp: alerting_sample_config_def sample_config_def demo_alert_def alert_channel_names_def
      alert_channel_str_def evaluation_of_def alerting_config_default_def)

lemma sample_renders:
  assumes "c \<in> {sample_config, alerting_sample_config}"
  shows "\<exists>doc. provisioning_document demo_alerting_library var c channels p = Inr doc"
proof -
  have "list_all (\<lambda>alert. list_all (\<lambda>k. validate_condition k = Inr ()) (ar_conditions alert)
      \<and> \<not> (ar_kind alert = MultisigAlert \<and> cf_multisig c = None)) (cf_alert_rules c)"
    using assms loaded_alerts [OF alerting_sample_loads]
    by (auto simp: list_all_iff) (simp_all add: sample_config_def)
  then obtain groups where "add_alert_rules demo_alerting_library c (cf_alert_rules c)
      [(rpc_health_evaluation_interval_seconds, health_rules var c channels p)] = Inr groups"
    using alerts_render [OF demo_texts_ok] unfolding renders_def by blast
  then show ?thesis by (simp add: provisioning_document_def)
qed

theorem rules_routed_witness:
  "\<exists>doc. provisioning_document demo_alerting_library (\<lambda>_. None) alerting_sample_config
      (configured_channels alerting_sample_config) False = Inr doc
    \<and> set (document_rules doc) \<subseteq> {rule. routed doc rule}"
proof -
  obtain doc where doc: "provisioning_document demo_alerting_library (\<lambda>_. None) alerting_sample_config
      (configured_channels alerting_sample_config) False = Inr doc"
    using sample_renders by blast
  then show ?thesis using rules_routed [OF doc] by blast
qed

section \<open>Two generations\<close>

definition no_generate_faults :: generate_faults where
  "no_generate_faults = \<lparr>fail_directory = False, fail_open = False, fail_write = None,
     fail_sync = False, fail_rename = False, fail_directory_sync = False, gf_read = False\<rparr>"

definition demo_var :: "string \<Rightarrow> string option" where "demo_var = (\<lambda>_. Some ''x'')"

lemma demo_reads_written: "at_pretty demo_alerting_library doc = Inr raw \<Longrightarrow> at_parse demo_alerting_library raw = Inr doc"
  by (auto simp: demo_alerting_library_def)

lemma demo_credentials: "validate_contact_point_credentials demo_var channels = Inr ()"
proof -
  have "\<not> unset demo_var v" for v
    by (simp add: unset_def demo_var_def trim_def is_space_def)
  then have "List.find (\<lambda>(channel, variable). unset demo_var variable)
      (concat (map (\<lambda>channel. map (Pair channel) (required_credentials channel)) channels)) = None"
    by (auto simp: find_None_iff)
  then show ?thesis by (simp add: validate_contact_point_credentials_def)
qed

lemma demo_generates:
  assumes "generations demo_alerting_library d docs" "c \<in> {sample_config, alerting_sample_config}"
  shows "\<exists>d' doc. generations demo_alerting_library d' (docs @ [doc])"
proof -
  have holds: "file_holds demo_alerting_library d docs" by (rule generations_file [OF assms(1)])
  have "\<exists>previous. read_existing_document demo_alerting_library no_generate_faults d = Inr previous"
    using holds by (auto simp: read_existing_document_def no_generate_faults_def file_holds_def split: if_splits)
  then obtain previous where previous:
    "read_existing_document demo_alerting_library no_generate_faults d = Inr previous" by blast
  obtain first where "provisioning_document demo_alerting_library demo_var c (configured_channels c)
      (polls_rpc (cf_datasource c) demo_var) = Inr first"
    using sample_renders [OF assms(2)] by blast
  then obtain doc where doc: "prepare_document demo_alerting_library demo_var no_generate_faults c d = Inr doc"
    using previous by (simp add: prepare_document_def demo_credentials new_document_def ensure_def
        no_generate_faults_def)
  obtain raw where raw: "at_pretty demo_alerting_library doc = Inr raw"
    by (simp add: demo_alerting_library_def)
  obtain d' where "generate_alerting demo_alerting_library demo_var no_generate_faults c d = (d', Inr alerting_file)"
    using doc raw by (simp add: generate_alerting_def serialized_def replace_def write_file_def
        no_generate_faults_def write_faults.truncate_def)
  then have "generations demo_alerting_library d' (docs @ [doc])"
    using generations.written [OF assms(1) _ doc raw demo_reads_written [OF raw]] by blast
  then show ?thesis by blast
qed

theorem retired_resources_deleted_witness:
  "\<exists>d first current. generations demo_alerting_library d ([first] @ [current])
    \<and> kept_or_deleted rule_uids ''ms-'' ''deleteRules'' ([first] @ [current]) current"
proof -
  have "generations demo_alerting_library [] []"
    by (rule generations.none) (simp_all add: om_get_def)
  then obtain d first where "generations demo_alerting_library d [first]"
    using demo_generates [of "[]" "[]" alerting_sample_config] by auto
  then obtain d' current where run: "generations demo_alerting_library d' ([first] @ [current])"
    using demo_generates [of d "[first]" sample_config] by auto
  then show ?thesis using retired_resources_deleted [OF run] by blast
qed

section \<open>Alerts that differ in their windows only\<close>

text \<open>A configuration with an alert and the same alert over a longer window.\<close>

definition twin_config :: config where
  "twin_config = sample_config\<lparr>cf_alert_rules :=
     [demo_alert, demo_alert\<lparr>ar_lookback_window := Some 120\<rparr>]\<rparr>"

lemma same_conditions_same_uid:
  assumes "grafana_rule A c alert ch = Inr r"
    and "grafana_rule A c (alert\<lparr>ar_lookback_window := w\<rparr>) ch = Inr r'"
  shows "json_index r ''uid'' = json_index r' ''uid''"
  using assms
  by (auto simp: grafana_rule_def result_iff rule_document_def Let_def with_notification_fields
      json_index_object rule_uid_def canonical_text_def)

lemma twin_ready: "rule_ready L fs c r \<Longrightarrow> ar_lookback_window r = None \<Longrightarrow>
    unat (al_lookback_window (cf_alerting c)) \<le> unat w \<Longrightarrow> rule_ready L fs c (r\<lparr>ar_lookback_window := Some w\<rparr>)"
  by (auto simp: rule_ready_def signal_known_def lookback_of_def evaluation_of_def timing_ready_def
      split: alert_kind.splits)

lemma ready_parse: "config_ready (L\<lparr>cl_parse_toml := f\<rparr>) fs c = config_ready L fs c"
proof -
  have "read_idl_signals (L\<lparr>cl_parse_toml := f\<rparr>) fs = read_idl_signals L fs"
    by (simp add: read_idl_signals_def cong: sum.case_cong)
  then have "rule_ready (L\<lparr>cl_parse_toml := f\<rparr>) fs c r = rule_ready L fs c r" for r
    by (cases "ar_kind r") (simp_all add: rule_ready_def signal_known_def)
  then have "rule_ready (L\<lparr>cl_parse_toml := f\<rparr>) fs c = rule_ready L fs c" by blast
  then show ?thesis
    by (simp add: config_ready_def multisig_vault_pubkey_def multisig_state_pubkey_def)
qed

lemma twin_rule_ready:
  "rule_ready L fs twin_config r = rule_ready L fs alerting_sample_config r"
  by (cases "ar_kind r")
    (simp_all add: rule_ready_def signal_known_def twin_config_def alerting_sample_config_def sample_config_def)

text \<open>
  C35: The identifier of a rule does not depend on its windows, and the validation accepts two alerts
  that differ in nothing else: whatever the hash of the identifiers, the document then has two
  rules of one identifier.
\<close>

theorem twin_alerts_share_identifier:
  assumes "texts_ok A"
  shows "\<exists>L doc. load_config L sample_files = Inr twin_config
    \<and> provisioning_document A (\<lambda>_. None) twin_config [Slack] False = Inr doc
    \<and> \<not> distinct (uids (document_rules doc))"
proof -
  let ?L = "alerting_sample_library\<lparr>cl_parse_toml := (\<lambda>_. Inr twin_config)\<rparr>"
  let ?twin = "demo_alert\<lparr>ar_lookback_window := Some 120\<rparr>"
  have "validate alerting_sample_library sample_files alerting_sample_config = Inr ()"
    using alerting_sample_loads
    by (simp add: load_config_def alerting_sample_library_def sample_files_def result_iff)
  then have ready: "config_ready alerting_sample_library sample_files alerting_sample_config"
    by (simp add: loads_ready)
  then have "rule_ready alerting_sample_library sample_files alerting_sample_config demo_alert"
    by (simp add: config_ready_def alerting_sample_config_def)
  then have "rule_ready alerting_sample_library sample_files alerting_sample_config ?twin"
    by (rule twin_ready) (simp_all add: demo_alert_def alerting_sample_config_def sample_config_def
        alerting_config_default_def)
  then have "config_ready alerting_sample_library sample_files twin_config"
    using ready twin_rule_ready
    by (simp add: config_ready_def multisig_vault_pubkey_def multisig_state_pubkey_def twin_config_def
        alerting_sample_config_def sample_config_def)
  then have "config_ready ?L sample_files twin_config" by (simp add: ready_parse)
  then have "validate ?L sample_files twin_config = Inr ()" by (simp only: loads_ready)
  then have loads: "load_config ?L sample_files = Inr twin_config"
    by (simp add: load_config_def) (simp add: sample_files_def)
  let ?c = twin_config
  have conditions: "list_all (\<lambda>k. validate_condition k = Inr ()) (ar_conditions demo_alert)"
    using loaded_alerts(1) [OF alerting_sample_loads, of demo_alert] by (simp add: alerting_sample_config_def)
  have "renders (grafana_rule A ?c demo_alert (Some Slack))"
    "renders (grafana_rule A ?c ?twin (Some Slack))"
    using conditions by (intro rule_renders [OF assms]; simp add: demo_alert_def)+
  then obtain r r' where r: "grafana_rule A ?c demo_alert (Some Slack) = Inr r"
      "grafana_rule A ?c ?twin (Some Slack) = Inr r'"
    by (auto simp: renders_def)
  obtain u where u: "json_index r ''uid'' = JString u"
    using r(1) by (auto simp: grafana_rule_def result_iff rule_document_def Let_def with_notification_fields
        json_index_object)
  have rules: "alert_rules_of A ?c demo_alert = Inr [r]"
    "alert_rules_of A ?c ?twin = Inr [r']"
    using r by (simp_all add: alert_rules_of_def demo_alert_def)
  let ?h = "health_rules (\<lambda>_. None) ?c [Slack] False"
  have intervals: "evaluation_of demo_alert (cf_alerting ?c) = 10" "evaluation_of ?twin (cf_alerting ?c) = 10"
    by (simp_all add: evaluation_of_def demo_alert_def twin_config_def sample_config_def alerting_config_default_def)
  have "provisioning_document A (\<lambda>_. None) ?c [Slack] False
      = Inr (document_of [Slack] [(10, [r, r']), (30, ?h)])"
  proof -
    have alerts: "cf_alert_rules ?c = [demo_alert, ?twin]" by (simp add: twin_config_def)
    show ?thesis
      unfolding provisioning_document_def alerts
      by (simp add: rules intervals Let_def group_rules_def om_get_def rpc_health_evaluation_interval_seconds_def)
  qed
  moreover have "\<not> distinct (uids (document_rules (document_of [Slack] [(10, [r, r']), (30, ?h)])))"
    using u same_conditions_same_uid [OF r]
    by (simp add: document_rules_of uids_def map_filter_simps)
  ultimately show ?thesis using loads by blast
qed

theorem twin_alerts_share_identifier_witness:
  "\<exists>L doc. load_config L sample_files = Inr twin_config
    \<and> provisioning_document demo_alerting_library (\<lambda>_. None) twin_config [Slack] False = Inr doc
    \<and> \<not> distinct (uids (document_rules doc))"
  by (rule twin_alerts_share_identifier [OF demo_texts_ok])

end
