(* ===== verification/Indexer.thy ===== *)
theory Indexer
  imports Alerting Processor Runtime Backfill Datasource Rpc_Polling
begin

text \<open>
  The program (\<open>main.rs\<close>, with the commands of \<open>cli.rs\<close>): the checks every command starts with,
  the pipes and datasources a run wires together, the generation of the provisioning, and the
  backfill. A panic is a value of \<open>process_error\<close>. The pipeline itself is a library's: a run ends
  with what is handed to it, and a backfill takes its outcome as an argument.
\<close>

section \<open>Commands\<close>

definition default_config_path :: string where "default_config_path = ''microscope.toml''"
definition default_loki_url :: string where "default_loki_url = ''http://loki:3100''"
definition default_alerting_output_dir :: string where
  "default_alerting_output_dir = ''grafana/provisioning/alerting''"
definition default_dashboard_output_dir :: string where
  "default_dashboard_output_dir = ''grafana/dashboards''"

record backfill_command =
  bc_config_path :: string
  bc_since :: duration
  bc_rpc_url :: "string option"
  bc_loki_url :: string
  bc_loki_max_age :: "duration option"

record generate_command =
  gc_config_path :: string
  gc_alerting_output_dir :: string
  gc_dashboard_output_dir :: string

datatype indexer_command =
    RunCommand string
  | BackfillCommand backfill_command
  | GenerateAlertingCommand generate_command

datatype process_error =
    ConfigLoadFailed config_error
  | ProgramIdMismatch
  | IdlUnreadable string
  | IdlMismatch
  | ConfiguredKeyInvalid
  | ConfiguredMultisigInvalid verified_multisig
  | AlertingFailed alerting_error
  | DashboardFailed dashboard_error
  | EnvironmentInvalid string
  | RpcUrlMissing
  | LokiLimitsUnreadable limit_error
  | SinceExceedsLimit nat nat
  | BackfillInterrupted
  | PipelineFailed string
  | FailedUpdatesCounterMissing
  | BackfillIncomplete u32 u64
  | PushFailed string

section \<open>The checks of every command\<close>

record build_info =
  bi_codec :: codec
  bi_program_id :: pubkey
  bi_idl_sha256 :: string
  bi_sha256_hex :: "string \<Rightarrow> string"
  bi_derive :: "multisig_version \<Rightarrow> seed list \<Rightarrow> pubkey"
  bi_config_library :: config_library
  bi_program_events :: bool

definition idl_matches_decoder :: "build_info \<Rightarrow> string \<Rightarrow> bool" where
  "idl_matches_decoder B idl \<longleftrightarrow> bi_sha256_hex B idl = trim (bi_idl_sha256 B)"

definition verify_decoder_target :: "build_info \<Rightarrow> config_files \<Rightarrow> config \<Rightarrow> process_error + unit" where
  "verify_decoder_target B fs c =
     bind_r (ensure (cf_program_id c = key_str (bi_codec B) (bi_program_id B)) ProgramIdMismatch) (\<lambda>_.
     case fi_idl fs of
       Inl e \<Rightarrow> Inl (IdlUnreadable e)
     | Inr idl \<Rightarrow> ensure (idl_matches_decoder B idl) IdlMismatch)"

definition load_verified_config :: "build_info \<Rightarrow> config_files \<Rightarrow> process_error + config" where
  "load_verified_config B fs =
     (case load_config (bi_config_library B) fs of
        Inl e \<Rightarrow> Inl (ConfigLoadFailed e)
      | Inr c \<Rightarrow> bind_r (verify_decoder_target B fs c) (\<lambda>_. Inr c))"

definition verify_configured_multisig :: "build_info \<Rightarrow> config \<Rightarrow> process_error + verified_multisig option" where
  "verify_configured_multisig B c =
     (case cf_multisig c of
        None \<Rightarrow> Inr None
      | Some m \<Rightarrow>
          (case (multisig_vault_pubkey (bi_config_library B) c, multisig_state_pubkey (bi_config_library B) c) of
             (Some (Some vault), Some (Some state)) \<Rightarrow>
               (case verify (bi_derive B) vault state (mc_version m) of
                  Inl e \<Rightarrow> Inl (ConfiguredMultisigInvalid e)
                | Inr verified \<Rightarrow> Inr (Some verified))
           | _ \<Rightarrow> Inl ConfiguredKeyInvalid))"

section \<open>The pipeline of a run\<close>

definition deduplication_ttl :: duration where "deduplication_ttl = seconds (15 * 60)"

datatype pipe =
    ProgramPipe duration
  | ShippedPipe
  | SquadsPipe multisig_version pubkey pubkey duration

definition with_instruction_pipes :: "verified_multisig option \<Rightarrow> pipe list" where
  "with_instruction_pipes multisig =
     [ProgramPipe deduplication_ttl, ShippedPipe]
     @ (case multisig of
          None \<Rightarrow> []
        | Some m \<Rightarrow> [SquadsPipe (vm_version m) (vm_vault_address m) (vm_state_address m) deduplication_ttl])"

datatype shutdown_strategy = ProcessPending | Immediate

datatype source =
    StreamSource yellowstone_client
  | RecordedStream yellowstone_client delivered_handle
  | PollSource rpc_polling_datasource
  | BackfillSource string pubkey int

record pipeline_plan =
  pp_sources :: "source list"
  pp_pipes :: "pipe list"
  pp_strategy :: shutdown_strategy
  pp_metrics :: "metric list"
  pp_health :: health_state
  pp_journal :: "journal option"
  pp_delivered :: delivered_heap

text \<open>The sources, the strategy, the metrics, the journal, and the values behind the handles.\<close>

type_synonym wiring = "source list \<times> shutdown_strategy \<times> metric list \<times> journal option \<times> delivered_heap"

definition with_rpc_recovery ::
  "build_info \<Rightarrow> url_parser \<Rightarrow> (string \<Rightarrow> string option) \<Rightarrow> yellowstone_client \<Rightarrow> config \<Rightarrow> pubkey option
   \<Rightarrow> journal option \<Rightarrow> delivered_heap \<Rightarrow> process_error + wiring"
where
  "with_rpc_recovery B parse_url var stream c multisig_state j heap =
     (let (delivered, heap') = allocate_delivered heap
      in case from_env parse_url var (bi_program_id B) multisig_state
             (seconds (unat (dc_poll_interval (cf_datasource c)))) (dc_replay_window (cf_datasource c))
             (Some delivered) j of
        Inl e \<Rightarrow> Inl (EnvironmentInvalid e)
      | Inr (Some recovery, j') \<Rightarrow>
          Inr ([RecordedStream stream delivered, PollSource recovery], ProcessPending,
               set_rpc_recovery_enabled True, j', heap')
      | Inr (None, j') \<Rightarrow> Inr ([StreamSource stream], Immediate, set_rpc_recovery_enabled False, j', heap'))"

definition run_sources ::
  "build_info \<Rightarrow> url_parser \<Rightarrow> (string \<Rightarrow> string option) \<Rightarrow> u64 \<Rightarrow> config \<Rightarrow> pubkey option \<Rightarrow> health_state
   \<Rightarrow> journal option \<Rightarrow> delivered_heap \<Rightarrow> process_error + wiring \<times> health_state"
where
  "run_sources B parse_url var now c multisig_state h j heap =
     (case dc_mode (cf_datasource c) of
        YellowstoneMode \<Rightarrow>
          (case yellowstone (bi_codec B) var now (cf_program_id c) multisig_state h of
             Inl e \<Rightarrow> Inl (EnvironmentInvalid e)
           | Inr (stream, ms, h') \<Rightarrow>
               bind_r (with_rpc_recovery B parse_url var stream c multisig_state j heap)
                 (\<lambda>(sources, strategy, ms', rest). Inr ((sources, strategy, ms @ ms', rest), h')))
      | RpcMode \<Rightarrow>
          (case require_from_env parse_url var (bi_program_id B) multisig_state
                  (seconds (unat (dc_poll_interval (cf_datasource c)))) (dc_replay_window (cf_datasource c)) j of
             Inl e \<Rightarrow> Inl (EnvironmentInvalid e)
           | Inr (ds, j') \<Rightarrow>
               Inr (([PollSource ds], ProcessPending, set_rpc_recovery_enabled True, j', heap),
                 expect_poll_heartbeat (rpc_poll_stale_after_seconds (cf_datasource c)) now h)))"

text \<open>The run command up to the call that runs the pipeline.\<close>

definition run_command ::
  "build_info \<Rightarrow> url_parser \<Rightarrow> (string \<Rightarrow> string option) \<Rightarrow> u64 \<Rightarrow> config_files \<Rightarrow> process_error + pipeline_plan"
where
  "run_command B parse_url var now fs =
     bind_r (load_verified_config B fs) (\<lambda>c.
     bind_r (verify_configured_multisig B c) (\<lambda>multisig.
     bind_r (run_sources B parse_url var now c (map_option vm_state_address multisig) initial_health None [])
       (\<lambda>((sources, strategy, ms, j, heap), h).
     Inr \<lparr>pp_sources = sources, pp_pipes = with_instruction_pipes multisig, pp_strategy = strategy,
          pp_metrics = install now @ ms, pp_health = mark_started h, pp_journal = j, pp_delivered = heap\<rparr>)))"

section \<open>Generating the provisioning\<close>

definition generate_command_run ::
  "build_info \<Rightarrow> alerting_library \<Rightarrow> dashboard_library \<Rightarrow> (string \<Rightarrow> string option) \<Rightarrow> config_files
   \<Rightarrow> generate_faults \<Rightarrow> write_faults \<Rightarrow> directory \<Rightarrow> directory
   \<Rightarrow> directory \<times> directory \<times> (process_error + string list)"
where
  "generate_command_run B A D var fs f f' alerting_dir dashboard_dir =
     (case bind_r (load_verified_config B fs) (\<lambda>c.
           bind_r (verify_configured_multisig B c) (\<lambda>_. Inr c)) of
        Inl e \<Rightarrow> (alerting_dir, dashboard_dir, Inl e)
      | Inr c \<Rightarrow>
          (case generate_alerting A var f c alerting_dir of
             (d, Inl e) \<Rightarrow> (d, dashboard_dir, Inl (AlertingFailed e))
           | (d, Inr alerting_output) \<Rightarrow>
               (case generate_dashboard D (bi_program_events B) var f' c dashboard_dir of
                  (d', Inl e) \<Rightarrow> (d, d', Inl (DashboardFailed e))
                | (d', Inr dashboard_output) \<Rightarrow>
                    (d, d', Inr [''generated '' @ alerting_output, ''generated '' @ dashboard_output]))))"

section \<open>The backfill\<close>

text \<open>
  What the pipeline of a backfill does with the updates the crawls sent: the records its processors
  divert to the sink, its result, the metrics it ends with, and whether it was interrupted. The
  crawls of the accounts are the datasources; each counts its failures on the shared counter.
\<close>

record backfill_pipeline =
  bp_records :: "update list \<Rightarrow> string list"
  bp_result :: "string + unit"
  bp_snapshot :: metrics_snapshot
  bp_cancelled :: bool

record backfill_env =
  be_config_page :: "string + string"
  be_now :: u64
  be_crawl :: "pubkey \<Rightarrow> crawl_env"
  be_pipeline :: backfill_pipeline
  be_parse_json :: "string \<Rightarrow> string + json"
  be_push :: push_endpoint

definition backfill_rpc_url ::
  "(string \<Rightarrow> string option) \<Rightarrow> string option \<Rightarrow> process_error + string" where
  "backfill_rpc_url var rpc_url =
     (case rpc_url of
        Some url \<Rightarrow> Inr url
      | None \<Rightarrow>
          (case var ''RPC_URL'' of
             Some url \<Rightarrow> if url = [] then Inl RpcUrlMissing else Inr url
           | None \<Rightarrow> Inl RpcUrlMissing))"

definition backfill_limit :: "duration option \<Rightarrow> string + string \<Rightarrow> process_error + duration" where
  "backfill_limit loki_max_age page =
     (case loki_max_age of
        Some limit \<Rightarrow> Inr limit
      | None \<Rightarrow>
          (case loki_backfill_limit page of
             Inl e \<Rightarrow> Inl (LokiLimitsUnreadable e) | Inr limit \<Rightarrow> Inr limit))"

definition as_secs :: "duration \<Rightarrow> nat" where "as_secs d = d div 1000000000"

definition check_since :: "duration \<Rightarrow> duration \<Rightarrow> process_error + unit" where
  "check_since since loki_limit =
     ensure (\<not> loki_limit < since) (SinceExceedsLimit (as_secs since div 3600) (as_secs loki_limit div 3600))"

text \<open>The cutoff: the subtraction of two \<open>i64\<close>.\<close>

definition cutoff_unix :: "u64 \<Rightarrow> duration \<Rightarrow> int" where
  "cutoff_unix started_unix since = sint (started_unix - of_nat (as_secs since))"

definition crawl_account ::
  "codec \<Rightarrow> rpc_library \<Rightarrow> backfill_env \<Rightarrow> int \<Rightarrow> pubkey \<Rightarrow> crawl_state option" where
  "crawl_account C L env cutoff account =
     map_option fst (crawl C L (be_crawl env account) (key_str C account) cutoff 0 None
       \<lparr>crawl_failures = 0, fetched_count = 0, crawl_sent = []\<rparr>)"

definition crawl_accounts ::
  "codec \<Rightarrow> rpc_library \<Rightarrow> backfill_env \<Rightarrow> int \<Rightarrow> pubkey list \<Rightarrow> crawl_state list option" where
  "crawl_accounts C L env cutoff accounts = those (map (crawl_account C L env cutoff) accounts)"

text \<open>The counter is read with an expect: \<open>None\<close> is its panic.\<close>

definition carbon_failed_updates :: "metrics_snapshot \<Rightarrow> u64 option" where
  "carbon_failed_updates snapshot = carbon_counter snapshot ''carbon_updates_failed_total''"

text \<open>
  After the pipeline has ended: only a complete backfill lets the pusher push, by the end mark
  behind the records; in every other case it is aborted before it has pushed anything.
\<close>

definition finish_backfill ::
  "backfill_env \<Rightarrow> string \<Rightarrow> crawl_state list \<Rightarrow> loki_payload list \<times> (process_error + nat)" where
  "finish_backfill env run_label crawls =
     (let P = be_pipeline env;
          failed_crawls = sum_list (map crawl_failures crawls);
          records = bp_records P (concat (map crawl_sent crawls))
      in if bp_cancelled P then ([], Inl BackfillInterrupted)
         else case carbon_failed_updates (bp_snapshot P) of
           None \<Rightarrow> ([], Inl FailedUpdatesCounterMissing)
         | Some failed_updates \<Rightarrow>
             if bp_result P \<noteq> Inr () \<or> failed_crawls > 0 \<or> failed_updates > 0
             then ([], case bp_result P of
                 Inl e \<Rightarrow> Inl (PipelineFailed e)
               | Inr _ \<Rightarrow> Inl (BackfillIncomplete failed_crawls failed_updates))
             else (case push_records (be_parse_json env) (be_push env) run_label (map Some records @ [None]) of
                 (requests, accepted, Inl e) \<Rightarrow> (accepted, Inl (PushFailed e))
               | (requests, accepted, Inr pushed) \<Rightarrow> (accepted, Inr pushed)))"

text \<open>\<open>None\<close> where a crawl does not return.\<close>

definition run_backfill ::
  "build_info \<Rightarrow> rpc_library \<Rightarrow> (string \<Rightarrow> string option) \<Rightarrow> config_files \<Rightarrow> backfill_env \<Rightarrow> backfill_command
   \<Rightarrow> (loki_payload list \<times> (process_error + nat)) option"
where
  "run_backfill B L var fs env cmd =
     (case bind_r (load_verified_config B fs) (\<lambda>c.
           bind_r (backfill_rpc_url var (bc_rpc_url cmd)) (\<lambda>_.
           bind_r (backfill_limit (bc_loki_max_age cmd) (be_config_page env)) (\<lambda>limit.
           bind_r (check_since (bc_since cmd) limit) (\<lambda>_.
           verify_configured_multisig B c)))) of
        Inl e \<Rightarrow> Some ([], Inl e)
      | Inr multisig \<Rightarrow>
          map_option (finish_backfill env (show_u64 (be_now env)))
            (crawl_accounts (bi_codec B) L env (cutoff_unix (be_now env) (bc_since cmd))
              (monitored_addresses (bi_program_id B) (map_option vm_state_address multisig))))"

end
