(* ===== verification/Indexer_Safety.thy ===== *)
theory Indexer_Safety
  imports Indexer Config_Safety
begin

text \<open>
  What the program's commands guarantee: how a run wires the poller and the stream together, and
  that a backfill pushes all of a complete crawl or nothing.
\<close>

section \<open>A run\<close>

definition poll_sources :: "source list \<Rightarrow> rpc_polling_datasource list" where
  "poll_sources sources = List.map_filter (\<lambda>s. case s of PollSource ds \<Rightarrow> Some ds | _ \<Rightarrow> None) sources"

lemma poll_sources_simps [simp]:
  "poll_sources [] = []"
  "poll_sources (PollSource ds # ss) = ds # poll_sources ss"
  "poll_sources (StreamSource y # ss) = poll_sources ss"
  "poll_sources (RecordedStream y dv # ss) = poll_sources ss"
  by (simp_all add: poll_sources_def map_filter_simps)

text \<open>What the poller of a run is set up with.\<close>

definition poller_of :: "build_info \<Rightarrow> config \<Rightarrow> verified_multisig option \<Rightarrow> delivered_handle option
    \<Rightarrow> rpc_polling_datasource \<Rightarrow> bool" where
  "poller_of B c multisig delivered ds \<longleftrightarrow>
     rd_program_id ds = bi_program_id B \<and> rd_multisig_state ds = map_option vm_state_address multisig
     \<and> rd_poll_interval ds = seconds (unat (dc_poll_interval (cf_datasource c)))
     \<and> rd_replay_window ds = dc_replay_window (cf_datasource c) \<and> rd_delivered ds = delivered"

text \<open>
  What the stream of a run subscribes to: one filter for each address the poller monitors too, that
  takes the failed transactions with the others.
\<close>

definition follows :: "build_info \<Rightarrow> verified_multisig option \<Rightarrow> yellowstone_client \<Rightarrow> bool" where
  "follows B multisig stream \<longleftrightarrow>
     account_required ` ran (yc_filters stream) =
       (\<lambda>a. [key_str (bi_codec B) a]) ` set (monitored_addresses (bi_program_id B) (map_option vm_state_address multisig))
     \<and> (\<forall>f \<in> ran (yc_filters stream). filter_failed f = None \<and> account_include f = [] \<and> account_exclude f = [])"

text \<open>
  The stream alone is not recorded and nothing is pending for it; a poller behind a stream drains
  the very value the stream records to, new and open; and with a poller the pending updates are
  always processed.
\<close>

definition wired :: "build_info \<Rightarrow> config \<Rightarrow> verified_multisig option \<Rightarrow> source list \<Rightarrow> shutdown_strategy
    \<Rightarrow> delivered_heap \<Rightarrow> bool" where
  "wired B c multisig sources strategy heap \<longleftrightarrow>
     (\<exists>stream. sources = [StreamSource stream] \<and> strategy = Immediate \<and> follows B multisig stream)
     \<or> (\<exists>stream d ds. sources = [RecordedStream stream d, PollSource ds] \<and> strategy = ProcessPending
          \<and> follows B multisig stream \<and> poller_of B c multisig (Some d) ds
          \<and> d < length heap \<and> heap ! d = new_delivered)
     \<or> (\<exists>ds. sources = [PollSource ds] \<and> strategy = ProcessPending \<and> poller_of B c multisig None ds)"

lemma from_env_poller:
  assumes "from_env parse_url var p m i w dv j = Inr (Some ds, j')"
  shows "rd_program_id ds = p" "rd_multisig_state ds = m" "rd_poll_interval ds = i"
    "rd_replay_window ds = w" "rd_delivered ds = dv"
  using assms by (auto simp: from_env_def split: option.splits if_splits)

lemma ran_transaction_filters:
  "ran (transaction_filters C p m) = insert (requiring p) ((\<lambda>a. requiring (key_str C a)) ` set_option m)"
  by (cases m) (simp_all add: transaction_filters_def Let_def ran_map_upd insert_commute)

lemma yellowstone_follows:
  assumes "yellowstone (bi_codec B) var now p (map_option vm_state_address multisig) h = Inr (stream, ms, h')"
    and "p = key_str (bi_codec B) (bi_program_id B)"
  shows "follows B multisig stream"
proof -
  have "yc_filters stream = transaction_filters (bi_codec B) p (map_option vm_state_address multisig)"
    using assms(1) by (auto simp: yellowstone_def client_def Let_def result_iff split: if_splits prod.splits)
  moreover have "set (monitored_addresses (bi_program_id B) (map_option vm_state_address multisig)) =
      insert (bi_program_id B) (set_option (map_option vm_state_address multisig))"
    by (cases multisig) (simp_all add: monitored_addresses_def insert_commute)
  ultimately show ?thesis
    using assms(2) by (simp add: follows_def ran_transaction_filters requiring_def image_image)
qed

lemma recovery_wired:
  assumes "with_rpc_recovery B parse_url var stream c (map_option vm_state_address multisig) j heap
    = Inr (sources, strategy, ms, j', heap')"
    and "follows B multisig stream"
  shows "wired B c multisig sources strategy heap'"
proof -
  let ?from = "from_env parse_url var (bi_program_id B) (map_option vm_state_address multisig)
    (seconds (unat (dc_poll_interval (cf_datasource c)))) (dc_replay_window (cf_datasource c))
    (Some (length heap)) j"
  show ?thesis
  proof (cases ?from)
    case (Inr r)
    show ?thesis
    proof (cases "fst r")
      case (Some ds)
      then have "?from = Inr (Some ds, snd r)" using Inr by (cases r) simp
      then show ?thesis
        using assms from_env_poller
        by (auto simp: with_rpc_recovery_def wired_def poller_of_def allocate_delivered_def)
    next
      case None
      then have "?from = Inr (None, snd r)" using Inr by (cases r) simp
      then show ?thesis
        using assms by (auto simp: with_rpc_recovery_def wired_def allocate_delivered_def)
    qed
  qed (use assms in \<open>simp add: with_rpc_recovery_def allocate_delivered_def\<close>)
qed

lemma sources_wired:
  assumes "run_sources B parse_url var now c (map_option vm_state_address multisig) h j heap
    = Inr ((sources, strategy, ms, j', heap'), h')"
    and program: "cf_program_id c = key_str (bi_codec B) (bi_program_id B)"
  shows "wired B c multisig sources strategy heap'"
proof (cases "dc_mode (cf_datasource c)")
  case YellowstoneMode
  then show ?thesis
    using assms(1) recovery_wired yellowstone_follows [OF _ program]
    by (auto simp: run_sources_def result_iff split: sum.splits prod.splits)
next
  case RpcMode
  then show ?thesis
    using assms(1) from_env_poller
    by (fastforce simp: run_sources_def require_from_env_def wired_def poller_of_def
        split: sum.splits prod.splits option.splits)
qed

lemma run_command_parts:
  assumes "run_command B parse_url var now fs = Inr plan"
  obtains c multisig where "load_config (bi_config_library B) fs = Inr c"
    "verify_configured_multisig B c = Inr multisig"
    "pp_pipes plan = with_instruction_pipes multisig"
    "wired B c multisig (pp_sources plan) (pp_strategy plan) (pp_delivered plan)"
proof -
  obtain c multisig sources strategy ms j heap h where parts:
      "load_verified_config B fs = Inr c" "verify_configured_multisig B c = Inr multisig"
      "run_sources B parse_url var now c (map_option vm_state_address multisig) initial_health None []
         = Inr ((sources, strategy, ms, j, heap), h)"
      "plan = \<lparr>pp_sources = sources, pp_pipes = with_instruction_pipes multisig, pp_strategy = strategy,
         pp_metrics = install now @ ms, pp_health = mark_started h, pp_journal = j, pp_delivered = heap\<rparr>"
    using assms by (auto simp: run_command_def result_iff)
  have "load_config (bi_config_library B) fs = Inr c"
    "cf_program_id c = key_str (bi_codec B) (bi_program_id B)"
    using parts(1) by (auto simp: load_verified_config_def verify_decoder_target_def result_iff ensure_def
        split: sum.splits if_splits)
  then show ?thesis using parts sources_wired that by simp
qed

lemma loaded_ranges:
  assumes "load_config L fs = Inr c"
  shows "unat (dc_poll_interval (cf_datasource c)) \<le> 300" "unat (dc_replay_window (cf_datasource c)) \<le> 100000"
proof -
  have "validate L fs c = Inr ()"
    using assms by (auto simp: load_config_def result_iff split: sum.splits)
  then show "unat (dc_poll_interval (cf_datasource c)) \<le> 300" "unat (dc_replay_window (cf_datasource c)) \<le> 100000"
    by (simp_all add: loads_ready config_ready_def)
qed

text \<open>
  C28: A run is wired consistently: a stream subscribes to exactly the addresses a poller monitors, the
  program and the verified state account; a poller never runs with a shutdown that drops pending
  updates; behind a stream it drains the value the stream records to; and the filters of the pipes
  remember a transaction for longer than two polls are apart.
\<close>

theorem run_wires_poller:
  assumes "run_command B parse_url var now fs = Inr plan"
  shows "\<exists>c multisig. load_config (bi_config_library B) fs = Inr c
    \<and> verify_configured_multisig B c = Inr multisig
    \<and> wired B c multisig (pp_sources plan) (pp_strategy plan) (pp_delivered plan)
    \<and> pp_pipes plan = with_instruction_pipes multisig
    \<and> set (poll_sources (pp_sources plan))
        \<subseteq> {ds. 2 * rd_poll_interval ds < deduplication_ttl \<and> 2 * unat (rd_replay_window ds) < 2 ^ 64}"
proof -
  obtain c multisig where parts: "load_config (bi_config_library B) fs = Inr c"
      "verify_configured_multisig B c = Inr multisig" "pp_pipes plan = with_instruction_pipes multisig"
      "wired B c multisig (pp_sources plan) (pp_strategy plan) (pp_delivered plan)"
    by (rule run_command_parts [OF assms])
  have "2 * rd_poll_interval ds < deduplication_ttl \<and> 2 * unat (rd_replay_window ds) < 2 ^ 64"
    if "poller_of B c multisig dv ds" for dv ds
    using that loaded_ranges [OF parts(1)] by (simp add: poller_of_def deduplication_ttl_def)
  then have "set (poll_sources (pp_sources plan))
      \<subseteq> {ds. 2 * rd_poll_interval ds < deduplication_ttl \<and> 2 * unat (rd_replay_window ds) < 2 ^ 64}"
    using parts(4) by (auto simp: wired_def)
  then show ?thesis using parts by blast
qed

section \<open>A backfill\<close>

lemma received_until_end: "received_lines (map Some records @ [None]) = records"
  by (induction records) simp_all

definition crawls_of :: "build_info \<Rightarrow> rpc_library \<Rightarrow> backfill_env \<Rightarrow> backfill_command
    \<Rightarrow> verified_multisig option \<Rightarrow> crawl_state list option" where
  "crawls_of B L env cmd multisig =
     crawl_accounts (bi_codec B) L env (cutoff_unix (be_now env) (bc_since cmd))
       (monitored_addresses (bi_program_id B) (map_option vm_state_address multisig))"

text \<open>A backfill is complete when nothing failed on the way to the pusher.\<close>

definition complete :: "backfill_env \<Rightarrow> crawl_state list \<Rightarrow> bool" where
  "complete env crawls \<longleftrightarrow> \<not> bp_cancelled (be_pipeline env) \<and> bp_result (be_pipeline env) = Inr ()
     \<and> sum_list (map crawl_failures crawls) = 0 \<and> carbon_failed_updates (bp_snapshot (be_pipeline env)) = Some 0"

definition backfilled_records :: "backfill_env \<Rightarrow> crawl_state list \<Rightarrow> string list" where
  "backfilled_records env crawls = bp_records (be_pipeline env) (concat (map crawl_sent crawls))"

lemma finish_incomplete:
  "\<not> complete env crawls \<Longrightarrow> \<exists>e. finish_backfill env label crawls = ([], Inl e) \<and> (\<forall>m. e \<noteq> PushFailed m)"
  by (auto simp: finish_backfill_def complete_def Let_def word_gt_0 split: sum.splits option.splits)

lemma finish_complete:
  assumes "complete env crawls"
  shows "finish_backfill env label crawls =
    (case push_records (be_parse_json env) (be_push env) label
        (map Some (backfilled_records env crawls) @ [None]) of
       (requests, accepted, Inl e) \<Rightarrow> (accepted, Inl (PushFailed e))
     | (requests, accepted, Inr pushed) \<Rightarrow> (accepted, Inr pushed))"
  using assms by (simp add: finish_backfill_def complete_def backfilled_records_def Let_def)

lemma pushed_all:
  assumes "push_records parse post label (map Some records @ [None]) = (n, accepted, Inr pushed)"
  shows "pushed = length records \<and> concat (map stream_values accepted) =
      map (\<lambda>(t, l). (show_int (t * 1000000000), l)) (sort_key fst (map (\<lambda>l. (the (block_time_of parse l), l)) records))
    \<and> (\<forall>l \<in> set records. block_time_of parse l \<noteq> None)"
  using push_records_delivered [OF assms] by (auto simp: received_until_end split: if_splits)

lemma backfill_outcome:
  assumes "run_backfill B L var fs env cmd = Some (accepted, r)"
  shows "case r of
      Inr pushed \<Rightarrow> \<exists>c multisig crawls records. load_config (bi_config_library B) fs = Inr c
        \<and> verify_configured_multisig B c = Inr multisig \<and> crawls_of B L env cmd multisig = Some crawls
        \<and> complete env crawls \<and> records = backfilled_records env crawls \<and> pushed = length records
        \<and> concat (map stream_values accepted) = map (\<lambda>(t, l). (show_int (t * 1000000000), l))
            (sort_key fst (map (\<lambda>l. (the (block_time_of (be_parse_json env) l), l)) records))
    | Inl e \<Rightarrow> accepted = [] \<or> (\<exists>m. e = PushFailed m)"
proof -
  let ?checks = "bind_r (load_verified_config B fs) (\<lambda>c.
      bind_r (backfill_rpc_url var (bc_rpc_url cmd)) (\<lambda>_.
      bind_r (backfill_limit (bc_loki_max_age cmd) (be_config_page env)) (\<lambda>limit.
      bind_r (check_since (bc_since cmd) limit) (\<lambda>_.
      verify_configured_multisig B c))))"
  show ?thesis
  proof (cases ?checks)
    case (Inl e)
    then show ?thesis using assms by (auto simp: run_backfill_def)
  next
    case (Inr multisig)
    then obtain c where c: "load_verified_config B fs = Inr c" "verify_configured_multisig B c = Inr multisig"
      by (auto simp: result_iff)
    have load: "load_config (bi_config_library B) fs = Inr c"
      using c(1) by (auto simp: load_verified_config_def result_iff split: sum.splits)
    obtain crawls where crawls: "crawls_of B L env cmd multisig = Some crawls"
        "finish_backfill env (show_u64 (be_now env)) crawls = (accepted, r)"
      using assms Inr by (auto simp: run_backfill_def crawls_of_def)
    show ?thesis
    proof (cases "complete env crawls")
      case False
      then show ?thesis using finish_incomplete [OF False, of "show_u64 (be_now env)"] crawls(2) by auto
    next
      case True
      obtain n a q where q: "push_records (be_parse_json env) (be_push env) (show_u64 (be_now env))
          (map Some (backfilled_records env crawls) @ [None]) = (n, a, q)"
        by (cases "push_records (be_parse_json env) (be_push env) (show_u64 (be_now env))
          (map Some (backfilled_records env crawls) @ [None])") auto
      show ?thesis
      proof (cases q)
        case (Inl e)
        then show ?thesis using crawls(2) finish_complete [OF True] q by auto
      next
        case (Inr pushed)
        then have "r = Inr pushed" "a = accepted"
          using crawls(2) finish_complete [OF True] q by auto
        then show ?thesis
          using pushed_all [OF q [unfolded Inr]] load c(2) crawls(1) True by auto
      qed
    qed
  qed
qed

text \<open>
  C30: A backfill is all or nothing up to the push: when it succeeds, every account was crawled without
  a failure, every update was processed, and every record of theirs was pushed once in the order
  of block times; when it fails in any other way than by the push itself, Loki has nothing of it.
\<close>

theorem backfill_complete_or_nothing:
  assumes "run_backfill B L var fs env cmd = Some (accepted, r)"
  shows "case r of
      Inr pushed \<Rightarrow> \<exists>c multisig crawls records. load_config (bi_config_library B) fs = Inr c
        \<and> verify_configured_multisig B c = Inr multisig \<and> crawls_of B L env cmd multisig = Some crawls
        \<and> complete env crawls \<and> records = backfilled_records env crawls \<and> pushed = length records
        \<and> concat (map stream_values accepted) = map (\<lambda>(t, l). (show_int (t * 1000000000), l))
            (sort_key fst (map (\<lambda>l. (the (block_time_of (be_parse_json env) l), l)) records))
    | Inl e \<Rightarrow> accepted = [] \<or> (\<exists>m. e = PushFailed m)"
  by (rule backfill_outcome [OF assms])

section \<open>A small deployment\<close>

text \<open>The decimal codec, but for the program's own key, which reads as the configuration has it.\<close>

definition demo_codec :: codec where
  "demo_codec = decimal_codec\<lparr>key_str := (\<lambda>k. if k = 7 then ''key'' else show_u64 k),
     parse_key := (\<lambda>t. if t = ''key'' then Some 7 else parse_decimal t)\<rparr>"

lemma demo_codec_ok: "codec_ok demo_codec"
proof -
  have "\<not> list_all is_digit ''key''" by (simp add: is_digit_def)
  then have "show_u64 k \<noteq> ''key''" for k :: pubkey
    using show_nat_digits [of "unat k"] by (metis show_u64_def)
  then show ?thesis by (simp add: codec_ok_def demo_codec_def decimal_codec_def)
qed

definition demo_build :: build_info where
  "demo_build = \<lparr>bi_codec = demo_codec, bi_program_id = 7,
     bi_idl_sha256 = ''digest'', bi_sha256_hex = (\<lambda>_. ''digest''), bi_derive = (\<lambda>_ _. 0),
     bi_config_library = sample_library, bi_program_events = True\<rparr>"

definition demo_environment :: "string \<Rightarrow> string option" where
  "demo_environment k = (if k \<in> {''GEYSER_URL'', ''RPC_URL''} then Some ''https://node'' else None)"

lemma demo_config_verified: "load_verified_config demo_build sample_files = Inr sample_config"
proof -
  have "trim ''digest'' = ''digest''" by code_simp
  then have "verify_decoder_target demo_build sample_files sample_config = Inr ()"
    by (simp add: verify_decoder_target_def demo_build_def demo_codec_def sample_config_def sample_files_def
        idl_matches_decoder_def)
  then show ?thesis
    using sample_loads by (simp add: load_verified_config_def demo_build_def)
qed

lemma demo_multisig: "verify_configured_multisig demo_build sample_config = Inr None"
  by (simp add: verify_configured_multisig_def sample_config_def)

lemma demo_sources:
  "\<exists>x. run_sources demo_build (\<lambda>_. Some ''https'') demo_environment 100 sample_config None initial_health None [] = Inr x"
proof -
  have grace: "\<exists>g. probe_grace_seconds demo_environment = Inr g"
    by (simp add: probe_grace_seconds_def demo_environment_def non_empty_var_def)
  then show ?thesis
    by (auto simp: run_sources_def sample_config_def datasource_config_default_def yellowstone_def
        demo_environment_def with_rpc_recovery_def from_env_def valid_rpc_url_def client_def allocate_delivered_def Let_def
        split: prod.splits)
qed

lemma demo_runs: "\<exists>plan. run_command demo_build (\<lambda>_. Some ''https'') demo_environment 100 sample_files = Inr plan"
  using demo_sources by (auto simp: run_command_def demo_config_verified demo_multisig)

theorem run_wires_poller_witness:
  "\<exists>plan. run_command demo_build (\<lambda>_. Some ''https'') demo_environment 100 sample_files = Inr plan
    \<and> wired demo_build sample_config None (pp_sources plan) (pp_strategy plan) (pp_delivered plan)
    \<and> set (poll_sources (pp_sources plan))
        \<subseteq> {ds. 2 * rd_poll_interval ds < deduplication_ttl \<and> 2 * unat (rd_replay_window ds) < 2 ^ 64}"
proof -
  obtain plan where run: "run_command demo_build (\<lambda>_. Some ''https'') demo_environment 100 sample_files = Inr plan"
    using demo_runs by blast
  have "load_config (bi_config_library demo_build) sample_files = Inr sample_config"
    using demo_config_verified by (auto simp: load_verified_config_def result_iff split: sum.splits)
  with run_wires_poller [OF run] show ?thesis
    using run demo_multisig by auto
qed

definition demo_backfill :: backfill_command where
  "demo_backfill = \<lparr>bc_config_path = default_config_path, bc_since = 0, bc_rpc_url = Some ''https://node'',
     bc_loki_url = default_loki_url, bc_loki_max_age = Some (seconds 60)\<rparr>"

definition demo_record :: "string \<Rightarrow> string + json" where
  "demo_record l = Inr (JObject [(''block_time'', JNumber 5)])"

lemma demo_record_time: "block_time_of demo_record l = Some 5"
  by (simp add: block_time_of_def demo_record_def json_get_def om_get_def json_as_i64_def)

definition demo_backfill_env :: backfill_env where
  "demo_backfill_env = \<lparr>be_config_page = Inr [], be_now = 100,
     be_crawl = (\<lambda>_. \<lparr>ce_page = (\<lambda>_ _. Inr []), ce_cancelled = (\<lambda>_. False),
       ce_transactions = (\<lambda>s n. Inl (OtherClientError [])), ce_completion = id,
       ce_accepts = (\<lambda>_. True)\<rparr>),
     be_pipeline = \<lparr>bp_records = (\<lambda>_. [''line'']), bp_result = Inr (), bp_snapshot = [(''carbon_updates_failed_total'', [], 0)],
       bp_cancelled = False\<rparr>,
     be_parse_json = demo_record, be_push = (\<lambda>_ _. HttpResponse 204 [])\<rparr>"

lemma demo_push: "push_records demo_record (\<lambda>n p. HttpResponse 204 []) label [Some ''line'', None]
      = (1, [batch_payload label [(5, ''line'')]], Inr 1)"
  by (simp add: push_records_def flush_def flush_attempts.simps chunks.simps push_batch_limit_def
        http_success_def push_rate_limit_attempts_def demo_record_time)

lemma demo_backfills:
  "\<exists>accepted. run_backfill demo_build L demo_environment sample_files demo_backfill_env demo_backfill
    = Some (accepted, Inr 1)"
proof -
  have crawl: "crawl C L (be_crawl demo_backfill_env a) key cutoff 0 None st = Some (st, Inr ())" for C a key cutoff st
    by (subst crawl.simps) (simp add: demo_backfill_env_def)
  show ?thesis
    by (simp add: run_backfill_def demo_config_verified demo_multisig demo_backfill_def backfill_rpc_url_def
        backfill_limit_def check_since_def ensure_def monitored_addresses_def crawl_accounts_def
        crawl_account_def crawl finish_backfill_def)
      (simp add: demo_backfill_env_def demo_push carbon_failed_updates_def carbon_counter_def)
qed

theorem backfill_complete_or_nothing_witness:
  "\<forall>L. \<exists>accepted crawls.
      run_backfill demo_build L demo_environment sample_files demo_backfill_env demo_backfill
        = Some (accepted, Inr 1)
    \<and> complete demo_backfill_env crawls \<and> length (backfilled_records demo_backfill_env crawls) = 1"
proof
  fix L
  obtain accepted where run: "run_backfill demo_build L demo_environment sample_files demo_backfill_env demo_backfill
      = Some (accepted, Inr 1)"
    using demo_backfills by blast
  from backfill_complete_or_nothing [OF run] run show "\<exists>accepted crawls.
      run_backfill demo_build L demo_environment sample_files demo_backfill_env demo_backfill
        = Some (accepted, Inr 1)
    \<and> complete demo_backfill_env crawls \<and> length (backfilled_records demo_backfill_env crawls) = 1"
    by auto
qed

end
