(* ===== verification/Backfill_Crawl.thy ===== *)
theory Backfill_Crawl
  imports Backfill "HOL-Library.Multiset"
begin

text \<open>
  The crawl of a backfill against an endpoint that serves the history of an account: it returns,
  and fetches every transaction down to the cutoff exactly once. Each of them is sent to the
  pipeline or counted as a failure, in whatever order the concurrent fetches of a page complete.
\<close>

section \<open>An endpoint that serves a history\<close>

text \<open>The documented behaviour of \<open>getSignaturesForAddress\<close>, here with block times.\<close>

type_synonym time_history = "(int option \<times> signature) list"

definition encode_times :: "codec \<Rightarrow> time_history \<Rightarrow> time_page" where
  "encode_times C h = map (\<lambda>e. (fst e, sig_str C (snd e))) h"

definition serve_times :: "codec \<Rightarrow> time_history \<Rightarrow> string option \<Rightarrow> time_page" where
  "serve_times C h before =
     take crawl_page_limit
       (case before of
          None \<Rightarrow> encode_times C h
        | Some b \<Rightarrow> drop 1 (dropWhile (\<lambda>e. snd e \<noteq> b) (encode_times C h)))"

definition serves_times :: "codec \<Rightarrow> time_history \<Rightarrow> crawl_env \<Rightarrow> bool" where
  "serves_times C h env \<longleftrightarrow>
     distinct (map snd h) \<and> (\<forall>n before. ce_page env n before = Inr (serve_times C h before))"

text \<open>Nothing interrupts the crawl, and every fetch of a page completes once.\<close>

definition undisturbed :: "crawl_env \<Rightarrow> bool" where
  "undisturbed env \<longleftrightarrow> (\<forall>n. \<not> ce_cancelled env n) \<and> (\<forall>u. ce_accepts env u)
     \<and> (\<forall>ss. mset (ce_completion env ss) = mset ss)"

text \<open>The entries down to the cutoff; an entry without a block time does not stop the crawl.\<close>

definition recent_enough :: "int \<Rightarrow> int option \<times> signature \<Rightarrow> bool" where
  "recent_enough cutoff e \<longleftrightarrow> (case fst e of None \<Rightarrow> True | Some t \<Rightarrow> cutoff \<le> t)"

definition wanted :: "int \<Rightarrow> time_history \<Rightarrow> signature list" where
  "wanted cutoff h = map snd (takeWhile (recent_enough cutoff) h)"

definition crawled_update :: "rpc_library \<Rightarrow> crawl_env \<Rightarrow> signature \<Rightarrow> update option" where
  "crawled_update L env s =
     (case the (fst (fetch_transaction L (ce_transactions env s) s)) of
        Inl _ \<Rightarrow> None
      | Inr (sg, tx) \<Rightarrow> transaction_update L sg tx)"

abbreviation failed :: "rpc_library \<Rightarrow> crawl_env \<Rightarrow> signature list \<Rightarrow> signature list" where
  "failed L env ss \<equiv> filter (\<lambda>s. crawled_update L env s = None) ss"

section \<open>One page\<close>

lemma select_encoded:
  assumes "codec_ok C"
  shows "select_signatures C (encode_times C h) cutoff sigs
    = Inr (sigs @ wanted cutoff h, list_ex (\<lambda>e. \<not> recent_enough cutoff e) h)"
proof (induction h arbitrary: sigs)
  case Nil
  then show ?case by (simp add: encode_times_def wanted_def)
next
  case (Cons e h)
  then show ?case
    using codec_sig [OF assms]
    by (auto simp: encode_times_def wanted_def recent_enough_def split: option.splits)
qed

lemma mset_map_filter: "mset xs = mset ys \<Longrightarrow> mset (List.map_filter f xs) = mset (List.map_filter f ys)"
  by (simp add: List.map_filter_def)

lemma crawl_one_undisturbed:
  assumes "undisturbed env"
  shows "crawl_sent (crawl_one L env s st) = crawl_sent st @ List.map_filter (crawled_update L env) [s]"
    "crawl_failures (crawl_one L env s st) = crawl_failures st + of_nat (length (failed L env [s]))"
  using assms
  by (auto simp: crawl_one_def crawled_update_def undisturbed_def fail_crawl_def Let_def map_filter_simps
      split: sum.splits option.splits)

lemma crawl_page:
  assumes "undisturbed env"
  shows "crawl_sent (fold (crawl_one L env) ss st) = crawl_sent st @ List.map_filter (crawled_update L env) ss"
    "crawl_failures (fold (crawl_one L env) ss st) = crawl_failures st + of_nat (length (failed L env ss))"
proof (induction ss arbitrary: st)
  case (Cons s ss)
  case 1
  then show ?case using Cons(1) crawl_one_undisturbed(1) [OF assms] by (simp add: map_filter_simps split: option.splits)
  case 2
  then show ?case using Cons(2) crawl_one_undisturbed(2) [OF assms] by simp
qed (simp_all add: map_filter_simps)

section \<open>The whole crawl\<close>

lemma serve_after:
  assumes "codec_ok C" "distinct (map snd (p @ r))" "p \<noteq> []"
  shows "drop 1 (dropWhile (\<lambda>e. snd e \<noteq> sig_str C (snd (last p))) (encode_times C (p @ r))) = encode_times C r"
  using assms(2,3)
proof (induction p)
  case (Cons e p)
  show ?case
  proof (cases "p = []")
    case True
    then show ?thesis by (simp add: encode_times_def)
  next
    case False
    then have "snd (last p) \<noteq> snd e"
      using Cons.prems(1) by (metis (no_types, lifting) append_Cons distinct.simps(2) image_eqI
          last_in_set list.set_map list.simps(9) map_append Un_iff set_append)
    then show ?thesis
      using Cons False codec_sig_inj [OF assms(1)] by (auto simp: encode_times_def inj_eq)
  qed
qed simp

lemma encode_times_simps [simp]:
  "encode_times C h = [] \<longleftrightarrow> h = []" "length (encode_times C h) = length h"
  "take n (encode_times C h) = encode_times C (take n h)"
  by (simp_all add: encode_times_def take_map)

lemma wanted_stop:
  assumes "list_ex (\<lambda>e. \<not> recent_enough cutoff e) (take n h)"
  shows "wanted cutoff (take n h) = wanted cutoff h"
proof -
  obtain e where e: "e \<in> set (take n h)" "\<not> recent_enough cutoff e"
    using assms by (auto simp: list_ex_iff)
  have "takeWhile (recent_enough cutoff) (take n h @ drop n h) = takeWhile (recent_enough cutoff) (take n h)"
    by (rule takeWhile_append1 [where x = e]) (use e in auto)
  then show ?thesis by (simp add: wanted_def)
qed

lemma wanted_go:
  "\<not> list_ex (\<lambda>e. \<not> recent_enough cutoff e) p \<Longrightarrow> wanted cutoff (p @ r) = map snd p @ wanted cutoff r"
  by (simp add: wanted_def list_ex_iff takeWhile_append2)

definition crawled :: "rpc_library \<Rightarrow> crawl_env \<Rightarrow> signature list \<Rightarrow> crawl_state \<Rightarrow> crawl_state \<Rightarrow> bool" where
  "crawled L env ss st st' \<longleftrightarrow>
     mset (crawl_sent st') = mset (crawl_sent st) + mset (List.map_filter (crawled_update L env) ss)
     \<and> crawl_failures st' = crawl_failures st + of_nat (length (failed L env ss))"

lemma crawled_page:
  assumes "undisturbed env"
  shows "crawled L env ss st (fold (crawl_one L env) (ce_completion env ss) st)"
proof -
  have same: "mset (ce_completion env ss) = mset ss" using assms by (simp add: undisturbed_def)
  then have "mset (failed L env (ce_completion env ss)) = mset (failed L env ss)" by simp
  then have "length (failed L env (ce_completion env ss)) = length (failed L env ss)"
    by (rule mset_eq_length)
  then show ?thesis
    using mset_map_filter [OF same, of "crawled_update L env"] by (simp add: crawled_def crawl_page [OF assms])
qed

lemma map_filter_append: "List.map_filter f (xs @ ys) = List.map_filter f xs @ List.map_filter f ys"
  by (simp add: List.map_filter_def)

lemma crawled_trans: "crawled L env ss a b \<Longrightarrow> crawled L env ts b c \<Longrightarrow> crawled L env (ss @ ts) a c"
  by (simp add: crawled_def map_filter_append ac_simps)

lemma crawl_steps:
  assumes "\<not> ce_cancelled env n" "ce_page env n (map_option (sig_str C) before) = Inr page" "page \<noteq> []"
    and "select_signatures C page cutoff [] = Inr (ss, reached)"
  shows "crawl C L env account cutoff n before st =
    (if reached \<or> length page < crawl_page_limit \<or> ss = []
     then Some (fold (crawl_one L env) (ce_completion env ss) st, Inr ())
     else crawl C L env account cutoff (Suc n) (Some (last ss)) (fold (crawl_one L env) (ce_completion env ss) st))"
  using assms by (subst crawl.simps) (simp add: Let_def)

lemma crawl_from:
  assumes ok: "codec_ok C" and calm: "undisturbed env" and serves: "serves_times C (p @ r) env"
    and before: "before = (if p = [] then None else Some (snd (last p)))"
  shows "\<exists>st'. crawl C L env account cutoff n before st = Some (st', Inr ())
    \<and> crawled L env (wanted cutoff r) st st'"
  using serves before
proof (induction "length r" arbitrary: p r n before st rule: less_induct)
  case less
  let ?page = "take crawl_page_limit r" and ?old = "list_ex (\<lambda>e. \<not> recent_enough cutoff e)"
  have go: "\<not> ce_cancelled env n" using calm by (simp add: undisturbed_def)
  have dist: "distinct (map snd (p @ r))" using less.prems(1) by (simp add: serves_times_def)
  have page: "ce_page env n (map_option (sig_str C) before) = Inr (encode_times C ?page)"
    using less.prems serve_after [OF ok dist]
    by (auto simp: serves_times_def serve_times_def)
  show ?case
  proof (cases "r = []")
    case True
    then show ?thesis
      using go page by (subst crawl.simps) (simp add: crawled_def wanted_def map_filter_simps)
  next
    case False
    then have some: "encode_times C ?page \<noteq> []" by (simp add: crawl_page_limit_def)
    let ?ss = "wanted cutoff ?page"
    let ?st = "fold (crawl_one L env) (ce_completion env ?ss) st"
    have first: "crawled L env ?ss st ?st" by (rule crawled_page [OF calm])
    have step: "crawl C L env account cutoff n before st =
      (if ?old ?page \<or> length ?page < crawl_page_limit \<or> ?ss = [] then Some (?st, Inr ())
       else crawl C L env account cutoff (Suc n) (Some (last ?ss)) ?st)"
      using crawl_steps [OF go page some select_encoded [OF ok, of _ cutoff "[]", simplified]] by simp
    show ?thesis
    proof (cases "?old ?page")
      case True
      then show ?thesis using step first wanted_stop [OF True] by simp
    next
      case fresh: False
      then have ss: "?ss = map snd ?page"
        using wanted_go [OF fresh, of "[]"] by (simp add: wanted_def)
      show ?thesis
      proof (cases "length ?page < crawl_page_limit")
        case True
        then show ?thesis using step first by auto
      next
        case full: False
        let ?rest = "drop crawl_page_limit r"
        have nonempty: "?page \<noteq> []" "?ss \<noteq> []" using False ss by (auto simp: crawl_page_limit_def)
        have shorter: "length ?rest < length r" using False by (simp add: crawl_page_limit_def)
        have split: "(p @ ?page) @ ?rest = p @ r" by simp
        have last: "Some (last ?ss) = (if p @ ?page = [] then None else Some (snd (last (p @ ?page))))"
          using nonempty ss by (simp add: last_map)
        have "serves_times C ((p @ ?page) @ ?rest) env" using less.prems(1) split by simp
        then have "\<exists>st'. crawl C L env account cutoff (Suc n) (Some (last ?ss)) ?st = Some (st', Inr ())
            \<and> crawled L env (wanted cutoff ?rest) ?st st'"
          by (rule less.hyps [OF shorter _ last])
        then obtain st' where st': "crawl C L env account cutoff (Suc n) (Some (last ?ss)) ?st = Some (st', Inr ())"
            "crawled L env (wanted cutoff ?rest) ?st st'"
          by blast
        have "wanted cutoff r = ?ss @ wanted cutoff ?rest"
          using wanted_go [OF fresh, of ?rest] ss by simp
        then show ?thesis
          using st' step fresh full nonempty crawled_trans [OF first st'(2)] by simp
      qed
    qed
  qed
qed

text \<open>
  A crawl that is not disturbed returns without an error and sends or counts as failed, once each,
  exactly the transactions of the history down to the cutoff.
\<close>

lemma crawl_history:
  assumes "codec_ok C" "undisturbed env" "serves_times C h env"
  shows "\<exists>st'. crawl C L env account cutoff 0 None st = Some (st', Inr ()) \<and> crawled L env (wanted cutoff h) st st'"
  using crawl_from [OF assms(1,2), of "[]" h None] assms(3) by simp

lemma crawled_update_signature:
  assumes "crawled_update L env s = Some u"
  shows "\<exists>tx. u = TransactionUpdate tx \<and> tu_signature tx = s"
proof -
  obtain f where f: "fst (fetch_transaction L (ce_transactions env s) s) = Some f"
      "case f of Inr (s', tx) \<Rightarrow> s' = s | Inl err \<Rightarrow> True"
    using fetch_attempts_outcome [of 1 L "ce_transactions env s" s]
    by (auto simp: fetch_transaction_def transaction_fetch_attempts_def split: sum.splits)
  then show ?thesis
    using assms by (auto simp: crawled_update_def transaction_update_Some split: sum.splits prod.splits)
qed

end
