(* ===== verification/Indexer_Backfill.thy ===== *)
theory Indexer_Backfill
  imports Indexer_Safety Backfill_Crawl Poll_Safety
begin

text \<open>
  The backfill from end to end: against endpoints that serve the histories of the monitored
  accounts it returns, and when it succeeds the pipeline was given every transaction of every
  account down to the cutoff, once per account.
\<close>

section \<open>The crawls of the accounts\<close>

lemma crawl_account_history:
  assumes "codec_ok C" "undisturbed (be_crawl env a)" "serves_times C h (be_crawl env a)"
  obtains st where "crawl_account C L env cutoff a = Some st"
    "mset (crawl_sent st) = mset (List.map_filter (crawled_update L (be_crawl env a)) (wanted cutoff h))"
    "crawl_failures st = of_nat (length (failed L (be_crawl env a) (wanted cutoff h)))"
  using crawl_history [OF assms] that by (fastforce simp: crawl_account_def crawled_def)

lemma crawl_accounts_history:
  assumes "codec_ok C" "\<And>a. undisturbed (be_crawl env a)" "\<And>a. serves_times C (h a) (be_crawl env a)"
  shows "\<exists>crawls. crawl_accounts C L env cutoff as = Some crawls
    \<and> mset (concat (map crawl_sent crawls)) =
        mset (concat (map (\<lambda>a. List.map_filter (crawled_update L (be_crawl env a)) (wanted cutoff (h a))) as))
    \<and> sum_list (map crawl_failures crawls) =
        of_nat (length (concat (map (\<lambda>a. failed L (be_crawl env a) (wanted cutoff (h a))) as)))"
proof (induction "as")
  case (Cons a as)
  obtain st where st: "crawl_account C L env cutoff a = Some st"
      "mset (crawl_sent st) = mset (List.map_filter (crawled_update L (be_crawl env a)) (wanted cutoff (h a)))"
      "crawl_failures st = of_nat (length (failed L (be_crawl env a) (wanted cutoff (h a))))"
    by (rule crawl_account_history [OF assms]) blast
  with Cons.IH show ?case by (auto simp: crawl_accounts_def)
qed (simp add: crawl_accounts_def)

lemma sent_signatures_of_all:
  "failed L env ss = [] \<Longrightarrow>
   map update_signature (List.map_filter (crawled_update L env) ss) = map Some ss"
proof (induction ss)
  case (Cons s ss)
  then obtain u where "crawled_update L env s = Some u" by (auto split: if_splits)
  then show ?case
    using Cons crawled_update_signature [of L env s u] by (auto simp: map_filter_simps update_signature_def)
qed (simp add: map_filter_simps)

lemma sent_signatures_of_accounts:
  "\<forall>a \<in> set as. failed L (e a) (ss a) = [] \<Longrightarrow>
   map update_signature (concat (map (\<lambda>a. List.map_filter (crawled_update L (e a)) (ss a)) as))
     = map Some (concat (map ss as))"
  by (induction "as") (simp_all add: sent_signatures_of_all)

lemma monitored_at_most_two: "length (monitored_addresses p m) \<le> 2"
proof -
  have "length (monitored_addresses p m) \<le> length (sort (p # (case m of None \<Rightarrow> [] | Some a \<Rightarrow> [a])))"
    unfolding monitored_addresses_def by (rule remdups_adj_length)
  also have "\<dots> \<le> 2" by (cases m) simp_all
  finally show ?thesis .
qed

lemma sum_at_most_two:
  fixes f :: "'a \<Rightarrow> nat"
  assumes "length as \<le> 2" "\<And>a. f a < 2 ^ 31"
  shows "sum_list (map f as) < 2 ^ 32"
proof -
  have "sum_list (map f as) \<le> sum_list (map (\<lambda>_. 2 ^ 31 - 1) as)"
  proof (rule sum_list_mono)
    fix a
    show "f a \<le> 2 ^ 31 - 1" using assms(2) [of a] by simp
  qed
  also have "\<dots> = length as * (2 ^ 31 - 1)" by (simp only: sum_list_triv of_nat_id)
  also have "\<dots> \<le> 2 * (2 ^ 31 - 1)" using assms(1) by (rule mult_le_mono1)
  also have "\<dots> < 2 ^ 32" by simp
  finally show ?thesis .
qed

lemma failures_counted:
  assumes "\<And>a. length (h a) < 2 ^ 31" "length as \<le> 2"
    and "(of_nat (length (concat (map (\<lambda>a. failed L (e a) (wanted cutoff (h a))) as))) :: u32) = 0"
  shows "\<forall>a \<in> set as. failed L (e a) (wanted cutoff (h a)) = []"
proof -
  let ?n = "\<lambda>a. length (failed L (e a) (wanted cutoff (h a)))"
  have "?n a < 2 ^ 31" for a
  proof -
    have "?n a \<le> length (wanted cutoff (h a))" by (rule length_filter_le)
    also have "\<dots> \<le> length (h a)" by (simp add: wanted_def length_takeWhile_le)
    finally show ?thesis using assms(1) by (rule le_less_trans)
  qed
  then have "sum_list (map ?n as) < 2 ^ 32"
    by (rule sum_at_most_two [OF assms(2)])
  then have "unat (of_nat (sum_list (map ?n as)) :: u32) = sum_list (map ?n as)"
    by (simp add: unat_of_nat take_bit_nat_eq_self)
  moreover have "(of_nat (sum_list (map ?n as)) :: u32) = 0"
    using assms(3) by (simp only: length_concat map_map comp_def)
  ultimately have "sum_list (map ?n as) = 0" by simp
  then show ?thesis by simp
qed

section \<open>The whole backfill\<close>

text \<open>
  C29: A backfill reaches back to its cutoff: against endpoints that serve the history of each account it
  always returns, and when it succeeds, the updates its pipeline processed are exactly those of
  the transactions down to the cutoff, each account's once, and every record of them was pushed.
\<close>

theorem backfill_covers_history:
  assumes "codec_ok (bi_codec B)" "\<And>a. undisturbed (be_crawl env a)"
    and "\<And>a. serves_times (bi_codec B) (h a) (be_crawl env a)" "\<And>a. length (h a) < 2 ^ 31"
  shows "\<exists>accepted r. run_backfill B L var fs env cmd = Some (accepted, r)
    \<and> (\<forall>pushed. r = Inr pushed \<longrightarrow> (\<exists>c multisig crawls. load_config (bi_config_library B) fs = Inr c
         \<and> verify_configured_multisig B c = Inr multisig \<and> crawls_of B L env cmd multisig = Some crawls
         \<and> pushed = length (backfilled_records env crawls)
         \<and> mset (map update_signature (concat (map crawl_sent crawls))) =
             mset (map Some (concat (map (\<lambda>a. wanted (cutoff_unix (be_now env) (bc_since cmd)) (h a))
               (monitored_addresses (bi_program_id B) (map_option vm_state_address multisig)))))))"
proof -
  let ?cutoff = "cutoff_unix (be_now env) (bc_since cmd)"
  let ?as = "\<lambda>multisig. monitored_addresses (bi_program_id B) (map_option vm_state_address multisig)"
  note found = crawl_accounts_history [OF assms(1-3)]
  have "\<forall>as. \<exists>crawls. crawl_accounts (bi_codec B) L env ?cutoff as = Some crawls" using found by blast
  then obtain g where g: "\<And>as. crawl_accounts (bi_codec B) L env ?cutoff as = Some (g as)" by metis
  have "\<exists>x. run_backfill B L var fs env cmd = Some x"
    unfolding run_backfill_def g by (simp split: sum.split)
  then obtain accepted r where run: "run_backfill B L var fs env cmd = Some (accepted, r)" by auto
  have "\<exists>c multisig crawls. load_config (bi_config_library B) fs = Inr c
         \<and> verify_configured_multisig B c = Inr multisig \<and> crawls_of B L env cmd multisig = Some crawls
         \<and> pushed = length (backfilled_records env crawls)
         \<and> mset (map update_signature (concat (map crawl_sent crawls))) =
             mset (map Some (concat (map (\<lambda>a. wanted ?cutoff (h a)) (?as multisig))))" if r: "r = Inr pushed" for pushed
  proof -
    obtain c multisig crawls where ended: "load_config (bi_config_library B) fs = Inr c"
        "verify_configured_multisig B c = Inr multisig" "crawls_of B L env cmd multisig = Some crawls"
        "complete env crawls" "pushed = length (backfilled_records env crawls)"
      using backfill_outcome [OF run] r by auto
    let ?accounts = "?as multisig" and ?e = "be_crawl env"
    have crawls: "mset (concat (map crawl_sent crawls)) =
          mset (concat (map (\<lambda>a. List.map_filter (crawled_update L (?e a)) (wanted ?cutoff (h a))) ?accounts))"
        "sum_list (map crawl_failures crawls) =
          of_nat (length (concat (map (\<lambda>a. failed L (?e a) (wanted ?cutoff (h a))) ?accounts)))"
      using found [of L ?cutoff ?accounts] ended(3) by (auto simp: crawls_of_def)
    have "\<forall>a \<in> set ?accounts. failed L (?e a) (wanted ?cutoff (h a)) = []"
      by (rule failures_counted [OF assms(4) monitored_at_most_two])
        (use crawls(2) ended(4) in \<open>simp add: complete_def\<close>)
    then have same: "map update_signature (concat (map (\<lambda>a. List.map_filter (crawled_update L (?e a)) (wanted ?cutoff (h a))) ?accounts))
        = map Some (concat (map (\<lambda>a. wanted ?cutoff (h a)) ?accounts))"
      by (rule sent_signatures_of_accounts)
    have "mset (map update_signature (concat (map crawl_sent crawls))) = mset (map update_signature
        (concat (map (\<lambda>a. List.map_filter (crawled_update L (?e a)) (wanted ?cutoff (h a))) ?accounts)))"
      by (simp only: mset_map crawls(1))
    then have "mset (map update_signature (concat (map crawl_sent crawls)))
        = mset (map Some (concat (map (\<lambda>a. wanted ?cutoff (h a)) ?accounts)))"
      by (simp only: same)
    then show ?thesis using ended by blast
  qed
  then show ?thesis using run by blast
qed

section \<open>A small history\<close>

text \<open>Three transactions of the program, one of them before the cutoff; the fetches complete backwards.\<close>

definition past_history :: "pubkey \<Rightarrow> time_history" where
  "past_history a = (if a = 7 then [(Some 120, 9), (Some 100, 8), (Some 50, 3)] else [])"

definition past_answer :: encoded_transaction where
  "past_answer = \<lparr>et_slot = 100, et_block_time = Some 120, et_meta = Some \<lparr>um_inner_instructions = SerSome [],
     um_log_messages = SerSome [], um_rest = []\<rparr>, et_transaction = []\<rparr>"

definition past_library :: rpc_library where
  "past_library = \<lparr>decode_transaction = Some, convert_meta = (\<lambda>m. Inr \<lparr>tm_failed = False,
     tm_log_messages = None, tm_rest = []\<rparr>), unsupported_version = 0\<rparr>"

definition past_crawl :: "pubkey \<Rightarrow> crawl_env" where
  "past_crawl a = \<lparr>ce_page = (\<lambda>_ before. Inr (serve_times demo_codec (past_history a) before)),
     ce_cancelled = (\<lambda>_. False), ce_transactions = (\<lambda>s n. Inr past_answer),
     ce_completion = rev, ce_accepts = (\<lambda>_. True)\<rparr>"

definition past_env :: backfill_env where
  "past_env = demo_backfill_env\<lparr>be_crawl := past_crawl\<rparr>"

lemma past_crawled: "crawled_update past_library (past_crawl a) s \<noteq> None"
proof -
  have "fst (fetch_transaction past_library (ce_transactions (past_crawl a) s) s) = Some (Inr (s, past_answer))"
    by (simp add: fetch_transaction_def fetch_attempts.simps transaction_fetch_attempts_def past_crawl_def)
  then show ?thesis
    by (simp add: crawled_update_def transaction_update_def past_library_def past_answer_def)
qed

lemma past_served:
  "codec_ok (bi_codec demo_build)" "undisturbed (be_crawl past_env a)"
  "serves_times (bi_codec demo_build) (past_history a) (be_crawl past_env a)"
  "length (past_history a) < 2 ^ 31"
  by (simp_all add: demo_build_def demo_codec_ok undisturbed_def past_env_def past_crawl_def
      serves_times_def past_history_def)

lemma past_succeeds:
  assumes "run_backfill demo_build past_library demo_environment sample_files past_env demo_backfill
    = Some (accepted, r)"
  shows "r = Inr 1"
proof -
  have none: "failed past_library (be_crawl past_env a) ss = []" for a ss
    using past_crawled by (simp add: past_env_def)
  obtain crawls where crawls: "crawl_accounts (bi_codec demo_build) past_library past_env
        (cutoff_unix (be_now past_env) (bc_since demo_backfill))
        (monitored_addresses (bi_program_id demo_build) None) = Some crawls"
      "sum_list (map crawl_failures crawls) = 0"
    using crawl_accounts_history [OF past_served(1-3), of past_library
        "cutoff_unix (be_now past_env) (bc_since demo_backfill)"
        "monitored_addresses (bi_program_id demo_build) None"]
    by (auto simp: none length_concat comp_def)
  have "finish_backfill past_env label crawls = ([batch_payload label [(5, ''line'')]], Inr 1)" for label
    using crawls(2) by (simp add: finish_backfill_def past_env_def demo_backfill_env_def demo_push
        carbon_failed_updates_def carbon_counter_def)
  moreover have "run_backfill demo_build past_library demo_environment sample_files past_env demo_backfill
      = Some (finish_backfill past_env (show_u64 (be_now past_env)) crawls)"
    using crawls(1) by (simp add: run_backfill_def demo_config_verified demo_multisig demo_backfill_def
        backfill_rpc_url_def backfill_limit_def check_since_def ensure_def)
  ultimately show ?thesis using assms by simp
qed

theorem backfill_covers_history_witness:
  "\<exists>accepted crawls.
      run_backfill demo_build past_library demo_environment sample_files past_env
        demo_backfill = Some (accepted, Inr 1)
    \<and> crawls_of demo_build past_library past_env demo_backfill None = Some crawls
    \<and> mset (map update_signature (concat (map crawl_sent crawls))) = {#Some 8, Some 9#}"
proof -
  have accounts: "monitored_addresses 7 None = [7]" by (simp add: monitored_addresses_def)
  have "wanted 100 (past_history 7) = [9, 8]" by (simp add: wanted_def past_history_def recent_enough_def)
  moreover have "cutoff_unix 100 0 = 100" by (simp add: cutoff_unix_def as_secs_def)
  moreover have "be_now past_env = 100" "bc_since demo_backfill = 0" "bi_program_id demo_build = 7"
    by (simp_all add: past_env_def demo_backfill_env_def demo_backfill_def demo_build_def)
  moreover obtain accepted r where run: "run_backfill demo_build past_library demo_environment sample_files
      past_env demo_backfill = Some (accepted, r)"
    and covers: "\<forall>pushed. r = Inr pushed \<longrightarrow>
      (\<exists>c multisig crawls. load_config (bi_config_library demo_build) sample_files = Inr c
         \<and> verify_configured_multisig demo_build c = Inr multisig
         \<and> crawls_of demo_build past_library past_env demo_backfill multisig = Some crawls
         \<and> pushed = length (backfilled_records past_env crawls)
         \<and> mset (map update_signature (concat (map crawl_sent crawls))) =
             mset (map Some (concat (map (\<lambda>a. wanted (cutoff_unix (be_now past_env) (bc_since demo_backfill))
                 (past_history a))
               (monitored_addresses (bi_program_id demo_build) (map_option vm_state_address multisig))))))"
    using backfill_covers_history [OF past_served, of past_library demo_environment sample_files demo_backfill]
    by (elim exE conjE) (rule that)
  moreover have one: "r = Inr 1" by (rule past_succeeds [OF run])
  moreover obtain c multisig crawls where loaded: "load_config (bi_config_library demo_build) sample_files = Inr c"
      "verify_configured_multisig demo_build c = Inr multisig"
      "crawls_of demo_build past_library past_env demo_backfill multisig = Some crawls"
      and sent: "mset (map update_signature (concat (map crawl_sent crawls))) =
             mset (map Some (concat (map (\<lambda>a. wanted (cutoff_unix (be_now past_env) (bc_since demo_backfill))
                 (past_history a))
               (monitored_addresses (bi_program_id demo_build) (map_option vm_state_address multisig)))))"
    using covers [rule_format, OF one] by blast
  moreover have none: "multisig = None"
    using loaded sample_loads demo_multisig by (simp add: demo_build_def)
  ultimately have "mset (map update_signature (concat (map crawl_sent crawls))) = {#Some 8, Some 9#}"
    using accounts by (simp add: add_mset_commute)
  then show ?thesis using run one loaded(3) none by blast
qed

end
