(* ===== verification/Poll_Coverage.thy ===== *)
theory Poll_Coverage
  imports Runtime_Safety
begin

text \<open>
  No gaps: over any run of polls against histories that grow, every entry of a monitored address
  above the first replay floor is settled (delivered, sent, quarantined or known at the start) or
  still above the replay floor of a cursor, so that the next poll discovers it. A poll that
  succeeds and fetches everything settles it all.
\<close>

section \<open>Coverage\<close>

text \<open>
  What the endpoint has shown so far: the history of each address, and the highest slot among the
  heads and the entries. An entry may enter the index late, but not by more than the replay window
  behind what was shown: the documented purpose of the window.
\<close>

type_synonym histories = "pubkey \<Rightarrow> discovered_signature list"

definition serves_all ::
  "codec \<Rightarrow> pubkey list \<Rightarrow> histories \<Rightarrow> poll_env \<Rightarrow> bool" where
  "serves_all C addresses hist env \<longleftrightarrow> (\<forall>a \<in> set addresses. serves_history C (hist a) (pe_pages env a)
     \<and> sorted_wrt (\<lambda>x y. ds_slot y \<le> ds_slot x) (hist a))"

definition grows ::
  "slot \<Rightarrow> pubkey list \<Rightarrow> (pubkey \<Rightarrow> slot) \<Rightarrow> (pubkey \<Rightarrow> slot) \<Rightarrow> histories \<Rightarrow> histories \<Rightarrow> bool" where
  "grows rw addresses start seen hist hist' \<longleftrightarrow> (\<forall>a \<in> set addresses. set (hist a) \<subseteq> set (hist' a)
     \<and> (\<forall>d \<in> set (hist' a). d \<in> set (hist a) \<or> ds_slot d \<le> start a
          \<or> sat_sub (seen a) rw < ds_slot d))"

definition seen_after :: "poll_env \<Rightarrow> histories \<Rightarrow> (pubkey \<Rightarrow> slot) \<Rightarrow> pubkey \<Rightarrow> slot" where
  "seen_after env hist seen a =
     fold max (map ds_slot (hist a)) (max (seen a) (case pe_head env of Inr head \<Rightarrow> head | Inl _ \<Rightarrow> 0))"

text \<open>An entry the next poll discovers; without a cursor the first poll decides.\<close>

definition above_replay ::
  "slot \<Rightarrow> (pubkey \<Rightarrow> slot) \<Rightarrow> (pubkey \<Rightarrow> address_cursor option) \<Rightarrow> pubkey
   \<Rightarrow> discovered_signature \<Rightarrow> bool" where
  "above_replay rw start cur a d \<longleftrightarrow>
     (case cur a of None \<Rightarrow> start a | Some c \<Rightarrow> replay_floor c rw) < ds_slot d"

definition discoverable ::
  "slot \<Rightarrow> pubkey list \<Rightarrow> (pubkey \<Rightarrow> slot) \<Rightarrow> histories \<Rightarrow> (pubkey \<Rightarrow> address_cursor option)
   \<Rightarrow> signature \<Rightarrow> bool" where
  "discoverable rw addresses start hist cur s \<longleftrightarrow>
     (\<exists>a \<in> set addresses. \<exists>d \<in> set (hist a). ds_signature d = s \<and> above_replay rw start cur a d)"

definition covered ::
  "slot \<Rightarrow> pubkey list \<Rightarrow> (pubkey \<Rightarrow> slot) \<Rightarrow> histories \<Rightarrow> (pubkey \<Rightarrow> address_cursor option)
   \<Rightarrow> signature set \<Rightarrow> bool" where
  "covered rw addresses start hist cur settled \<longleftrightarrow>
     (\<forall>a \<in> set addresses. \<forall>d \<in> set (hist a). start a < ds_slot d \<longrightarrow>
        ds_signature d \<in> settled \<or> discoverable rw addresses start hist cur (ds_signature d))"

definition cursors_seen ::
  "pubkey list \<Rightarrow> (pubkey \<Rightarrow> slot) \<Rightarrow> (pubkey \<Rightarrow> address_cursor option) \<Rightarrow> bool" where
  "cursors_seen addresses seen cur \<longleftrightarrow>
     (\<forall>a \<in> set addresses. \<forall>c. cur a = Some c \<longrightarrow> scanned_slot c \<le> seen a)"

text \<open>The floor of an address that a poll starts to follow.\<close>

definition starts_from ::
  "codec \<Rightarrow> slot \<Rightarrow> pubkey list \<Rightarrow> (pubkey \<Rightarrow> slot) \<Rightarrow> poll_env \<Rightarrow> poll_world \<Rightarrow> bool" where
  "starts_from C rw addresses start env w \<longleftrightarrow>
     (\<forall>a \<in> set addresses. cursor_of C w a = None \<longrightarrow>
        (case pe_head env of Inr head \<Rightarrow> sat_sub (sat_sub head rw) rw \<le> start a | Inl _ \<Rightarrow> True))"

lemma covered_settled:
  "covered rw addresses start hist cur settled \<Longrightarrow> settled \<subseteq> settled' \<Longrightarrow>
    covered rw addresses start hist cur settled'"
  unfolding covered_def by blast

text \<open>Growing histories stay covered: what is new lies above the floors of the cursors.\<close>

lemma covered_grows:
  assumes cov: "covered rw addresses start hist cur settled"
    and grow: "grows rw addresses start seen hist hist'" and bound: "cursors_seen addresses seen cur"
  shows "covered rw addresses start hist' cur settled"
  unfolding covered_def
proof (intro ballI impI)
  fix a d
  assume a: "a \<in> set addresses" and d: "d \<in> set (hist' a)" "start a < ds_slot d"
  show "ds_signature d \<in> settled \<or> discoverable rw addresses start hist' cur (ds_signature d)"
  proof (cases "d \<in> set (hist a)")
    case True
    then show ?thesis
      using cov a d(2) grow unfolding covered_def discoverable_def grows_def by blast
  next
    case False
    then have late: "sat_sub (seen a) rw < ds_slot d"
      using grow a d unfolding grows_def by fastforce
    have "above_replay rw start cur a d"
    proof (cases "cur a")
      case None
      then show ?thesis using d(2) by (simp add: above_replay_def)
    next
      case (Some c)
      then have "scanned_slot c \<le> seen a" using bound a by (simp add: cursors_seen_def)
      then show ?thesis
        using Some late sat_sub_mono [of "scanned_slot c" "seen a" rw]
        by (simp add: above_replay_def replay_floor_def)
    qed
    then show ?thesis using a d(1) unfolding discoverable_def by blast
  qed
qed

lemma seen_after_bounds:
  "seen a \<le> seen_after env hist seen a"
  "pe_head env = Inr head \<Longrightarrow> head \<le> seen_after env hist seen a"
  "d \<in> set (hist a) \<Longrightarrow> ds_slot d \<le> seen_after env hist seen a"
proof -
  have fold_ge: "x \<le> fold max ys x" "y \<in> set ys \<Longrightarrow> y \<le> fold max ys x" for x y :: slot and ys
    by (induction ys arbitrary: x) (auto intro: order_trans [OF max.cobounded1] order_trans [OF max.cobounded2])
  show "seen a \<le> seen_after env hist seen a"
    unfolding seen_after_def by (rule order_trans [OF max.cobounded1 fold_ge(1)])
  show "pe_head env = Inr head \<Longrightarrow> head \<le> seen_after env hist seen a"
    unfolding seen_after_def by (simp add: order_trans [OF max.cobounded2 fold_ge(1)])
  show "d \<in> set (hist a) \<Longrightarrow> ds_slot d \<le> seen_after env hist seen a"
    unfolding seen_after_def by (rule fold_ge(2)) simp
qed

section \<open>One poll\<close>

text \<open>A cursor a failed poll leaves is the one it found or the one it installed.\<close>

lemma prepare_cursor:
  assumes "poll_prepare C rw addresses env w0 = (w, r)" "state_wf (pw_state w0)"
  shows "cursor_of C w a = cursor_of C w0 a
    \<or> cursor_of C w0 a = None \<and> (\<exists>head. pe_head env = Inr head \<and> cursor_of C w a = Some \<lparr>scanned_slot = sat_sub head rw\<rparr>)"
proof -
  have oc: "om_wf (cursors (pw_state (absorb_delivered_signatures w0)))"
    using absorb_frame(4) [OF assms(2)] by (simp add: state_wf_def)
  consider "cursors (pw_state w) = cursors (pw_state w0)"
    | head where "pe_head env = Inr head" "cursors (pw_state w) =
        cursors (snd (install_cursors C head rw addresses (pw_state (absorb_delivered_signatures w0))))"
    using assms(1) check_boundary_frame(1)
    by (auto simp: poll_prepare_def Let_def case_prod_unfold split: sum.splits option.splits)
  then show ?thesis
    by cases (auto simp: cursor_of_def install_get [OF oc] split: option.splits)
qed

lemma failed_cursor:
  assumes "poll C L rw addresses env w = Some (w', Inl e)" "state_wf (pw_state w)" "completion_ok env"
  shows "cursor_of C w' a = cursor_of C w a
    \<or> cursor_of C w a = None \<and> (\<exists>head. pe_head env = Inr head \<and> cursor_of C w' a = Some \<lparr>scanned_slot = sat_sub head rw\<rparr>)"
  using assms(1,2)
proof (cases rule: poll_cases)
  case (early e')
  then show ?thesis using prepare_cursor [OF _ assms(2)] by blast
next
  case (deliver w1 head initialized verified d)
  note batches = prepared_batches [OF deliver(1,2) assms(2)]
  have wf: "state_wf (pw_state w1)" using prepare_any [OF deliver(1) assms(2)] by simp
  obtain p fs k where proc: "processed (dc_contexts d) fs (pw_state w1) p"
    and final: "pw_state w' =
         record_deliveries (sent_pairs (take k (ready_updates (dc_contexts d) p))) (pr_state p)"
    by (rule deliver_any [OF deliver(3) batches(1) assms(3) wf]) simp
  have "cursor_of C w' a = cursor_of C w1 a"
    using processedD(2) [OF proc] by (simp add: cursor_of_def final)
  then show ?thesis using prepare_cursor [OF deliver(1) assms(2), of a] by simp
qed

lemma polled_cursor_eq:
  "polled_cursor C rw w head a =
     (case cursor_of C w a of Some c \<Rightarrow> c | None \<Rightarrow> \<lparr>scanned_slot = sat_sub head rw\<rparr>)"
  by (simp add: polled_cursor_def cursor_of_def split: option.splits)

text \<open>What is above the replay floors before a poll is above the floor the poll discovers from.\<close>

lemma above_polled:
  assumes "starts_from C rw addresses start env w" "a \<in> set addresses" "pe_head env = Inr head"
    and "above_replay rw start (cursor_of C w) a d"
  shows "replay_floor (polled_cursor C rw w head a) rw < ds_slot d"
proof (cases "cursor_of C w a")
  case None
  then have "sat_sub (sat_sub head rw) rw \<le> start a"
    using assms(1-3) by (fastforce simp: starts_from_def)
  then show ?thesis
    using assms(4) None by (simp add: polled_cursor_eq above_replay_def replay_floor_def)
next
  case (Some c)
  then show ?thesis using assms(4) by (simp add: polled_cursor_eq above_replay_def)
qed

lemma kept_above_replay:
  assumes "starts_from C rw addresses start env w" "a \<in> set addresses" "pe_head env = Inr head"
    and "above_replay rw start (cursor_of C w) a d"
    and "cursor_of C w' a = Some (polled_cursor C rw w head a)"
  shows "above_replay rw start (cursor_of C w') a d"
  using above_polled [OF assms(1-4)] assms(5) by (simp add: above_replay_def)

lemma failed_above_replay:
  assumes "poll C L rw addresses env w = Some (w', Inl e)" "state_wf (pw_state w)" "completion_ok env"
    and "starts_from C rw addresses start env w" "a \<in> set addresses"
    and "above_replay rw start (cursor_of C w) a d"
  shows "above_replay rw start (cursor_of C w') a d"
  using failed_cursor [OF assms(1-3), of a]
proof
  assume "cursor_of C w' a = cursor_of C w a"
  then show ?thesis using assms(6) by (simp add: above_replay_def)
next
  assume "cursor_of C w a = None \<and> (\<exists>head. pe_head env = Inr head
      \<and> cursor_of C w' a = Some \<lparr>scanned_slot = sat_sub head rw\<rparr>)"
  then obtain head where "pe_head env = Inr head" "cursor_of C w' a = Some (polled_cursor C rw w head a)"
    by (auto simp: polled_cursor_eq)
  then show ?thesis using kept_above_replay [OF assms(4,5) _ assms(6)] by blast
qed

lemma newest_of_member: "newest_of None h = Some sl \<Longrightarrow> sl \<in> ds_slot ` set h"
  by (cases h) (auto simp: newest_of_def)

text \<open>The batch of an address holds exactly the entries above the floor the poll discovers from.\<close>

lemma batch_of_history:
  assumes "codec_ok C" "serves_all C addresses hist env" "a \<in> set addresses"
    and "poll_batch C rw env w head a b"
  shows "batch_signatures b = filter (\<lambda>d. replay_floor (polled_cursor C rw w head a) rw < ds_slot d) (hist a)"
    and "scanned_slot (next_cursor b) = head
      \<or> scanned_slot (next_cursor b) = scanned_slot (polled_cursor C rw w head a)
      \<or> scanned_slot (next_cursor b) \<in> ds_slot ` set (hist a)"
proof -
  have h: "serves_history C (hist a) (pe_pages env a)" "sorted_wrt (\<lambda>x y. ds_slot y \<le> ds_slot x) (hist a)"
    using assms(2,3) by (auto simp: serves_all_def)
  let ?c = "polled_cursor C rw w head a"
  let ?above = "filter (\<lambda>d. replay_floor ?c rw < ds_slot d) (hist a)"
  have b: "b = \<lparr>batch_address = a, batch_signatures = ?above,
      next_cursor = \<lparr>scanned_slot = max head
        (case newest_of None ?above of None \<Rightarrow> scanned_slot ?c | Some sl \<Rightarrow> sl)\<rparr>,
      reached_replay_floor = list_ex (\<lambda>d. ds_slot d \<le> replay_floor ?c rw) (hist a)\<rparr>"
    using assms(4) discover_history [OF assms(1) h(1), of a ?c head rw]
    by (simp add: poll_batch_def takeWhile_filter_descending [OF h(2)])
  show "batch_signatures b = ?above" by (simp add: b)
  have "newest_of None ?above = Some sl \<Longrightarrow> sl \<in> ds_slot ` set (hist a)" for sl
    using newest_of_member [of ?above sl] by auto
  then show "scanned_slot (next_cursor b) = head \<or> scanned_slot (next_cursor b) = scanned_slot ?c
      \<or> scanned_slot (next_cursor b) \<in> ds_slot ` set (hist a)"
    by (auto simp: b max_def split: option.splits)
qed

text \<open>
  A poll, failed or not, keeps the coverage: what it leaves above the floors, what it sends and what
  it quarantines make up for what its cursors pass.
\<close>

lemma covered_poll:
  assumes codec: "codec_ok C" and dist: "distinct addresses"
    and env: "completion_ok env" "serves_all C addresses hist env"
    and start: "starts_from C rw addresses start env w" and wf: "state_wf (pw_state w)"
    and known: "{s. known_signature w s} \<subseteq> settled"
    and cov: "covered rw addresses start hist (cursor_of C w) settled"
    and poll: "poll C L rw addresses env w = Some (w', r)"
  shows "covered rw addresses start hist (cursor_of C w')
    (settled \<union> sent_signatures (newly_sent w w') \<union> {s. is_quarantined (pw_state w') s})"
    (is "covered rw addresses start hist _ ?settled'")
proof (cases r)
  case (Inl e)
  note failed = failed_above_replay [OF poll [unfolded Inl] wf env(1) start]
  have "discoverable rw addresses start hist (cursor_of C w') s"
    if "discoverable rw addresses start hist (cursor_of C w) s" for s
    using that failed unfolding discoverable_def by blast
  then show ?thesis using cov unfolding covered_def by blast
next
  case (Inr out)
  have settles: "s \<in> ?settled' \<or> discoverable rw addresses start hist (cursor_of C w') s"
    if disc: "discoverable rw addresses start hist (cursor_of C w) s" for s
  proof -
    obtain a d where a: "a \<in> set addresses" "d \<in> set (hist a)" "ds_signature d = s"
      "above_replay rw start (cursor_of C w) a d"
      using disc by (auto simp: discoverable_def)
    obtain head b where head: "pe_head env = Inr head" and b: "poll_batch C rw env w head a b"
      and fate: "cursor_of C w' a = Some (polled_cursor C rw w head a)
       \<or> cursor_of C w' a = Some (next_cursor b)
         \<and> (\<forall>s \<in> ds_signature ` set (batch_signatures b).
              known_signature w s \<or> Some s \<in> update_signature ` set (newly_sent w w')
              \<or> is_quarantined (pw_state w') s
              \<or> (\<exists>a' \<in> set addresses. \<exists>b'. poll_batch C rw env w head a' b'
                   \<and> s \<in> ds_signature ` set (batch_signatures b')
                   \<and> cursor_of C w' a' = Some (polled_cursor C rw w head a')))"
      using poll_batch_fate [OF codec dist env(1) wf poll [unfolded Inr] a(1)] by blast
    have "d \<in> set (batch_signatures b)"
      using above_polled [OF start a(1) head a(4)] a(2)
      by (simp add: batch_of_history(1) [OF codec env(2) a(1) b])
    then have s: "s \<in> ds_signature ` set (batch_signatures b)" using a(3) by blast
    consider "cursor_of C w' a = Some (polled_cursor C rw w head a)" | "s \<in> ?settled'"
      | a' b' where "a' \<in> set addresses" "poll_batch C rw env w head a' b'"
        "s \<in> ds_signature ` set (batch_signatures b')"
        "cursor_of C w' a' = Some (polled_cursor C rw w head a')"
    proof -
      have "known_signature w s \<Longrightarrow> s \<in> ?settled'"
        "Some s \<in> update_signature ` set (newly_sent w w') \<Longrightarrow> s \<in> ?settled'"
        "is_quarantined (pw_state w') s \<Longrightarrow> s \<in> ?settled'"
        using known by (auto simp: sent_signatures_def)
      then show thesis using fate s that by blast
    qed
    then show ?thesis
    proof cases
      case 1
      then show ?thesis
        using kept_above_replay [OF start a(1) head a(4)] a(1-3) unfolding discoverable_def by blast
    next
      case 3
      obtain d' where d': "d' \<in> set (hist a')" "ds_signature d' = s"
        "replay_floor (polled_cursor C rw w head a') rw < ds_slot d'"
        using 3(3) batch_of_history(1) [OF codec env(2) 3(1,2)] by auto
      then have "above_replay rw start (cursor_of C w') a' d'"
        by (simp add: above_replay_def 3(4))
      then show ?thesis using 3(1) d' unfolding discoverable_def by blast
    qed simp
  qed
  then show ?thesis using cov unfolding covered_def by blast
qed

text \<open>The cursors stay within what was shown.\<close>

lemma cursors_seen_poll:
  assumes codec: "codec_ok C" and dist: "distinct addresses"
    and env: "completion_ok env" "serves_all C addresses hist env"
    and wf: "state_wf (pw_state w)" and bound: "cursors_seen addresses seen (cursor_of C w)"
    and poll: "poll C L rw addresses env w = Some (w', r)"
  shows "cursors_seen addresses (seen_after env hist seen) (cursor_of C w')"
  unfolding cursors_seen_def
proof (intro ballI allI impI)
  fix a c
  assume a: "a \<in> set addresses" and c: "cursor_of C w' a = Some c"
  let ?m = "seen_after env hist seen a"
  have old: "scanned_slot c \<le> ?m" if "cursor_of C w a = Some c" for c
    using bound a that seen_after_bounds(1) [of seen a env hist] unfolding cursors_seen_def
    by (meson order_trans)
  have new: "scanned_slot (\<lparr>scanned_slot = sat_sub head rw\<rparr> :: address_cursor) \<le> ?m"
    if "pe_head env = Inr head" for head
    using seen_after_bounds(2) [OF that, of hist seen a]
    by (simp add: slot_le unat_sat_sub)
  have polled: "scanned_slot (polled_cursor C rw w head a) \<le> ?m" if "pe_head env = Inr head" for head
    using old new [OF that] by (simp add: polled_cursor_eq split: option.splits)
  show "scanned_slot c \<le> ?m"
  proof (cases r)
    case (Inl e)
    show ?thesis
      using failed_cursor [OF poll [unfolded Inl] wf env(1), of a] c old new by auto
  next
    case (Inr out)
    obtain head b where head: "pe_head env = Inr head" and b: "poll_batch C rw env w head a b"
      and fate: "cursor_of C w' a = Some (polled_cursor C rw w head a) \<or> cursor_of C w' a = Some (next_cursor b)"
      using poll_batch_fate [OF codec dist env(1) wf poll [unfolded Inr] a] by blast
    have "scanned_slot (next_cursor b) \<le> ?m"
      using batch_of_history(2) [OF codec env(2) a b] polled [OF head]
        seen_after_bounds(2) [OF head] seen_after_bounds(3) [of _ hist a] by auto
    then show ?thesis using fate c polled [OF head] by auto
  qed
qed

section \<open>Runs\<close>

text \<open>
  A run from any well-formed state, that of a first start or one restored from a checkpoint. It
  carries the histories shown, the highest slot shown, and the settled signatures: known at the
  start, delivered by Yellowstone, sent by the poller, or quarantined after their attempts.
\<close>

inductive coverage_run ::
  "codec \<Rightarrow> rpc_library \<Rightarrow> slot \<Rightarrow> pubkey list \<Rightarrow> (pubkey \<Rightarrow> slot)
   \<Rightarrow> poll_world \<Rightarrow> histories \<Rightarrow> (pubkey \<Rightarrow> slot) \<Rightarrow> signature set \<Rightarrow> bool"
  for C L rw addresses start
where
  coverage_start: "state_wf (pw_state w) \<Longrightarrow> cursors_seen addresses seen (cursor_of C w) \<Longrightarrow>
    coverage_run C L rw addresses start w (\<lambda>a. []) seen {s. known_signature w s}"
| coverage_delivery: "coverage_run C L rw addresses start w hist seen settled \<Longrightarrow>
    pw_delivered w = Some dv \<Longrightarrow>
    coverage_run C L rw addresses start (w\<lparr>pw_delivered := Some (record_delivery s sl dv)\<rparr>)
      hist seen (insert s settled)"
| coverage_poll: "coverage_run C L rw addresses start w hist seen settled \<Longrightarrow>
    completion_ok env \<Longrightarrow> serves_all C addresses hist' env \<Longrightarrow>
    grows rw addresses start seen hist hist' \<Longrightarrow> starts_from C rw addresses start env w \<Longrightarrow>
    poll C L rw addresses env w = Some (w', r) \<Longrightarrow>
    coverage_run C L rw addresses start w' hist' (seen_after env hist' seen)
      (settled \<union> sent_signatures (newly_sent w w') \<union> {s. is_quarantined (pw_state w') s})"

definition coverage_invariant ::
  "codec \<Rightarrow> slot \<Rightarrow> pubkey list \<Rightarrow> (pubkey \<Rightarrow> slot) \<Rightarrow> poll_world \<Rightarrow> histories \<Rightarrow> (pubkey \<Rightarrow> slot)
   \<Rightarrow> signature set \<Rightarrow> bool" where
  "coverage_invariant C rw addresses start w hist seen settled \<longleftrightarrow>
     state_wf (pw_state w) \<and> {s. known_signature w s} \<subseteq> settled
     \<and> covered rw addresses start hist (cursor_of C w) settled
     \<and> cursors_seen addresses seen (cursor_of C w)"

lemma coverage_invariant_poll:
  assumes codec: "codec_ok C" "distinct addresses"
    and inv: "coverage_invariant C rw addresses start w hist seen settled"
    and env: "completion_ok env" "serves_all C addresses hist' env"
    and grow: "grows rw addresses start seen hist hist'" and start: "starts_from C rw addresses start env w"
    and poll: "poll C L rw addresses env w = Some (w', r)"
  shows "coverage_invariant C rw addresses start w' hist' (seen_after env hist' seen)
    (settled \<union> sent_signatures (newly_sent w w') \<union> {s. is_quarantined (pw_state w') s})"
proof -
  have I: "state_wf (pw_state w)" "{s. known_signature w s} \<subseteq> settled"
    "covered rw addresses start hist (cursor_of C w) settled"
    "cursors_seen addresses seen (cursor_of C w)"
    using inv by (auto simp: coverage_invariant_def)
  have R: "recorded_from w w'" by (rule poll_recorded_from [OF poll I(1) env(1)])
  have known: "known_signature w' t = has_recent_signature (pw_state w') t" for t
    by (rule known_after_poll(1) [OF poll_recording [OF poll I(1)]])
  have "{s. known_signature w' s}
      \<subseteq> settled \<union> sent_signatures (newly_sent w w') \<union> {s. is_quarantined (pw_state w') s}"
    using R I(2) by (auto simp: known recorded_from_def)
  then show ?thesis
    using covered_poll [OF codec env start I(1,2) covered_grows [OF I(3) grow I(4)] poll]
      cursors_seen_poll [OF codec env I(1,4) poll] R
    by (simp add: coverage_invariant_def recorded_from_def)
qed

lemma run_covered:
  assumes "coverage_run C L rw addresses start w hist seen settled"
    and "codec_ok C" "distinct addresses"
  shows "coverage_invariant C rw addresses start w hist seen settled"
  using assms(1)
proof induction
  case (coverage_start w seen)
  then show ?case by (simp add: coverage_invariant_def covered_def)
next
  case (coverage_delivery w hist seen settled dv s sl)
  have "cursor_of C (w\<lparr>pw_delivered := Some (record_delivery s sl dv)\<rparr>) = cursor_of C w"
    by (simp add: fun_eq_iff cursor_of_def)
  then show ?case
    using coverage_delivery
    by (auto simp: coverage_invariant_def known_signature_def record_delivery_def send_delivery_def
        elim!: covered_settled)
next
  case (coverage_poll w hist seen settled env hist' w' r)
  then show ?case by (intro coverage_invariant_poll [OF assms(2,3)])
qed


section \<open>Catching up\<close>

text \<open>Every transaction asked for is answered within the attempts of a fetch and converts.\<close>

definition answers_all :: "rpc_library \<Rightarrow> poll_env \<Rightarrow> bool" where
  "answers_all L env \<longleftrightarrow> (\<forall>s. \<exists>k tx. 1 \<le> k \<and> k \<le> 3 \<and> transient_until L (pe_transactions env s) k
     \<and> pe_transactions env s k = Inr tx \<and> transaction_update L s tx \<noteq> None)"

lemma fetch_answered:
  assumes "1 \<le> k" "k \<le> 3" "transient_until L answer k" "answer k = Inr tx"
  shows "fst (fetch_transaction L answer s) = Some (Inr (s, tx))"
proof -
  obtain f j where j: "fst (fetch_transaction L answer s) = Some f" "1 \<le> j" "j \<le> 3" "transient_until L answer j"
    "case f of Inr (s', tx) \<Rightarrow> s' = s \<and> answer j = Inr tx
       | Inl err \<Rightarrow> answer j = Inl (fe_error err)
           \<and> (fe_permanent err \<longleftrightarrow> fetch_error_is_permanent L (fe_error err))
           \<and> (fe_permanent err \<or> j = 3)"
    using fetch_outcome [of L answer s] by blast
  have before: "\<exists>e. answer i = Inl e \<and> \<not> fetch_error_is_permanent L e"
    if "transient_until L answer m" "1 \<le> i" "i < m" for i m
  proof -
    have "case answer i of Inl e \<Rightarrow> \<not> fetch_error_is_permanent L e | Inr _ \<Rightarrow> False"
      using that by (simp add: transient_until_def list_all_iff)
    then show ?thesis by (cases "answer i") auto
  qed
  have "\<not> k < j" using before [OF j(4) assms(1)] assms(4) by auto
  moreover have "\<not> j < k"
    using before [OF assms(3) j(2)] j(5) assms(2) by (auto split: sum.splits)
  ultimately have "j = k" by simp
  then show ?thesis using j(1,5) assms(4) by (auto split: sum.splits)
qed

lemma process_all_answered:
  "\<forall>x \<in> set fs. \<exists>s' tx. snd x = Inr (s', tx) \<and> transaction_update L (fst x) tx \<noteq> None \<Longrightarrow>
    pr_retrying (process_all C L ctxs fs st) = []"
proof (induction fs rule: rev_induct)
  case Nil
  then show ?case by (simp add: process_all_def)
next
  case (snoc x fs)
  then obtain s' tx u where "snd x = Inr (s', tx)" "transaction_update L (fst x) tx = Some u" by auto
  then show ?case
    using snoc by (simp add: process_all_def process_one_def process_fetched_transaction_def)
qed

lemma answered_poll_settles:
  assumes "codec_ok C" "distinct addresses" "completion_ok env" "answers_all L env"
    and "state_wf (pw_state w)" "poll C L rw addresses env w = Some (w', Inr out)"
    and "pe_head env = Inr head" "a \<in> set addresses" "poll_batch C rw env w head a b"
    and "s \<in> ds_signature ` set (batch_signatures b)"
  shows "known_signature w s \<or> s \<in> sent_signatures (newly_sent w w') \<or> is_quarantined (pw_state w') s"
proof (rule poll_success [OF assms(1-3,5,6)])
  fix head' d fs st p
  assume head: "pe_head env = Inr head'" and cover: "contexts_cover C d"
    and addr: "map batch_address (dc_batches d) = addresses"
    and pb: "\<And>b. b \<in> set (dc_batches d) \<Longrightarrow> poll_batch C rw env w head' (batch_address b) b"
    and known: "\<And>t. has_recent_signature st t \<longleftrightarrow> known_signature w t"
    and keys: "fst ` set fs = set (signatures_to_fetch (dc_contexts d) st)"
    and proc: "processed (dc_contexts d) fs st p"
    and sent: "newly_sent w w' = sent_updates (ready_updates (dc_contexts d) p)"
    and quar: "\<And>s. is_quarantined (pw_state w') s = is_quarantined (pr_state p) s"
    and fs: "set fs \<subseteq> (\<lambda>s. (s, the (fst (fetch_transaction L (pe_transactions env s) s)))) ` UNIV"
    and p: "p = process_all C L (dc_contexts d) fs st"
  have "\<exists>tx. the (fst (fetch_transaction L (pe_transactions env s) s)) = Inr (s, tx)
      \<and> transaction_update L s tx \<noteq> None" for s
    using assms(4) fetch_answered unfolding answers_all_def by (metis option.sel)
  then have "\<forall>x \<in> set fs. \<exists>s' tx. snd x = Inr (s', tx) \<and> transaction_update L (fst x) tx \<noteq> None"
    using fs by fastforce
  then have none: "pr_retrying p = []"
    unfolding p by (rule process_all_answered)
  obtain b' where b': "b' \<in> set (dc_batches d)" "batch_address b' = a"
    using addr assms(8) by auto
  then have b: "b' = b"
    using pb [OF b'(1)] assms(7,9) head by (simp add: poll_batch_def)
  have open_batch: "\<not> batch_blocked b' (pr_retrying p)"
    by (simp add: none batch_blocked_def list_ex_iff)
  have ready: "signature_is_ready s (dc_contexts d) (blocked_addresses (dc_contexts d) (pr_retrying p))"
  proof -
    obtain c where "map_of (dc_contexts d) s = Some c"
      using cover b'(1) assms(10) b by (fastforce simp: contexts_cover_def indexes_def)
    then show ?thesis
      by (simp add: none blocked_addresses_def signature_is_ready_def oset_of_list_def)
  qed
  obtain x where x: "x \<in> set (batch_signatures b')" "s = ds_signature x"
    using assms(10) b by auto
  have "s \<in> fst ` set (ready_updates (dc_contexts d) p) \<Longrightarrow> s \<in> sent_signatures (newly_sent w w')"
    unfolding sent sent_signatures_def set_map [symmetric] ready_signatures(1) [OF proc] by auto
  then show ?thesis
    using advanced_signature [OF cover keys proc b'(1) open_batch x(1)] x(2) ready known quar by blast
qed


section \<open>The demonstration\<close>

text \<open>
  A first poll that cannot read the head while the history is shown, then the poll that discovers
  and sends the transaction.
\<close>

lemma demo_serves_all: "serves_all decimal_codec [5] (\<lambda>a. demo_history) (demo_env\<lparr>pe_head := h\<rparr>)"
proof -
  have "pe_pages (demo_env\<lparr>pe_head := h\<rparr>) = pe_pages demo_env" by simp
  then show ?thesis using demo_serves by (simp add: serves_all_def demo_history_def)
qed

lemma demo_unseen:
  "\<not> known_signature demo_world s" "\<not> is_quarantined (pw_state demo_world) s"
  "cursor_of decimal_codec demo_world a = None"
  by (simp_all add: known_signature_def demo_world_def polling_state_default_def new_delivered_def
      has_recent_signature_def om_contains_def om_get_def is_quarantined_def cursor_of_def)

lemma demo_coverage_start:
  "coverage_run decimal_codec demo_library 30 [5] (\<lambda>a. 60) demo_world (\<lambda>a. []) (\<lambda>a. 0) {}"
  using coverage_start [of demo_world "[5]" "\<lambda>a. 0" decimal_codec demo_library 30 "\<lambda>a. 60"] demo_wf
  by (simp add: demo_unseen cursors_seen_def)

lemma demo_starts: "starts_from decimal_codec 30 [5] (\<lambda>a. 60) demo_env demo_world"
  by (simp add: starts_from_def demo_env_def sat_sub_def)

lemma demo_grows: "set h \<subseteq> set demo_history \<Longrightarrow>
    grows 30 [5] (\<lambda>a. 60) (\<lambda>a. 0) (\<lambda>a. h) (\<lambda>a. demo_history)"
  by (auto simp: grows_def demo_history_def sat_sub_def)

lemma demo_coverage_failed:
  "coverage_run decimal_codec demo_library 30 [5] (\<lambda>a. 60) demo_world (\<lambda>a. demo_history)
     (seen_after (demo_env\<lparr>pe_head := Inl ''unreachable''\<rparr>) (\<lambda>a. demo_history) (\<lambda>a. 0)) {}"
  using coverage_poll [OF demo_coverage_start _ demo_serves_all demo_grows _ demo_failed_poll]
  by (simp add: completion_ok_def demo_env_def starts_from_def sent_signatures_def newly_sent_def demo_unseen)



end
