(* ===== verification/Lifetime.thy ===== *)
theory Lifetime
  imports Restart Poll_Coverage Pipeline
begin

text \<open>
  The coverage of the polls carried over the life of a deployment: saves that write the checkpoint and
  compact the journal, polls, the pipeline taking, journalling and finishing what it is handed, and
  kills between any two of these steps or within a poll, with the restart that loads what the files
  hold, or starts over when they hold no checkpoint yet.
\<close>

section \<open>The journal\<close>

lemma read_empty: "read_text C [] = (None, [])"
  by (simp add: read_text_def read_header_def str_lines_def Let_def)

lemma read_holds:
  assumes "codec_ok C" "plain_line identity" "journal_holds C identity es jn d"
  shows "read_journal C False (jn_name jn) d = Inr (Some identity, es)
    \<or> es = [] \<and> read_journal C False (jn_name jn) d = Inr (None, []) \<and> contents_of (jn_name jn) d = []
        \<and> \<not> js_file (jn_state jn)"
proof (cases "contents_of (jn_name jn) d = compacted_text C (Some identity) es")
  case True
  moreover have "compacted_text C (Some identity) es \<noteq> []"
    by (simp add: compacted_text_def header_line_def)
  ultimately have "om_get d (jn_name jn) = Some (compacted_text C (Some identity) es)"
    by (cases "om_get d (jn_name jn)") (simp_all add: contents_of_def)
  then show ?thesis
    using read_compacted [OF assms(1,2), of es "[]"] by (simp add: read_journal_def)
next
  case False
  then have "es = []" "contents_of (jn_name jn) d = []" "\<not> js_file (jn_state jn)"
    using assms(3) unfolding journal_holds_def by blast+
  then show ?thesis
    by (cases "om_get d (jn_name jn)") (auto simp: read_journal_def contents_of_def read_empty)
qed

text \<open>Compaction keeps some of the entries, whatever fails.\<close>

lemma compact_holds:
  assumes "codec_ok C" "plain_line identity" "journal_holds C identity es jn d"
    and "compact C u f minimum (Some jn) d = (j', d')"
  shows "\<exists>jn' es'. j' = Some jn' \<and> jn_name jn' = jn_name jn \<and> set es' \<subseteq> set es
    \<and> journal_holds C identity es' jn' d'"
proof -
  let ?n = "jn_name jn"
  let ?kept = "filter (\<lambda>e. minimum < snd e) es"
  have H: "om_wf d" "js_identity (jn_state jn) = Some identity" "js_written (jn_state jn) = set (map fst es)"
    using assms(3) by (auto simp: journal_holds_def)
  obtain js r where rw: "rewrite C u f ?n minimum (jn_state jn) d = ((js, d'), r)"
    and j': "j' = Some (jn\<lparr>jn_state := js\<rparr>)"
    using assms(4) by (auto simp: compact_def split: prod.splits)
  have same: ?thesis if "js = jn_state jn" "om_wf d'" "om_get d' ?n = om_get d ?n"
    using that assms(3) j' by (intro exI [of _ jn] exI [of _ es]) (simp add: journal_holds_def contents_of_def)
  show ?thesis
  proof (cases "u \<or> read_journal C False ?n d \<noteq> Inr (Some identity, es) \<or> length ?kept = length es")
    case True
    then have "js = jn_state jn \<and> d' = d"
      using rw read_holds [OF assms(1-3)] by (cases u) (auto simp: rewrite_def read_journal_def Let_def)
    then show ?thesis using same H(1) by simp
  next
    case False
    let ?t = "compacted_text C (Some identity) ?kept"
    obtain d2 q where inst: "install_compacted f ?n ?t d = (d2, q)"
      by (cases "install_compacted f ?n ?t d")
    note repl = install_compacted_replace [where f = f and name = ?n and c = ?t and d = d and t = "''shipped journal''"]
    show ?thesis
    proof (cases q)
      case (Inl e)
      then have js: "js = jn_state jn" "d' = d2" using rw False inst by (auto simp: rewrite_def Let_def)
      have "d2 = fst (write_file f (temporary_path ?n) ?t d)"
        using inst Inl by (auto simp: install_compacted_def split: prod.splits bool.splits if_splits)
      then have "om_wf d2 \<and> om_get d2 ?n = om_get d ?n"
        using write_file_other [OF H(1)] write_file_wf [OF H(1)] by simp
      then show ?thesis using same js by simp
    next
      case (Inr v)
      then have js: "js = (jn_state jn)\<lparr>js_file := False, js_written := set (map fst ?kept)\<rparr>" "d' = d2"
        using rw False inst by (auto simp: rewrite_def Let_def)
      have "om_get d2 ?n = Some ?t" "om_wf d2"
        using replaced.law_success [OF H(1), where f = f and n = ?n and c = ?t
            and description = "''shipped journal''"]
          replaced.law_wf [OF H(1), where f = f and n = ?n and c = ?t and description = "''shipped journal''"]
          inst Inr repl by auto
      then show ?thesis
        using H(2) js j' by (intro exI [of _ "jn\<lparr>jn_state := js\<rparr>"] exI [of _ ?kept])
          (auto simp: journal_holds_def contents_of_def)
    qed
  qed
qed

lemma restore_holds:
  assumes "codec_ok C" "plain_line identity" "journal_holds C identity es jn d"
    and "\<not> rf_read f" "jn_name jn0 = jn_name jn" "\<not> js_file (jn_state jn0)"
  shows "\<exists>jn' d'. restore C f identity (Some jn0) d = (es, Some jn', d') \<and> jn_name jn' = jn_name jn
    \<and> journal_holds C identity es jn' d' \<and> (\<forall>m. m \<noteq> jn_name jn \<longrightarrow> om_get d' m = om_get d m)"
  using read_holds [OF assms(1-3)]
proof
  assume "read_journal C False (jn_name jn) d = Inr (Some identity, es)"
  then show ?thesis
    using assms(3-6) by (auto simp: restore_def journal_holds_def)
next
  assume "es = [] \<and> read_journal C False (jn_name jn) d = Inr (None, []) \<and> contents_of (jn_name jn) d = []
        \<and> \<not> js_file (jn_state jn)"
  moreover have "om_wf d" using assms(3) by (simp add: journal_holds_def)
  ultimately show ?thesis
    using assms(4-6)
    by (auto simp: restore_def purge_def Let_def journal_holds_def contents_of_def om_get_om_remove
        om_get_om_insert om_wf_om_remove om_wf_om_insert split: option.splits)
qed

lemma record_frame:
  assumes "om_wf d" "record_shipped C f e (Some jn) d = (j', d')" "m \<noteq> jn_name jn"
  shows "om_get d' m = om_get d m"
proof -
  let ?n = "jn_name jn"
  have ins: "om_get (om_insert ?n t c) m = om_get c m" "om_wf (om_insert ?n t c)" if "om_wf c" for t c
    using that assms(3) by (simp_all add: om_get_om_insert om_wf_om_insert)
  have app: "om_get (fst (append_text g ?n t c)) m = om_get c m" "om_wf (fst (append_text g ?n t c))"
    if "om_wf c" for g t c
    using ins [OF that] by (simp_all add: append_text_def split: option.splits)
  have opened: "om_get (snd (fst (open_journal f ?n js d))) m = om_get d m
      \<and> om_wf (snd (fst (open_journal f ?n js d)))" for js
    using app [OF ins(2) [OF assms(1)]] ins [OF assms(1)] assms(1)
    by (auto simp: open_journal_def Let_def case_prod_unfold split: option.splits bool.splits)
  have "om_get (snd (fst (append_entry C f ?n e js d))) m = om_get d m" for js
    using opened [of js] app
    by (auto simp: append_entry_def case_prod_unfold split: sum.splits bool.splits)
  then show ?thesis
    using assms(2) by (auto simp: record_shipped_def Let_def case_prod_unfold split: sum.splits if_splits)
qed

section \<open>What a snapshot covers\<close>

abbreviation cursor_in :: "codec \<Rightarrow> (string, address_cursor) omap \<Rightarrow> pubkey \<Rightarrow> address_cursor option" where
  "cursor_in C cs a \<equiv> om_get cs (key_str C a)"

lemma cursor_of_state: "cursor_of C w = cursor_in C (cursors (pw_state w))"
  by (simp add: fun_eq_iff cursor_of_def)

text \<open>
  A snapshot that may be restored: it suppresses only what is durable, and everything shown so far is
  durable or above the replay floors of its cursors.
\<close>

definition snapshot_covered ::
  "codec \<Rightarrow> slot \<Rightarrow> pubkey list \<Rightarrow> (pubkey \<Rightarrow> slot) \<Rightarrow> histories \<Rightarrow> (pubkey \<Rightarrow> slot)
   \<Rightarrow> signature set \<Rightarrow> progress_snapshot \<Rightarrow> bool" where
  "snapshot_covered C rw addresses start hist seen durable p \<longleftrightarrow>
     om_wf (ps_cursors p) \<and> om_wf (ps_recent p) \<and> sorted (ps_quarantined p) \<and> distinct (ps_quarantined p)
     \<and> {s. om_contains (ps_recent p) s} \<subseteq> durable
     \<and> covered rw addresses start hist (cursor_in C (ps_cursors p)) durable
     \<and> cursors_seen addresses seen (cursor_in C (ps_cursors p))"

lemma snapshot_covered_grows:
  assumes "snapshot_covered C rw addresses start hist seen durable p"
    and "grows rw addresses start seen hist hist'" "\<And>a. seen a \<le> seen' a" "durable \<subseteq> durable'"
  shows "snapshot_covered C rw addresses start hist' seen' durable' p"
proof -
  have "covered rw addresses start hist' (cursor_in C (ps_cursors p)) durable'"
    using assms(1,2,4) covered_settled [OF covered_grows] unfolding snapshot_covered_def by blast
  moreover have "cursors_seen addresses seen' (cursor_in C (ps_cursors p))"
    using assms(1,3) unfolding snapshot_covered_def cursors_seen_def by (meson order_trans)
  ultimately show ?thesis
    using assms(1,4) by (auto simp: snapshot_covered_def)
qed

lemma grows_refl: "grows rw addresses start seen hist hist"
  by (simp add: grows_def)

lemmas snapshot_covered_mono = snapshot_covered_grows [OF _ grows_refl order_refl]

lemma snapshot_of_covered:
  assumes "coverage_invariant C rw addresses start w hist seen settled" "settled \<subseteq> durable"
  shows "snapshot_covered C rw addresses start hist seen durable (snapshot_of (pw_state w))"
proof -
  have wf: "state_wf (pw_state w)" using assms(1) by (simp add: coverage_invariant_def)
  have "{s. om_contains (ps_recent (snapshot_of (pw_state w))) s} \<subseteq> durable"
    using assms by (auto simp: coverage_invariant_def known_signature_def has_recent_signature_def snapshot_of_def)
  moreover have "covered rw addresses start hist (cursor_in C (cursors (pw_state w))) durable"
    using assms covered_settled unfolding coverage_invariant_def cursor_of_state by blast
  moreover have "cursors_seen addresses seen (cursor_in C (cursors (pw_state w)))"
    using assms(1) by (simp add: coverage_invariant_def cursor_of_state)
  ultimately show ?thesis
    using snapshot_of_shape [OF wf] by (simp add: snapshot_covered_def snapshot_of_def)
qed

text \<open>A state resumed from a covered snapshot and a durable journal, with the cursors rewound.\<close>

lemma above_rewound:
  assumes "above_replay rw start (cursor_in C cs) a d"
  shows "above_replay rw start (cursor_in C (rewound rw cs)) a d"
proof (cases "cursor_in C cs a")
  case (Some c)
  have "replay_floor \<lparr>scanned_slot = sat_sub (scanned_slot c) rw\<rparr> rw \<le> replay_floor c rw"
    by (simp add: replay_floor_def slot_le unat_sat_sub)
  then show ?thesis
    using assms Some om_get_map_values [of "\<lambda>c. \<lparr>scanned_slot = sat_sub (scanned_slot c) rw\<rparr>" cs]
    by (simp add: above_replay_def)
next
  case None
  then show ?thesis
    using assms om_get_map_values [of "\<lambda>c. \<lparr>scanned_slot = sat_sub (scanned_slot c) rw\<rparr>" cs]
    by (simp add: above_replay_def)
qed

lemma resumed_coverage:
  assumes cov: "snapshot_covered C rw addresses start hist seen durable p"
    and es: "fst ` set es \<subseteq> durable"
    and state: "pw_state w = record_deliveries es (resume_state
      \<lparr>sn_cursors = rewound rw (ps_cursors p), sn_recent_signatures = ps_recent p,
       sn_quarantined_signatures = q\<rparr>)"
    and dv: "pw_delivered w \<in> {None, Some new_delivered}"
  shows "coverage_invariant C rw addresses start w hist seen durable"
proof -
  let ?sn = "\<lparr>sn_cursors = rewound rw (ps_cursors p), sn_recent_signatures = ps_recent p,
       sn_quarantined_signatures = q\<rparr>"
  have wf0: "state_wf (resume_state ?sn)"
    using cov by (intro resume_state_wf) (simp_all add: snapshot_covered_def)
  have wf: "state_wf (pw_state w)" unfolding state by (rule record_deliveries_wf [OF wf0])
  have cur: "cursor_of C w = cursor_in C (rewound rw (ps_cursors p))"
    by (simp add: cursor_of_state state resume_state_frame)
  have "has_recent_signature (pw_state w) t \<longleftrightarrow> om_contains (ps_recent p) t \<or> t \<in> fst ` set es" for t
    unfolding state record_deliveries_recent [OF wf0]
    by (simp add: has_recent_signature_def resume_state_frame)
  then have "{s. known_signature w s} \<subseteq> durable"
    using cov es dv by (auto simp: known_signature_def new_delivered_def snapshot_covered_def)
  moreover have "covered rw addresses start hist (cursor_of C w) durable"
    using cov above_rewound unfolding snapshot_covered_def covered_def discoverable_def cur by blast
  moreover have "cursors_seen addresses seen (cursor_of C w)"
    unfolding cursors_seen_def
  proof (intro ballI allI impI)
    fix a c
    assume a: "a \<in> set addresses" and c: "cursor_of C w a = Some c"
    obtain c0 where c0: "cursor_in C (ps_cursors p) a = Some c0"
      "c = \<lparr>scanned_slot = sat_sub (scanned_slot c0) rw\<rparr>"
      using c om_get_map_values [of "\<lambda>c. \<lparr>scanned_slot = sat_sub (scanned_slot c) rw\<rparr>" "ps_cursors p" "key_str C a"]
      by (auto simp: cur)
    have "scanned_slot c0 \<le> seen a"
      using cov a c0(1) by (simp add: snapshot_covered_def cursors_seen_def)
    then show "scanned_slot c \<le> seen a" by (simp add: c0(2) slot_le unat_sat_sub)
  qed
  ultimately show ?thesis using wf by (simp add: coverage_invariant_def)
qed

lemma coverage_invariant_frame:
  assumes "coverage_invariant C rw addresses start w hist seen settled" "settled \<subseteq> settled'"
    and "pw_state w' = pw_state w" "\<And>t. known_signature w' t \<Longrightarrow> known_signature w t \<or> t \<in> settled'"
  shows "coverage_invariant C rw addresses start w' hist seen settled'"
proof -
  have "{s. known_signature w' s} \<subseteq> settled'"
    using assms(1,2,4) unfolding coverage_invariant_def by blast
  then show ?thesis
    using assms(1,3) covered_settled [OF _ assms(2)] by (simp add: coverage_invariant_def cursor_of_state)
qed

section \<open>The life of a deployment\<close>

text \<open>A new process: its store, its journal, not opened yet, and the files it finds.\<close>

definition fresh_process :: "checkpoint_store \<Rightarrow> string \<Rightarrow> directory \<Rightarrow> runtime \<Rightarrow> bool" where
  "fresh_process cs name d rt \<longleftrightarrow> rt_store rt = cs \<and> rt_directory rt = d
     \<and> rt_journal rt = Some \<lparr>jn_name = name, jn_state = journal_state_default\<rparr>
     \<and> pw_delivered (rt_world rt) \<in> {None, Some new_delivered}"

text \<open>
  The steps, with the floors \<open>start\<close> that the first poll of a process without a checkpoint gives its
  addresses, what the endpoint has shown, what this process has handed to the pipeline, what the
  pipeline has finished in any process, and what was quarantined. A first start finds no checkpoint.
  Yellowstone hands over a transaction, and so may anything else: an update of another kind, or a
  poll that a kill will cut off. The pipeline dequeues an update, journals a transaction while it
  has it in hand, and finishes with it, journalled or not. A turn is two steps, the part that saves and
  the poll; a save that is cut off is one whose files fault at that place. A kill leaves the files to
  the next process: it loads the checkpoint, or, when none was written yet, it starts over with
  floors of its own.
\<close>

inductive lifetime ::
  "codec \<Rightarrow> document_codec \<Rightarrow> rpc_library \<Rightarrow> checkpoint_store \<Rightarrow> string \<Rightarrow> string
   \<Rightarrow> pubkey list \<Rightarrow> (pubkey \<Rightarrow> slot)
   \<Rightarrow> runtime \<Rightarrow> pipeline \<Rightarrow> histories \<Rightarrow> (pubkey \<Rightarrow> slot) \<Rightarrow> signature set \<Rightarrow> signature set \<Rightarrow> signature set \<Rightarrow> bool"
  for C J L cs name identity addresses
where
  life_start: "om_wf d \<Longrightarrow> om_get d (cs_name cs) = None \<Longrightarrow> fresh_process cs name d rt0 \<Longrightarrow>
    \<not> fail_read (la_faults (lenv 0)) \<Longrightarrow> \<not> jf_remove jf \<Longrightarrow>
    load_checkpoint C J lenv jf identity 0 rt0 = (rt1, Inr outcome) \<Longrightarrow>
    lifetime C J L cs name identity addresses start (resume C jf identity outcome rt1)
      idle_pipeline (\<lambda>a. []) (\<lambda>a. 0) {} {} {}"
| life_delivery: "lifetime C J L cs name identity addresses start rt P hist seen emitted finished dropped \<Longrightarrow>
    pw_delivered (rt_world rt) = Some dv \<Longrightarrow>
    lifetime C J L cs name identity addresses start
      (rt\<lparr>rt_world := (rt_world rt)\<lparr>pw_delivered := Some (record_delivery s sl dv)\<rparr>\<rparr>)
      (enqueue_updates [Some s] P) hist seen (insert s emitted) finished dropped"
| life_handover: "lifetime C J L cs name identity addresses start rt P hist seen emitted finished dropped \<Longrightarrow>
    lifetime C J L cs name identity addresses start rt
      (enqueue_updates [u] P) hist seen (emitted \<union> set_option u) finished dropped"
| life_dequeue: "lifetime C J L cs name identity addresses start rt P hist seen emitted finished dropped \<Longrightarrow>
    dequeue_update u P = Some P' \<Longrightarrow>
    lifetime C J L cs name identity addresses start rt P' hist seen emitted finished dropped"
| life_journal: "lifetime C J L cs name identity addresses start rt P hist seen emitted finished dropped \<Longrightarrow>
    Some s \<in> set (pl_in_hand P) \<Longrightarrow>
    record_shipped C no_append_faults (s, sl) (rt_journal rt) (rt_directory rt) = (j, d) \<Longrightarrow>
    lifetime C J L cs name identity addresses start (rt\<lparr>rt_journal := j, rt_directory := d\<rparr>)
      P hist seen emitted (insert s finished) dropped"
| life_finish: "lifetime C J L cs name identity addresses start rt P hist seen emitted finished dropped \<Longrightarrow>
    finish_update u P = Some P' \<Longrightarrow>
    lifetime C J L cs name identity addresses start rt P' hist seen emitted (finished \<union> set_option u) dropped"
| life_save: "lifetime C J L cs name identity addresses start rt P hist seen emitted finished dropped \<Longrightarrow>
    reported P (te_channel_empty env) (te_snapshot env) \<Longrightarrow>
    lifetime C J L cs name identity addresses start (before_poll C J env rt)
      P hist seen emitted finished dropped"
| life_poll: "lifetime C J L cs name identity addresses start rt P hist seen emitted finished dropped \<Longrightarrow>
    completion_ok (te_poll env) \<Longrightarrow> serves_all C addresses hist' (te_poll env) \<Longrightarrow>
    grows (cs_replay_window cs) addresses start seen hist hist' \<Longrightarrow>
    starts_from C (cs_replay_window cs) addresses start (te_poll env) (rt_world rt) \<Longrightarrow>
    turn_poll C L addresses env rt = Some (w, r) \<Longrightarrow>
    lifetime C J L cs name identity addresses start (fst (after_poll r (rt\<lparr>rt_world := w\<rparr>)))
      (enqueue_updates (map update_signature (newly_sent (rt_world rt) w)) P)
      hist' (seen_after (te_poll env) hist' seen)
      (emitted \<union> sent_signatures (newly_sent (rt_world rt) w)) finished
      (dropped \<union> {s. is_quarantined (pw_state w) s})"
| life_restart: "lifetime C J L cs name identity addresses start rt P hist seen emitted finished dropped \<Longrightarrow>
    om_get (rt_directory rt) (cs_name cs) \<noteq> None \<Longrightarrow>
    fresh_process cs name (rt_directory rt) rt0 \<Longrightarrow>
    \<not> fail_read (la_faults (lenv 0)) \<Longrightarrow> \<not> rf_read (jf_restore jf) \<Longrightarrow>
    load_checkpoint C J lenv jf identity 0 rt0 = (rt1, Inr outcome) \<Longrightarrow>
    lifetime C J L cs name identity addresses start (resume C jf identity outcome rt1)
      idle_pipeline hist seen {} finished dropped"
| life_start_over: "lifetime C J L cs name identity addresses start rt P hist seen emitted finished dropped \<Longrightarrow>
    om_get (rt_directory rt) (cs_name cs) = None \<Longrightarrow>
    fresh_process cs name (rt_directory rt) rt0 \<Longrightarrow>
    \<not> fail_read (la_faults (lenv 0)) \<Longrightarrow> \<not> jf_remove jf \<Longrightarrow>
    load_checkpoint C J lenv jf identity 0 rt0 = (rt1, Inr outcome) \<Longrightarrow>
    lifetime C J L cs name identity addresses start' (resume C jf identity outcome rt1)
      idle_pipeline hist seen {} finished dropped"

text \<open>A turn that is not cancelled is a save and a poll.\<close>

lemma life_turn:
  assumes "lifetime C J L cs name identity addresses start rt P hist seen emitted finished dropped"
    and "\<not> te_cancelled env" "reported P (te_channel_empty env) (te_snapshot env)"
    and "completion_ok (te_poll env)" "serves_all C addresses hist' (te_poll env)"
    and "grows (cs_replay_window cs) addresses start seen hist hist'"
    and "starts_from C (cs_replay_window cs) addresses start (te_poll env) (rt_world rt)"
    and "turn C J L addresses env rt = Some (rt', e)"
  shows "lifetime C J L cs name identity addresses start rt'
    (enqueue_updates (map update_signature (newly_sent (rt_world rt) (rt_world rt'))) P)
    hist' (seen_after (te_poll env) hist' seen)
    (emitted \<union> sent_signatures (newly_sent (rt_world rt) (rt_world rt'))) finished
    (dropped \<union> {s. is_quarantined (pw_state (rt_world rt')) s})"
proof -
  let ?b = "before_poll C J env rt"
  obtain w r where p: "turn_poll C L addresses env ?b = Some (w, r)"
    and rt': "rt' = fst (after_poll r (?b\<lparr>rt_world := w\<rparr>))"
    by (rule turn_cases [OF assms(8,2)])
  have "starts_from C (cs_replay_window cs) addresses start (te_poll env) (rt_world ?b)"
    using assms(7) by (simp add: starts_from_def cursor_of_state)
  moreover have "newly_sent (rt_world rt) (rt_world rt') = newly_sent (rt_world ?b) w"
    by (simp add: rt' newly_sent_def)
  ultimately show ?thesis
    using life_poll [OF life_save [OF assms(1,3)] assms(4-6) _ p] by (simp add: rt')
qed

text \<open>The two files keep to their names, and the library's JSON restores what it wrote.\<close>

definition deployment_ok :: "codec \<Rightarrow> document_codec \<Rightarrow> checkpoint_store \<Rightarrow> string \<Rightarrow> string \<Rightarrow> pubkey list \<Rightarrow> bool" where
  "deployment_ok C J cs name identity addresses \<longleftrightarrow> codec_ok C \<and> distinct addresses \<and> plain_line identity
     \<and> (\<forall>doc. json_restores J doc)
     \<and> name \<noteq> cs_name cs \<and> name \<noteq> temporary_path (cs_name cs) \<and> cs_name cs \<noteq> temporary_path name"

definition journal_durable ::
  "codec \<Rightarrow> string \<Rightarrow> string \<Rightarrow> signature set \<Rightarrow> journal option \<Rightarrow> directory \<Rightarrow> bool" where
  "journal_durable C identity name durable j d \<longleftrightarrow>
     (\<exists>jn es. j = Some jn \<and> jn_name jn = name \<and> journal_holds C identity es jn d \<and> fst ` set es \<subseteq> durable)"

definition checkpoint_covered ::
  "codec \<Rightarrow> document_codec \<Rightarrow> checkpoint_store \<Rightarrow> pubkey list \<Rightarrow> (pubkey \<Rightarrow> slot) \<Rightarrow> histories
   \<Rightarrow> (pubkey \<Rightarrow> slot) \<Rightarrow> signature set \<Rightarrow> directory \<Rightarrow> bool" where
  "checkpoint_covered C J cs addresses start hist seen durable d \<longleftrightarrow>
     (\<forall>t. om_get d (cs_name cs) = Some t \<longrightarrow>
        (\<exists>p. t = processed_text C J cs p \<and> om_keys (ps_cursors p) = ci_addresses (cs_identity cs)
           \<and> snapshot_covered C (cs_replay_window cs) addresses start hist seen durable p))"

definition life_invariant ::
  "codec \<Rightarrow> document_codec \<Rightarrow> checkpoint_store \<Rightarrow> string \<Rightarrow> string \<Rightarrow> pubkey list \<Rightarrow> (pubkey \<Rightarrow> slot)
   \<Rightarrow> runtime \<Rightarrow> histories \<Rightarrow> (pubkey \<Rightarrow> slot) \<Rightarrow> signature set \<Rightarrow> signature set \<Rightarrow> signature set \<Rightarrow> bool" where
  "life_invariant C J cs name identity addresses start rt hist seen emitted finished dropped \<longleftrightarrow>
     coverage_invariant C (cs_replay_window cs) addresses start (rt_world rt) hist seen
       (emitted \<union> finished \<union> dropped)
     \<and> snapshot_covered C (cs_replay_window cs) addresses start hist seen (finished \<union> dropped) (rt_processed rt)
     \<and> checkpoint_covered C J cs addresses start hist seen (finished \<union> dropped) (rt_directory rt)
     \<and> journal_durable C identity name finished (rt_journal rt) (rt_directory rt)
     \<and> cs_name (rt_store rt) = cs_name cs \<and> cs_identity (rt_store rt) = cs_identity cs
     \<and> cs_replay_window (rt_store rt) = cs_replay_window cs"

lemma checkpoint_covered_grows:
  assumes "checkpoint_covered C J cs addresses start hist seen durable d"
    and "grows (cs_replay_window cs) addresses start seen hist hist'" "\<And>a. seen a \<le> seen' a" "durable \<subseteq> durable'"
    and "om_get d' (cs_name cs) = om_get d (cs_name cs)"
  shows "checkpoint_covered C J cs addresses start hist' seen' durable' d'"
  using assms(1,5) snapshot_covered_grows [OF _ assms(2-4)] unfolding checkpoint_covered_def by metis

lemma journal_durable_frame:
  assumes "journal_durable C identity name durable j d" "durable \<subseteq> durable'"
    and "om_wf d'" "om_get d' name = om_get d name"
  shows "journal_durable C identity name durable' j d'"
proof -
  obtain jn es where j: "j = Some jn" "jn_name jn = name" "journal_holds C identity es jn d"
    "fst ` set es \<subseteq> durable"
    using assms(1) by (auto simp: journal_durable_def)
  then have "journal_holds C identity es jn d'"
    using assms(3,4) by (simp add: journal_holds_def contents_of_def)
  then show ?thesis using j assms(2) unfolding journal_durable_def by blast
qed

lemma processed_text_store:
  "cs_identity cs' = cs_identity cs \<Longrightarrow> processed_text C J cs' p = processed_text C J cs p"
  by (simp add: processed_text_def checkpoint_document_of_def)

section \<open>Saving\<close>

text \<open>A save leaves the checkpoint as it was, or writes a document with every cursor.\<close>

lemma saved_checkpoint:
  assumes "om_wf (rt_directory rt)" "journal_clear_of (rt_journal rt) (cs_name (rt_store rt))"
  shows "om_get (rt_directory (save_progress C J env rt)) (cs_name (rt_store rt))
      = om_get (rt_directory rt) (cs_name (rt_store rt))
    \<or> om_keys (ps_cursors (rt_processed rt)) = ci_addresses (cs_identity (rt_store rt))
      \<and> om_get (rt_directory (save_progress C J env rt)) (cs_name (rt_store rt))
        = Some (processed_text C J (rt_store rt) (rt_processed rt))"
proof (cases "om_keys (ps_cursors (rt_processed rt)) = ci_addresses (cs_identity (rt_store rt))")
  case True
  then show ?thesis using save_progress_file [OF assms] by blast
next
  case False
  then have "rt_directory (save_progress C J env rt) = rt_directory rt"
    by (simp add: save_progress_def save_if_due_def Let_def)
  then show ?thesis by simp
qed

lemma saved_journal:
  assumes "codec_ok C" "plain_line identity"
    and "journal_durable C identity name durable (rt_journal rt) (rt_directory rt)"
    and "name \<noteq> cs_name (rt_store rt)" "name \<noteq> temporary_path (cs_name (rt_store rt))"
  shows "journal_durable C identity name durable (rt_journal (save_progress C J env rt))
    (rt_directory (save_progress C J env rt))"
proof -
  let ?p = "rt_processed rt"
  obtain cs d r where save: "save_if_due C J (te_save_faults env) (te_now env) (te_saved_at env) (ps_cursors ?p)
      (ps_recent ?p) (ps_quarantined ?p) (rt_urgent rt) (rt_store rt) (rt_directory rt) = (cs, d, r)"
    by (metis prod_cases3)
  have wf: "om_wf (rt_directory rt)"
    using assms(3) by (auto simp: journal_durable_def journal_holds_def)
  have held: "journal_durable C identity name durable (rt_journal rt) d"
    using journal_durable_frame [OF assms(3) order_refl save_file(1) [OF wf save]]
      save_file(3) [OF wf save assms(4,5)] by blast
  show ?thesis
  proof (cases "r = Inr True")
    case True
    let ?m = "unreachable_below (lowest_cursor (ps_cursors ?p)) (cs_replay_window cs)"
    obtain j' d' where c: "compact C (te_journal_unreadable env) (te_journal_faults env) ?m (rt_journal rt) d = (j', d')"
      by (cases "compact C (te_journal_unreadable env) (te_journal_faults env) ?m (rt_journal rt) d")
    obtain jn es where j: "rt_journal rt = Some jn" "jn_name jn = name" "journal_holds C identity es jn d"
      "fst ` set es \<subseteq> durable"
      using held by (auto simp: journal_durable_def)
    obtain jn' es' where "j' = Some jn'" "jn_name jn' = name" "set es' \<subseteq> set es" "journal_holds C identity es' jn' d'"
      using compact_holds [OF assms(1,2) j(3) c [unfolded j(1)]] j(2) by auto
    then have "journal_durable C identity name durable j' d'"
      using j(4) unfolding journal_durable_def by blast
    then show ?thesis
      using save c True by (simp add: save_progress_def Let_def)
  next
    case False
    then have "rt_journal (save_progress C J env rt) = rt_journal rt \<and> rt_directory (save_progress C J env rt) = d"
      using save by (cases r) (auto simp: save_progress_def Let_def split: bool.splits)
    then show ?thesis using held by simp
  qed
qed

lemma journal_clear:
  assumes "journal_durable C identity name durable j d" "n \<noteq> name" "n \<noteq> temporary_path name"
  shows "journal_clear_of j n"
  using assms by (auto simp: journal_durable_def journal_clear_of_def)

lemma life_saves:
  assumes ok: "deployment_ok C J cs name identity addresses"
    and inv: "life_invariant C J cs name identity addresses start rt hist seen emitted finished dropped"
    and drained: "pipeline_drained (te_channel_empty env) (te_snapshot env) \<Longrightarrow> emitted \<subseteq> finished"
  shows "life_invariant C J cs name identity addresses start (before_poll C J env rt) hist seen
    emitted finished dropped"
proof -
  let ?b = "before_poll C J env rt" and ?rw = "cs_replay_window cs"
  define q where "q = advance_processed env (count_quarantined_files env rt)"
  have b: "?b = save_progress C J env q" by (simp add: before_poll_def q_def)
  have q: "rt_directory q = rt_directory rt" "rt_journal q = rt_journal rt" "rt_store q = rt_store rt"
    by (simp_all add: q_def)
  have O: "codec_ok C" "plain_line identity" "name \<noteq> cs_name cs" "name \<noteq> temporary_path (cs_name cs)"
    "cs_name cs \<noteq> temporary_path name"
    using ok by (auto simp: deployment_ok_def)
  have I: "coverage_invariant C ?rw addresses start (rt_world rt) hist seen (emitted \<union> finished \<union> dropped)"
    "snapshot_covered C ?rw addresses start hist seen (finished \<union> dropped) (rt_processed rt)"
    "checkpoint_covered C J cs addresses start hist seen (finished \<union> dropped) (rt_directory rt)"
    "journal_durable C identity name finished (rt_journal rt) (rt_directory rt)"
    and store: "cs_name (rt_store rt) = cs_name cs" "cs_identity (rt_store rt) = cs_identity cs"
    "cs_replay_window (rt_store rt) = cs_replay_window cs"
    using inv unfolding life_invariant_def by blast+
  have wf: "om_wf (rt_directory rt)"
    using I(4) by (auto simp: journal_durable_def journal_holds_def)
  have proc: "snapshot_covered C ?rw addresses start hist seen (finished \<union> dropped) (rt_processed ?b)"
  proof (cases "pipeline_drained (te_channel_empty env) (te_snapshot env)")
    case True
    then have "emitted \<union> finished \<union> dropped \<subseteq> finished \<union> dropped"
      using drained by auto
    then show ?thesis
      using snapshot_of_covered [OF I(1)] True by (simp add: before_poll_processed)
  next
    case False
    then show ?thesis using I(2) by (simp add: before_poll_processed)
  qed
  have "journal_clear_of (rt_journal q) (cs_name (rt_store q))"
    using journal_clear [OF I(4)] O(3,5) store(1) by (simp add: q)
  then consider "om_get (rt_directory ?b) (cs_name cs) = om_get (rt_directory rt) (cs_name cs)"
    | "om_keys (ps_cursors (rt_processed ?b)) = ci_addresses (cs_identity cs)"
      "om_get (rt_directory ?b) (cs_name cs) = Some (processed_text C J cs (rt_processed ?b))"
    using saved_checkpoint [of q C J env] wf store processed_text_store [OF store(2), of C J]
    unfolding b by (auto simp: q)
  then have saved: "checkpoint_covered C J cs addresses start hist seen (finished \<union> dropped) (rt_directory ?b)"
    using I(3) proc unfolding checkpoint_covered_def
    by cases (simp_all only: option.inject, blast+)
  have journal: "journal_durable C identity name finished (rt_journal ?b) (rt_directory ?b)"
    unfolding b using I(4) O(3,4) store(1) by (intro saved_journal [OF O(1,2)]) (simp_all add: q)
  have "known_signature (rt_world ?b) t \<longleftrightarrow> known_signature (rt_world rt) t" for t
    by (simp add: known_signature_def)
  then have "coverage_invariant C ?rw addresses start (rt_world ?b) hist seen (emitted \<union> finished \<union> dropped)"
    by (intro coverage_invariant_frame [OF I(1)]) simp_all
  then show ?thesis
    using proc saved journal store by (simp add: life_invariant_def)
qed

section \<open>The steps keep the invariant\<close>

lemma life_polls:
  assumes ok: "deployment_ok C J cs name identity addresses"
    and inv: "life_invariant C J cs name identity addresses start rt hist seen emitted finished dropped"
    and env: "completion_ok penv" "serves_all C addresses hist' penv"
    and grow: "grows (cs_replay_window cs) addresses start seen hist hist'"
    and start: "starts_from C (cs_replay_window cs) addresses start penv (rt_world rt)"
    and poll: "poll C L (cs_replay_window cs) addresses penv (rt_world rt) = Some (w, r)"
    and rt': "rt' = fst (after_poll r (rt\<lparr>rt_world := w\<rparr>))"
  shows "life_invariant C J cs name identity addresses start rt' hist' (seen_after penv hist' seen)
    (emitted \<union> sent_signatures (newly_sent (rt_world rt) w)) finished
    (dropped \<union> {s. is_quarantined (pw_state w) s})"
proof -
  let ?rw = "cs_replay_window cs"
  let ?dropped = "dropped \<union> {s. is_quarantined (pw_state w) s}"
  let ?emitted = "emitted \<union> sent_signatures (newly_sent (rt_world rt) w)"
  let ?seen = "seen_after penv hist' seen"
  have I: "coverage_invariant C ?rw addresses start (rt_world rt) hist seen (emitted \<union> finished \<union> dropped)"
    "snapshot_covered C ?rw addresses start hist seen (finished \<union> dropped) (rt_processed rt)"
    "checkpoint_covered C J cs addresses start hist seen (finished \<union> dropped) (rt_directory rt)"
    "journal_durable C identity name finished (rt_journal rt) (rt_directory rt)"
    and store: "cs_name (rt_store rt) = cs_name cs" "cs_identity (rt_store rt) = cs_identity cs"
    "cs_replay_window (rt_store rt) = cs_replay_window cs"
    using inv unfolding life_invariant_def by blast+
  have O: "codec_ok C" "distinct addresses" using ok by (auto simp: deployment_ok_def)
  have sub: "finished \<union> dropped \<subseteq> finished \<union> ?dropped" by blast
  have "emitted \<union> finished \<union> dropped \<union> sent_signatures (newly_sent (rt_world rt) w)
      \<union> {s. is_quarantined (pw_state w) s} = ?emitted \<union> finished \<union> ?dropped" by blast
  then have "coverage_invariant C ?rw addresses start w hist' ?seen (?emitted \<union> finished \<union> ?dropped)"
    using coverage_invariant_poll [OF O I(1) env grow start poll] by simp
  then have cov: "coverage_invariant C ?rw addresses start (rt_world rt') hist' ?seen (?emitted \<union> finished \<union> ?dropped)"
  proof (rule coverage_invariant_frame)
    show "pw_state (rt_world rt') = pw_state w" by (simp add: rt')
    show "known_signature (rt_world rt') t \<Longrightarrow> known_signature w t \<or> t \<in> ?emitted \<union> finished \<union> ?dropped" for t
      using after_poll_known [of r "rt\<lparr>rt_world := w\<rparr>" t] by (simp add: rt')
  qed simp
  have up: "seen a \<le> ?seen a" for a by (rule seen_after_bounds(1))
  have "snapshot_covered C ?rw addresses start hist' ?seen (finished \<union> ?dropped) (rt_processed rt')"
    using snapshot_covered_grows [OF I(2) grow up sub] by (simp add: rt')
  moreover have "checkpoint_covered C J cs addresses start hist' ?seen (finished \<union> ?dropped) (rt_directory rt')"
    by (rule checkpoint_covered_grows [OF I(3) grow up sub]) (simp add: rt')
  ultimately show ?thesis
    using cov I(4) store by (simp add: life_invariant_def rt')
qed

lemma life_invariant_finished:
  assumes inv: "life_invariant C J cs name identity addresses start rt hist seen emitted finished dropped"
    and sub: "finished \<subseteq> finished'"
  shows "life_invariant C J cs name identity addresses start rt hist seen emitted finished' dropped"
proof -
  have subs: "finished \<union> dropped \<subseteq> finished' \<union> dropped"
    "emitted \<union> finished \<union> dropped \<subseteq> emitted \<union> finished' \<union> dropped" using sub by auto
  have I: "coverage_invariant C (cs_replay_window cs) addresses start (rt_world rt) hist seen
      (emitted \<union> finished \<union> dropped)"
    "snapshot_covered C (cs_replay_window cs) addresses start hist seen (finished \<union> dropped) (rt_processed rt)"
    "checkpoint_covered C J cs addresses start hist seen (finished \<union> dropped) (rt_directory rt)"
    "journal_durable C identity name finished (rt_journal rt) (rt_directory rt)"
    using inv unfolding life_invariant_def by blast+
  have "journal_durable C identity name finished' (rt_journal rt) (rt_directory rt)"
    using I(4) sub unfolding journal_durable_def by blast
  then show ?thesis
    using inv checkpoint_covered_grows [OF I(3) grows_refl order_refl subs(1) refl]
      snapshot_covered_mono [OF I(2) subs(1)] coverage_invariant_frame [OF I(1) subs(2) refl disjI1]
    by (simp add: life_invariant_def)
qed

text \<open>What is emitted counts only by what is known of it, so more may be emitted.\<close>

lemma life_invariant_emitted:
  assumes inv: "life_invariant C J cs name identity addresses start rt hist seen emitted finished dropped"
    and sub: "emitted \<subseteq> emitted'" and state: "pw_state w = pw_state (rt_world rt)"
    and known: "\<And>t. known_signature w t \<Longrightarrow> known_signature (rt_world rt) t \<or> t \<in> emitted'"
  shows "life_invariant C J cs name identity addresses start (rt\<lparr>rt_world := w\<rparr>) hist seen emitted' finished dropped"
proof -
  have I: "coverage_invariant C (cs_replay_window cs) addresses start (rt_world rt) hist seen
      (emitted \<union> finished \<union> dropped)"
    using inv by (simp add: life_invariant_def)
  have "coverage_invariant C (cs_replay_window cs) addresses start w hist seen
      (emitted' \<union> finished \<union> dropped)"
    by (rule coverage_invariant_frame [OF I]) (use sub state known in auto)
  then show ?thesis using inv by (simp add: life_invariant_def)
qed

lemma life_journals:
  assumes ok: "deployment_ok C J cs name identity addresses"
    and inv: "life_invariant C J cs name identity addresses start rt hist seen emitted finished dropped"
    and rec: "record_shipped C no_append_faults (s, sl) (rt_journal rt) (rt_directory rt) = (j, d)"
  shows "life_invariant C J cs name identity addresses start (rt\<lparr>rt_journal := j, rt_directory := d\<rparr>) hist seen
    emitted (insert s finished) dropped"
proof -
  obtain jn es where jn: "rt_journal rt = Some jn" "jn_name jn = name"
    "journal_holds C identity es jn (rt_directory rt)" "fst ` set es \<subseteq> finished"
    using inv by (auto simp: life_invariant_def journal_durable_def)
  have durable: "journal_durable C identity name (insert s finished) j d"
    using record_holds [OF jn(3), of "(s, sl)"] rec jn unfolding journal_durable_def
    by (fastforce split: if_splits)
  have same: "om_get d (cs_name cs) = om_get (rt_directory rt) (cs_name cs)"
    using record_frame [of "rt_directory rt" C no_append_faults "(s, sl)" jn j d "cs_name cs"] rec jn ok
    by (auto simp: journal_holds_def deployment_ok_def)
  have more: "life_invariant C J cs name identity addresses start rt hist seen emitted (insert s finished) dropped"
    by (rule life_invariant_finished [OF inv]) blast
  then have "checkpoint_covered C J cs addresses start hist seen (insert s finished \<union> dropped) d"
    using checkpoint_covered_grows [OF _ grows_refl order_refl subset_refl same]
    by (simp add: life_invariant_def)
  then show ?thesis using more durable by (simp add: life_invariant_def)
qed

lemma life_starts:
  assumes ok: "deployment_ok C J cs name identity addresses"
    and d: "om_wf d" "om_get d (cs_name cs) = None" and fresh: "fresh_process cs name d rt0"
    and faults: "\<not> fail_read (la_faults (lenv 0))" "\<not> jf_remove jf"
    and load: "load_checkpoint C J lenv jf identity 0 rt0 = (rt1, Inr outcome)"
  shows "life_invariant C J cs name identity addresses start (resume C jf identity outcome rt1)
    hist seen {} finished dropped"
proof -
  let ?jn = "\<lparr>jn_name = name, jn_state = journal_state_default\<rparr>"
  have F: "rt_store rt0 = cs" "rt_directory rt0 = d" "rt_journal rt0 = Some ?jn"
    "pw_delivered (rt_world rt0) \<in> {None, Some new_delivered}"
    using fresh by (auto simp: fresh_process_def)
  have "load C J (la_faults (lenv 0)) (la_timestamp (lenv 0)) cs d = (d, Inr Missing)"
    using d(2) faults(1) by (simp add: load_def)
  then have loaded: "rt1 = rt0\<lparr>rt_directory := d\<rparr>" "outcome = Missing"
    using load F by (simp_all add: load_checkpoint.simps [of C J lenv jf identity 0 rt0])
  obtain j d' where dis: "discard (jf_remove jf) (jf_truncate jf) identity (Some ?jn) d = (j, d')"
    by (cases "discard (jf_remove jf) (jf_truncate jf) identity (Some ?jn) d")
  let ?rt = "resume C jf identity outcome rt1"
  have rt: "rt_journal ?rt = j" "rt_directory ?rt = d'" "rt_store ?rt = cs"
    "pw_state (rt_world ?rt) = polling_state_default" "pw_delivered (rt_world ?rt) = pw_delivered (rt_world rt0)"
    "rt_processed ?rt = snapshot_of polling_state_default"
    using dis F by (simp_all add: loaded resume_def discard_journal_def Let_def)
  have "journal_durable C identity name finished j d'" and "om_get d' (cs_name cs) = None"
    using dis d faults(2) ok
    by (auto simp: discard_def purge_def Let_def journal_durable_def journal_holds_def contents_of_def
        om_get_om_remove om_wf_om_remove journal_state_default_def deployment_ok_def split: option.splits)
  moreover have "\<not> known_signature (rt_world ?rt) s" "cursor_of C (rt_world ?rt) a = None" for s a
    using F(4) by (auto simp: known_signature_def rt polling_state_default_def new_delivered_def
        has_recent_signature_def om_contains_def om_get_def cursor_of_def)
  then have cov: "coverage_invariant C (cs_replay_window cs) addresses start (rt_world ?rt) hist seen
      (finished \<union> dropped)"
    by (auto simp: coverage_invariant_def covered_def discoverable_def above_replay_def cursors_seen_def rt)
  ultimately show ?thesis
    using cov snapshot_of_covered [OF cov order_refl]
    by (simp add: life_invariant_def checkpoint_covered_def rt)
qed

lemma restart_loads:
  assumes ok: "deployment_ok C J cs name identity addresses"
    and inv: "checkpoint_covered C J cs addresses start hist seen durable (rt_directory rt0)"
    and present: "om_get (rt_directory rt0) (cs_name cs) \<noteq> None" and store: "rt_store rt0 = cs"
    and faults: "\<not> fail_read (la_faults (lenv 0))"
  obtains p where "load_checkpoint C J lenv jf identity 0 rt0 =
      (rt0, Inr (Loaded \<lparr>sn_cursors = rewound (cs_replay_window cs) (ps_cursors p),
         sn_recent_signatures = ps_recent p, sn_quarantined_signatures = ps_quarantined p\<rparr>))"
    and "snapshot_covered C (cs_replay_window cs) addresses start hist seen durable p"
proof -
  obtain p where p: "om_get (rt_directory rt0) (cs_name cs) = Some (processed_text C J cs p)"
    "om_keys (ps_cursors p) = ci_addresses (cs_identity cs)"
    "snapshot_covered C (cs_replay_window cs) addresses start hist seen durable p"
    using inv present unfolding checkpoint_covered_def by blast
  have "codec_ok C" using ok by (simp add: deployment_ok_def)
  then have "load C J (la_faults (lenv 0)) (la_timestamp (lenv 0)) cs (rt_directory rt0) =
      (rt_directory rt0, Inr (Loaded \<lparr>sn_cursors = rewound (cs_replay_window cs) (ps_cursors p),
         sn_recent_signatures = ps_recent p, sn_quarantined_signatures = ps_quarantined p\<rparr>))"
    using p(3) ok by (intro load_saved_document [OF _ _ _ _ _ _ p(2) faults])
      (simp_all add: snapshot_covered_def deployment_ok_def p(1) [unfolded processed_text_def])
  then show thesis
    using p(3) store by (intro that) (simp_all add: load_checkpoint.simps [of C J lenv jf identity 0 rt0])
qed

lemma life_restarts:
  assumes ok: "deployment_ok C J cs name identity addresses"
    and inv: "life_invariant C J cs name identity addresses start rt hist seen emitted finished dropped"
    and present: "om_get (rt_directory rt) (cs_name cs) \<noteq> None"
    and fresh: "fresh_process cs name (rt_directory rt) rt0"
    and faults: "\<not> fail_read (la_faults (lenv 0))" "\<not> rf_read (jf_restore jf)"
    and load: "load_checkpoint C J lenv jf identity 0 rt0 = (rt1, Inr outcome)"
  shows "life_invariant C J cs name identity addresses start (resume C jf identity outcome rt1) hist seen
    {} finished dropped"
proof -
  let ?jn = "\<lparr>jn_name = name, jn_state = journal_state_default\<rparr>" and ?d = "rt_directory rt"
  let ?rw = "cs_replay_window cs"
  have F: "rt_store rt0 = cs" "rt_directory rt0 = ?d" "rt_journal rt0 = Some ?jn"
    "pw_delivered (rt_world rt0) \<in> {None, Some new_delivered}"
    using fresh by (auto simp: fresh_process_def)
  have O: "codec_ok C" "plain_line identity" using ok by (auto simp: deployment_ok_def)
  have I: "checkpoint_covered C J cs addresses start hist seen (finished \<union> dropped) ?d"
    using inv unfolding life_invariant_def by blast
  obtain p where p: "load_checkpoint C J lenv jf identity 0 rt0 =
      (rt0, Inr (Loaded \<lparr>sn_cursors = rewound ?rw (ps_cursors p),
         sn_recent_signatures = ps_recent p, sn_quarantined_signatures = ps_quarantined p\<rparr>))"
    "snapshot_covered C ?rw addresses start hist seen (finished \<union> dropped) p"
    using restart_loads [where lenv = lenv and jf = jf, OF ok I [folded F(2)] _ F(1) faults(1)] present F(2)
    by auto
  let ?sn = "\<lparr>sn_cursors = rewound ?rw (ps_cursors p), sn_recent_signatures = ps_recent p,
       sn_quarantined_signatures = ps_quarantined p\<rparr>"
  have loaded: "rt1 = rt0" "outcome = Loaded ?sn" using load p(1) by simp_all
  obtain jn es where j: "jn_name jn = name" "journal_holds C identity es jn ?d" "fst ` set es \<subseteq> finished"
    using inv by (auto simp: life_invariant_def journal_durable_def)
  obtain jn' d' where r: "restore C (jf_restore jf) identity (Some ?jn) ?d = (es, Some jn', d')" "jn_name jn' = name"
    "journal_holds C identity es jn' d'" "\<And>m. m \<noteq> name \<Longrightarrow> om_get d' m = om_get ?d m"
    using restore_holds [OF O j(2) faults(2), of ?jn] j(1) by (auto simp: journal_state_default_def)
  let ?rt = "resume C jf identity outcome rt1"
  have rt: "rt_journal ?rt = Some jn'" "rt_directory ?rt = d'" "rt_store ?rt = cs"
    "pw_state (rt_world ?rt) = record_deliveries es (resume_state ?sn)"
    "pw_delivered (rt_world ?rt) = pw_delivered (rt_world rt0)"
    "rt_processed ?rt = snapshot_of (pw_state (rt_world ?rt))"
    using r(1) F by (simp_all add: loaded resume_def Let_def)
  have cov: "coverage_invariant C ?rw addresses start (rt_world ?rt) hist seen (finished \<union> dropped)"
    using j(3) F(4) by (intro resumed_coverage [OF p(2) _ rt(4)]) (auto simp: rt(5))
  have "checkpoint_covered C J cs addresses start hist seen (finished \<union> dropped) d'"
    using ok by (intro checkpoint_covered_grows [OF I grows_refl order_refl order_refl] r(4)) (auto simp: deployment_ok_def)
  moreover have "journal_durable C identity name finished (Some jn') d'"
    using r j(3) unfolding journal_durable_def by blast
  ultimately show ?thesis
    using cov snapshot_of_covered [OF cov order_refl] by (simp add: life_invariant_def rt)
qed

lemma lifetime_carries:
  "lifetime C J L cs name identity addresses start rt P hist seen emitted finished dropped \<Longrightarrow>
    carries P emitted finished"
proof (induction rule: lifetime.induct)
  case (life_journal start rt P hist seen emitted finished dropped s sl j d)
  then show ?case by (elim carries_more) blast
next
  case (life_poll start rt P hist seen emitted finished dropped env hist' w r)
  then show ?case by (elim carries_enqueue) (auto simp: sent_signatures_def image_iff)
qed (auto intro: carries_idle carries_enqueue carries_dequeue carries_finish)

lemma lifetime_invariant:
  assumes "lifetime C J L cs name identity addresses start rt P hist seen emitted finished dropped"
    and ok: "deployment_ok C J cs name identity addresses"
  shows "life_invariant C J cs name identity addresses start rt hist seen emitted finished dropped"
  using assms(1)
proof induction
  case (life_start d rt0 lenv jf rt1 outcome start)
  then show ?case by (intro life_starts [OF ok])
next
  case (life_delivery start rt P hist seen emitted finished dropped dv s sl)
  then show ?case
    by (intro life_invariant_emitted [OF life_delivery.IH])
      (auto simp: known_signature_def record_delivery_def send_delivery_def split: if_splits)
next
  case (life_handover start rt P hist seen emitted finished dropped u)
  then show ?case
    using life_invariant_emitted [OF life_handover.IH, of "emitted \<union> set_option u" "rt_world rt"] by simp
next
  case (life_journal start rt P hist seen emitted finished dropped s sl j d)
  then show ?case by (intro life_journals [OF ok])
next
  case (life_finish start rt P hist seen emitted finished dropped u P')
  show ?case by (rule life_invariant_finished [OF life_finish.IH]) blast
next
  case (life_save start rt P hist seen emitted finished dropped env)
  show ?case
    by (rule life_saves [OF ok life_save.IH drained_finished [OF lifetime_carries [OF life_save(1)] life_save(2)]])
next
  case (life_poll start rt P hist seen emitted finished dropped env hist' w r)
  have "cs_replay_window (rt_store rt) = cs_replay_window cs"
    using life_poll.IH by (simp add: life_invariant_def)
  then have "poll C L (cs_replay_window cs) addresses (te_poll env) (rt_world rt) = Some (w, r)"
    using life_poll.hyps by (simp add: turn_poll_def)
  then show ?case using life_poll.hyps by (intro life_polls [OF ok life_poll.IH _ _ _ _ _ refl])
next
  case (life_restart start rt P hist seen emitted finished dropped rt0 lenv jf rt1 outcome)
  then show ?case by (intro life_restarts [OF ok])
next
  case (life_start_over start rt P hist seen emitted finished dropped rt0 lenv jf rt1 outcome start')
  have "om_wf (rt_directory rt)"
    using life_start_over.IH by (auto simp: life_invariant_def journal_durable_def journal_holds_def)
  then show ?case using life_start_over by (intro life_starts [OF ok])
qed


end
