(* ===== verification/Lifetime_Examples.thy ===== *)
theory Lifetime_Examples
  imports Lifetime Runtime_Examples
begin

text \<open>
  The life of the demonstration deployment: a codec of documents that restores every document, a
  first turn, the pipeline finishing what it sent, a checkpoint, a failed poll, a kill and the
  restart. The witness of the lifetime applies it here.
\<close>

section \<open>A codec that restores every document\<close>

definition encode_nats :: "nat list \<Rightarrow> string" where
  "encode_nats ns = concat (map (\<lambda>n. replicate n CHR ''1'' @ [CHR '','']) ns)"

fun decode_nats :: "nat \<Rightarrow> string \<Rightarrow> nat list" where
  "decode_nats k [] = []"
| "decode_nats k (c # cs) =
     (if c = CHR '','' then k # decode_nats 0 cs
      else decode_nats (if c = CHR ''1'' then Suc k else k) cs)"

lemma decode_ones: "decode_nats k (replicate n CHR ''1'' @ CHR '','' # cs) = (k + n) # decode_nats 0 cs"
  by (induction n arbitrary: k) simp_all

lemma decode_encoded: "decode_nats 0 (encode_nats ns @ [newline]) = ns"
  by (induction ns) (simp_all add: encode_nats_def newline_def decode_ones)

text \<open>Values as lists of numbers, each read back off the front.\<close>

definition put_list :: "('a \<Rightarrow> nat list) \<Rightarrow> 'a list \<Rightarrow> nat list" where
  "put_list put xs = length xs # concat (map put xs)"

fun get_many :: "(nat list \<Rightarrow> 'a \<times> nat list) \<Rightarrow> nat \<Rightarrow> nat list \<Rightarrow> 'a list \<times> nat list" where
  "get_many g 0 ns = ([], ns)"
| "get_many g (Suc k) ns = (case g ns of (x, ns') \<Rightarrow> case get_many g k ns' of (xs, r) \<Rightarrow> (x # xs, r))"

definition get_list :: "(nat list \<Rightarrow> 'a \<times> nat list) \<Rightarrow> nat list \<Rightarrow> 'a list \<times> nat list" where
  "get_list g ns = get_many g (hd ns) (tl ns)"

lemma get_put_list: "(\<And>x r. g (put x @ r) = (x, r)) \<Longrightarrow> get_list g (put_list put xs @ r) = (xs, r)"
proof -
  assume g: "\<And>x r. g (put x @ r) = (x, r)"
  have "get_many g (length xs) (concat (map put xs) @ r) = (xs, r)"
    by (induction xs) (simp_all add: g)
  then show ?thesis by (simp add: get_list_def put_list_def)
qed

definition put_string :: "string \<Rightarrow> nat list" where "put_string = put_list (\<lambda>c. [of_char c])"
definition get_string :: "nat list \<Rightarrow> string \<times> nat list" where
  "get_string = get_list (\<lambda>ns. (char_of (hd ns), tl ns))"

definition put_entry :: "string \<times> slot \<Rightarrow> nat list" where "put_entry e = unat (snd e) # put_string (fst e)"
definition get_entry :: "nat list \<Rightarrow> (string \<times> slot) \<times> nat list" where
  "get_entry ns = (case get_string (tl ns) of (s, r) \<Rightarrow> ((s, of_nat (hd ns)), r))"

lemma get_put_string [simp]: "get_string (put_string s @ r) = (s, r)"
  unfolding get_string_def put_string_def by (rule get_put_list) simp

lemma get_put_entry [simp]: "get_entry (put_entry e @ r) = (e, r)"
  by (simp add: get_entry_def put_entry_def)

lemmas get_put_lists [simp] =
  get_put_list [of get_string put_string, OF get_put_string]
  get_put_list [of get_entry put_entry, OF get_put_entry]

definition put_document :: "checkpoint_document \<Rightarrow> nat list" where
  "put_document doc = unat (cd_schema_version doc) # put_string (cd_genesis_hash doc)
     @ put_string (cd_program_id doc) @ put_list put_string (cd_addresses doc)
     @ put_list put_entry (cd_cursors doc) @ put_list put_entry (cd_recent_signatures doc)
     @ put_list put_string (cd_quarantined_signatures doc)"

definition get_document :: "nat list \<Rightarrow> checkpoint_document" where
  "get_document ns =
     (case get_string (tl ns) of (genesis, r1) \<Rightarrow>
      case get_string r1 of (program, r2) \<Rightarrow>
      case get_list get_string r2 of (addresses, r3) \<Rightarrow>
      case get_list get_entry r3 of (cs, r4) \<Rightarrow>
      case get_list get_entry r4 of (recent, r5) \<Rightarrow>
      case get_list get_string r5 of (quarantined, r6) \<Rightarrow>
        \<lparr>cd_schema_version = of_nat (hd ns), cd_genesis_hash = genesis, cd_program_id = program,
         cd_addresses = addresses, cd_cursors = cs, cd_recent_signatures = recent,
         cd_quarantined_signatures = quarantined\<rparr>)"

lemma get_put_document: "get_document (put_document doc) = doc"
  using get_put_lists(1) [of "cd_quarantined_signatures doc" "[]"]
  by (simp add: get_document_def put_document_def)

definition counting_codec :: document_codec where
  "counting_codec = \<lparr>encode_document = (\<lambda>doc. encode_nats (put_document doc)),
     decode_document = (\<lambda>t. Inr (get_document (decode_nats 0 t)))\<rparr>"

lemma counting_restores: "json_restores counting_codec doc"
  by (simp add: json_restores_def counting_codec_def decode_encoded get_put_document)

section \<open>The first turn\<close>

lemma demo_deployment:
  "deployment_ok decimal_codec counting_codec demo_store ''shipped.log'' ''g'' [5]"
  by (simp add: deployment_ok_def counting_restores plain_line_def demo_store_def new_store_def
      temporary_path_def)

definition demo_first :: runtime where
  "demo_first = resume decimal_codec demo_journal_faults ''g'' Missing
     (blank_runtime demo_world demo_store (Some demo_journal) [])"

lemma demo_first_loads:
  "load_checkpoint decimal_codec counting_codec demo_load demo_journal_faults ''g'' 0
     (blank_runtime demo_world demo_store (Some demo_journal) [])
   = (blank_runtime demo_world demo_store (Some demo_journal) [], Inr Missing)"
  by (simp add: load_checkpoint.simps load_def demo_load_def blank_runtime_def om_get_def)

lemma demo_life: "lifetime decimal_codec counting_codec demo_library demo_store ''shipped.log'' ''g'' [5]
    (\<lambda>a. 60) demo_first idle_pipeline (\<lambda>a. []) (\<lambda>a. 0) {} {} {}"
  unfolding demo_first_def
  by (rule life_start [OF _ _ _ _ _ demo_first_loads, of "[]"])
    (simp_all add: om_get_def fresh_process_def blank_runtime_def demo_world_def demo_journal_def
      demo_load_def demo_journal_faults_def)

lemma demo_first_fields:
  "rt_world demo_first = demo_world" "rt_store demo_first = demo_store"
  "rt_processed demo_first = snapshot_of (pw_state (rt_world demo_first))"
  by (simp_all add: demo_first_def resume_def discard_journal_def blank_runtime_def demo_world_def
      Let_def split: prod.splits)

lemma demo_first_saves: "before_poll decimal_codec counting_codec demo_turn_env demo_first = demo_first"
  by (simp add: before_poll_def count_quarantined_files_def quarantined_file_count_def demo_first_fields
      demo_turn_env_def advance_processed_def pipeline_drained_def carbon_counter_def save_progress_def
      save_if_due_def snapshot_of_def polling_state_default_def demo_world_def om_keys_def Let_def)

definition demo_polled_first :: runtime where
  "demo_polled_first = fst (after_poll (Inr demo_outcome) (demo_first\<lparr>rt_world := demo_after\<rparr>))"

abbreviation demo_seen :: "pubkey \<Rightarrow> slot" where
  "demo_seen \<equiv> seen_after demo_env (\<lambda>a. demo_history) (\<lambda>a. 0)"

lemma demo_none_quarantined: "{s. is_quarantined (pw_state demo_after) s} = {}"
  by (simp add: is_quarantined_def demo_after_def om_get_def)

lemma demo_env_refl: "demo_env\<lparr>pe_head := pe_head demo_env\<rparr> = demo_env"
  by simp

text \<open>The first turn sends signature 7, and the pipeline takes it in hand.\<close>

lemma demo_life_busy: "lifetime decimal_codec counting_codec demo_library demo_store ''shipped.log'' ''g'' [5]
    (\<lambda>a. 60) demo_polled_first demo_busy (\<lambda>a. demo_history) demo_seen {7} {} {}"
proof -
  have p: "turn_poll decimal_codec demo_library [5] demo_turn_env demo_first = Some (demo_after, Inr demo_outcome)"
    using demo_poll by (simp add: turn_poll_def demo_first_fields)
  have saved: "lifetime decimal_codec counting_codec demo_library demo_store ''shipped.log'' ''g'' [5]
    (\<lambda>a. 60) demo_first idle_pipeline (\<lambda>a. []) (\<lambda>a. 0) {} {} {}"
    using life_save [OF demo_life, of demo_turn_env]
    by (simp add: demo_first_saves reported_def idle_pipeline_def)
  have env: "completion_ok (te_poll demo_turn_env)"
    "serves_all decimal_codec [5] (\<lambda>a. demo_history) (te_poll demo_turn_env)"
    "grows (cs_replay_window demo_store) [5] (\<lambda>a. 60) (\<lambda>a. 0) (\<lambda>a. []) (\<lambda>a. demo_history)"
    "starts_from decimal_codec (cs_replay_window demo_store) [5] (\<lambda>a. 60) (te_poll demo_turn_env) (rt_world demo_first)"
    using demo_completion demo_serves_all [of "pe_head demo_env", unfolded demo_env_refl]
      demo_grows [of "[]"] demo_starts by (simp_all add: demo_first_fields)
  have "lifetime decimal_codec counting_codec demo_library demo_store ''shipped.log'' ''g'' [5]
    (\<lambda>a. 60) demo_polled_first (enqueue_updates [Some 7] idle_pipeline) (\<lambda>a. demo_history) demo_seen {7} {} {}"
    using life_poll [OF saved env p]
    unfolding demo_first_fields demo_handed_over demo_sent_signatures demo_none_quarantined demo_polled_first_def
    by simp
  from life_dequeue [OF this, of "Some 7"] show ?thesis
    by (simp add: dequeue_update_def enqueue_updates_def idle_pipeline_def demo_busy_def)
qed

section \<open>A checkpoint\<close>

text \<open>
  The pipeline journals signature 7 and finishes it; the next turn finds every update processed, and
  its save writes the checkpoint.
\<close>

definition demo_idle_again :: pipeline where
  "demo_idle_again = \<lparr>pl_channel = [], pl_in_hand = [], pl_received = 1, pl_handled = 1\<rparr>"

abbreviation demo_drained_env :: turn_env where
  "demo_drained_env \<equiv> demo_turn_env\<lparr>te_snapshot := counters 1 1\<rparr>"

lemma demo_journalled:
  obtains rt where "lifetime decimal_codec counting_codec demo_library demo_store ''shipped.log'' ''g'' [5]
      (\<lambda>a. 60) rt demo_idle_again (\<lambda>a. demo_history) demo_seen {7} {7} {}"
    and "rt_world rt = rt_world demo_polled_first" "rt_store rt = demo_store" "rt_urgent rt"
proof -
  obtain j d where r: "record_shipped decimal_codec no_append_faults (7, 100) (rt_journal demo_polled_first)
      (rt_directory demo_polled_first) = (j, d)"
    by (cases "record_shipped decimal_codec no_append_faults (7, 100) (rt_journal demo_polled_first)
      (rt_directory demo_polled_first)")
  let ?rt = "demo_polled_first\<lparr>rt_journal := j, rt_directory := d\<rparr>"
  have "lifetime decimal_codec counting_codec demo_library demo_store ''shipped.log'' ''g'' [5]
      (\<lambda>a. 60) ?rt demo_busy (\<lambda>a. demo_history) demo_seen {7} {7} {}"
    using life_journal [OF demo_life_busy _ r] by (simp add: demo_busy_def)
  from life_finish [OF this, of "Some 7"]
  have "lifetime decimal_codec counting_codec demo_library demo_store ''shipped.log'' ''g'' [5]
      (\<lambda>a. 60) ?rt demo_idle_again (\<lambda>a. demo_history) demo_seen {7} {7} {}"
    by (simp add: finish_update_def demo_busy_def demo_idle_again_def)
  moreover have "rt_store demo_polled_first = demo_store" "rt_urgent demo_polled_first"
    by (simp_all add: demo_polled_first_def after_poll_def demo_first_fields)
  ultimately show thesis by (intro that [of ?rt]) simp_all
qed

lemma demo_checkpointed:
  obtains rt where "lifetime decimal_codec counting_codec demo_library demo_store ''shipped.log'' ''g'' [5]
      (\<lambda>a. 60) rt demo_idle_again (\<lambda>a. demo_history) demo_seen {7} {7} {}"
    and "pw_state (rt_world rt) = pw_state demo_after" "pw_delivered (rt_world rt) = Some new_delivered"
    and "cs_replay_window (rt_store rt) = 30" "om_get (rt_directory rt) ''rpc-polling.json'' \<noteq> None"
proof -
  obtain rt where life: "lifetime decimal_codec counting_codec demo_library demo_store ''shipped.log'' ''g'' [5]
      (\<lambda>a. 60) rt demo_idle_again (\<lambda>a. demo_history) demo_seen {7} {7} {}"
    and rt: "rt_world rt = rt_world demo_polled_first" "rt_store rt = demo_store" "rt_urgent rt"
    by (rule demo_journalled)
  have world: "pw_state (rt_world rt) = pw_state demo_after" "pw_delivered (rt_world rt) = Some new_delivered"
    by (simp_all add: rt demo_polled_first_def after_poll_def) (simp_all add: demo_after_def)
  define q where "q = advance_processed demo_drained_env (count_quarantined_files demo_drained_env rt)"
  have drained: "pipeline_drained True (counters 1 1)" by (simp add: pipeline_drained_def)
  have q: "rt_processed q = snapshot_of (pw_state demo_after)" "rt_store q = demo_store" "rt_urgent q"
    "rt_directory q = rt_directory rt" "rt_journal q = rt_journal rt"
    using drained rt world
    by (simp_all add: q_def advance_processed_def) (simp add: count_quarantined_files_def split: sum.splits)
  have "journal_durable decimal_codec ''g'' ''shipped.log'' {7} (rt_journal rt) (rt_directory rt)"
    using lifetime_invariant [OF life demo_deployment] by (simp add: life_invariant_def)
  then have "om_wf (rt_directory q)" "journal_clear_of (rt_journal q) (cs_name (rt_store q))"
    using journal_clear by (auto simp: q temporary_path_def journal_durable_def journal_holds_def journal_clear_of_def)
  moreover have "om_keys (ps_cursors (rt_processed q)) = ci_addresses (cs_identity (rt_store q))"
    using demo_key by (simp add: q snapshot_of_def demo_after_def om_keys_def decimal_codec_def)
  moreover have "checkpoint_due (rt_store q) (te_now demo_drained_env) (rt_urgent q)"
    by (simp add: checkpoint_due_def q)
  moreover have "te_save_faults demo_drained_env = no_faults" by (simp add: demo_turn_env_def)
  ultimately have "om_get (rt_directory (before_poll decimal_codec counting_codec demo_drained_env rt))
      ''rpc-polling.json'' \<noteq> None"
    using due_save_written [of q demo_drained_env] by (simp add: before_poll_def q_def [symmetric] q(2))
  moreover have "reported demo_idle_again (te_channel_empty demo_drained_env) (te_snapshot demo_drained_env)"
    by (simp add: reported_def demo_idle_again_def)
  note life_save [OF life this]
  ultimately show thesis
    using world rt(2) by (intro that [of "before_poll decimal_codec counting_codec demo_drained_env rt"]) simp_all
qed

section \<open>A kill and the restart\<close>

text \<open>
  The endpoint goes on: its history has a new entry, signature 8, when the next poll fails to read the
  head. Then the process is killed.
\<close>

definition demo_later :: "discovered_signature list" where
  "demo_later = \<lparr>ds_signature = 8, ds_slot = 130\<rparr> # demo_history"

definition demo_failing_env :: turn_env where
  "demo_failing_env = demo_turn_env\<lparr>te_poll := demo_env\<lparr>pe_head := Inl ''unreachable'',
     pe_pages := (\<lambda>a n before mc. Inr (serve_page decimal_codec demo_later before))\<rparr>\<rparr>"

lemma demo_failing_poll:
  "turn_poll decimal_codec demo_library [5] demo_failing_env rt =
    Some (absorb_delivered_signatures (rt_world rt), Inl (Anyhow ''failed to read the confirmed RPC slot''))"
  by (simp add: turn_poll_def poll_def poll_prepare_def demo_failing_env_def)

lemma demo_seen_head: "demo_seen 5 = 120"
  by (simp add: seen_after_def demo_history_def demo_env_def)

lemma demo_later_served:
  "completion_ok (te_poll demo_failing_env)" "serves_all decimal_codec [5] (\<lambda>a. demo_later) (te_poll demo_failing_env)"
  "grows (cs_replay_window demo_store) [5] (\<lambda>a. 60) demo_seen (\<lambda>a. demo_history) (\<lambda>a. demo_later)"
  "starts_from decimal_codec rw [5] (\<lambda>a. 60) (te_poll demo_failing_env) w"
  using demo_completion
  by (auto simp: completion_ok_def serves_all_def serves_history_def demo_failing_env_def demo_later_def
      demo_history_def grows_def demo_seen_head [unfolded demo_history_def] sat_sub_def starts_from_def)

lemma demo_killed_later:
  obtains rt seen where "lifetime decimal_codec counting_codec demo_library demo_store ''shipped.log'' ''g'' [5]
      (\<lambda>a. 60) rt demo_idle_again (\<lambda>a. demo_later) seen {7} {7} {}"
    and "om_get (rt_directory rt) ''rpc-polling.json'' \<noteq> None"
proof -
  obtain rt where life: "lifetime decimal_codec counting_codec demo_library demo_store ''shipped.log'' ''g'' [5]
      (\<lambda>a. 60) rt demo_idle_again (\<lambda>a. demo_history) demo_seen {7} {7} {}"
    and rt: "pw_state (rt_world rt) = pw_state demo_after" "pw_delivered (rt_world rt) = Some new_delivered"
      "om_get (rt_directory rt) ''rpc-polling.json'' \<noteq> None"
    by (rule demo_checkpointed)
  let ?w = "absorb_delivered_signatures (rt_world rt)"
  have "newly_sent (rt_world rt) ?w = []" "{s. is_quarantined (pw_state ?w) s} = {}"
    using rt(1,2) demo_none_quarantined
    by (simp_all add: newly_sent_def absorb_delivered_signatures_def new_delivered_def)
  then have "lifetime decimal_codec counting_codec demo_library demo_store ''shipped.log'' ''g'' [5] (\<lambda>a. 60)
      (fst (after_poll (Inl (Anyhow ''failed to read the confirmed RPC slot'')) (rt\<lparr>rt_world := ?w\<rparr>)))
      demo_idle_again (\<lambda>a. demo_later) (seen_after (te_poll demo_failing_env) (\<lambda>a. demo_later) demo_seen) {7} {7} {}"
    using life_poll [OF life demo_later_served demo_failing_poll]
    by (simp add: sent_signatures_def enqueue_updates_def demo_idle_again_def)
  from that [OF this] show thesis using rt(3) by simp
qed

text \<open>The restarted process has 7 behind it and finds 8 with its next poll.\<close>

abbreviation demo_process :: "directory \<Rightarrow> runtime" where
  "demo_process \<equiv> blank_runtime demo_world demo_store (Some demo_journal)"


end
