(* ===== verification/Backfill_Records.thy ===== *)
theory Backfill_Records
  imports Processor Multisig Backfill Logging
begin

text \<open>
  The records of a backfill: what the processors log for a transaction carries its block time, and
  that is what the pusher stamps each record with. A record's text is a library's JSON, of which
  it is used that parsing restores what was rendered.
\<close>

text \<open>The lines of one processed instruction, and the transaction they belong to.\<close>

inductive logged_by ::
  "codec \<Rightarrow> 'e event_library \<Rightarrow> 'i program_library \<Rightarrow> bool \<Rightarrow> squads_library \<Rightarrow> u64 \<Rightarrow> verified_multisig
   \<Rightarrow> instruction_metadata \<Rightarrow> log_line list \<Rightarrow> bool"
  for C E P events_enabled S now m
where
  logged_program: "logged_by C E P events_enabled S now m (ii_metadata (pg_input i))
    (pv_lines (process_instruction C E P events_enabled now i p))"
| logged_v3: "logged_by C E P events_enabled S now m (ii_metadata i) (pi_lines (squads_process C S now m (V3_Input i)))"
| logged_v4: "logged_by C E P events_enabled S now m (ii_metadata i) (pi_lines (squads_process C S now m (V4_Input i)))"
| logged_v5: "logged_by C E P events_enabled S now m (ii_metadata i) (pi_lines (squads_process C S now m (V5_Input i)))"

text \<open>The block time a record is read back with: absent, or an \<open>i64\<close>.\<close>

definition record_time :: "instruction_metadata \<Rightarrow> int option" where
  "record_time m = Option.bind (im_block_time m) (\<lambda>t. json_as_i64 (JNumber t))"

lemma optional_time: "json_as_i64 (json_optional (im_block_time m)) = record_time m"
  by (simp add: json_optional_def record_time_def json_as_i64_def split: option.splits)

lemmas log_line_defs = Let_def json_get_object is_structured_target_def structured_target_prefix_def starts_with_def

lemma program_line:
  assumes "l \<in> set (pv_lines (process_instruction C E P events_enabled now i p))"
  shows "json_get (ll_record l) ''block_time'' = Some (json_optional (im_block_time (ii_metadata (pg_input i))))"
    and "is_structured_target (ll_target l)"
  using assms
  by (auto simp: process_instruction_def instruction_line_def decode_failure_line_def event_line_def log_line_defs
      split: sum.splits prod.splits)

lemma activity_line:
  assumes "l \<in> set (pi_lines (process_matched C serialize snake_case now resolver state idl_version actions i))"
  shows "json_get (ll_record l) ''block_time'' = Some (json_optional (im_block_time (ii_metadata i)))"
    and "is_structured_target (ll_target l)"
  using assms
  by (auto simp: process_matched_def process_activity_def activity_record_def log_line_defs
      split: option.splits sum.splits prod.splits)

lemma logged_line:
  assumes "logged_by C E P events_enabled S now m md ls" "l \<in> set ls"
  shows "json_get (ll_record l) ''block_time'' = Some (json_optional (im_block_time md))
    \<and> is_structured_target (ll_target l)"
  using assms by cases (auto simp: program_line squads_process_defs Let_def activity_line)

text \<open>What the sink of a backfill receives: the lines the logger diverts, then the end marker.\<close>

definition diverted :: "(json \<Rightarrow> string) \<Rightarrow> log_line \<Rightarrow> string option list" where
  "diverted render l =
     (case format_record True '''' \<lparr>lr_target = ll_target l, lr_level = ''INFO'', lr_args = render (ll_record l)\<rparr> of
        Diverted s \<Rightarrow> [Some s]
      | Printed s \<Rightarrow> [])"

definition sink_records :: "(json \<Rightarrow> string) \<Rightarrow> log_line list \<Rightarrow> string option list" where
  "sink_records render ls = concat (map (diverted render) ls) @ [None]"

lemma received_sink:
  "\<forall>l \<in> set ls. is_structured_target (ll_target l) \<Longrightarrow>
   received_lines (sink_records render ls) = map (\<lambda>l. render (ll_record l)) ls"
  by (induction ls) (simp_all add: sink_records_def diverted_def format_record_def)

lemma logged_time:
  assumes "logged_by C E P events_enabled S now m md ls" "l \<in> set ls" "parse (render (ll_record l)) = Inr (ll_record l)"
  shows "block_time_of parse (render (ll_record l)) = record_time md"
  by (simp add: block_time_of_def assms(3) optional_time logged_line [OF assms(1,2)])

text \<open>The lines of a sequence of processed instructions, each at the block time of its transaction.\<close>

definition stamped_lines ::
  "(json \<Rightarrow> string) \<Rightarrow> (instruction_metadata \<times> log_line list) list \<Rightarrow> (int \<times> string) list" where
  "stamped_lines render runs =
     concat (map (\<lambda>(md, ls). map (\<lambda>l. (the (record_time md), render (ll_record l))) ls) runs)"

lemma stamped_lines_map:
  assumes "\<forall>(md, ls) \<in> set runs. \<forall>l \<in> set ls. time_of (render (ll_record l)) = record_time md"
  shows "map (\<lambda>s. (the (time_of s), s)) (map (\<lambda>l. render (ll_record l)) (concat (map snd runs))) = stamped_lines render runs"
  using assms by (induction runs) (auto simp: stamped_lines_def)

lemma missing_time:
  assumes "\<forall>(md, ls) \<in> set runs. \<forall>l \<in> set ls. time_of (render (ll_record l)) = record_time md"
  shows "(\<exists>s \<in> set (map (\<lambda>l. render (ll_record l)) (concat (map snd runs))). time_of s = None)
    \<longleftrightarrow> (\<exists>(md, ls) \<in> set runs. ls \<noteq> [] \<and> record_time md = None)"
  using assms
proof (induction runs)
  case (Cons run runs)
  obtain md ls where run: "run = (md, ls)" by fastforce
  have "(\<exists>l \<in> set ls. time_of (render (ll_record l)) = None) \<longleftrightarrow> ls \<noteq> [] \<and> record_time md = None"
    using Cons.prems unfolding run by (cases ls) auto
  then show ?case using Cons unfolding run by (simp add: bex_Un)
qed simp

text \<open>
  C31: A backfill delivers what the processors logged at the times it happened: of all the lines the
  program and the multisig processors log for a sequence of instructions, each is pushed stamped
  with the block time of its transaction, in block time order, and a push that succeeds delivers
  every one of them; when a logged transaction has no block time nothing is pushed.
\<close>

theorem backfill_stamps_block_times:
  assumes "\<forall>(md, ls) \<in> set runs. logged_by C E P events_enabled S now m md ls"
    and "\<forall>(md, ls) \<in> set runs. \<forall>l \<in> set ls. parse (render (ll_record l)) = Inr (ll_record l)"
    and "push_records parse post run_label (sink_records render (concat (map snd runs))) = (n, accepted, r)"
  shows "if \<exists>(md, ls) \<in> set runs. ls \<noteq> [] \<and> record_time md = None
    then accepted = [] \<and> (\<exists>e. r = Inl e)
    else \<exists>k. concat (map stream_values accepted) =
           take k (map (\<lambda>(t, l). (show_int (t * 1000000000), l)) (sort_key fst (stamped_lines render runs)))
         \<and> (\<forall>pushed. r = Inr pushed \<longrightarrow> k = pushed \<and> pushed = length (concat (map snd runs)))"
proof -
  have lines: "received_lines (sink_records render (concat (map snd runs))) =
      map (\<lambda>l. render (ll_record l)) (concat (map snd runs))"
    using assms(1) logged_line by (intro received_sink) fastforce
  have times: "\<forall>(md, ls) \<in> set runs. \<forall>l \<in> set ls. block_time_of parse (render (ll_record l)) = record_time md"
    using assms(1,2) logged_time by fastforce
  have missing: "(\<exists>s \<in> set (map (\<lambda>l. render (ll_record l)) (concat (map snd runs))). block_time_of parse s = None)
      \<longleftrightarrow> (\<exists>(md, ls) \<in> set runs. ls \<noteq> [] \<and> record_time md = None)"
    by (rule missing_time [where time_of = "block_time_of parse" and render = render, OF times])
  have stamped: "map (\<lambda>l. (the (block_time_of parse l), l)) (map (\<lambda>l. render (ll_record l)) (concat (map snd runs)))
      = stamped_lines render runs"
    by (rule stamped_lines_map [where time_of = "block_time_of parse" and render = render, OF times])
  let ?missing = "\<exists>(md, ls) \<in> set runs. ls \<noteq> [] \<and> record_time md = None"
  note delivered = push_records_delivered [OF assms(3), unfolded lines missing stamped length_map]
  show ?thesis
  proof (cases ?missing)
    case True
    then show ?thesis using delivered by (simp only: if_True)
  next
    case False
    with delivered obtain k where "concat (map stream_values accepted) =
        take k (map (\<lambda>(t, l). (show_int (t * 1000000000), l)) (sort_key fst (stamped_lines render runs)))"
      "\<forall>pushed. r = Inr pushed \<longrightarrow> pushed = length (concat (map snd runs)) \<and> k = pushed"
      by (simp only: if_False) blast
    then show ?thesis unfolding if_not_P [OF False] by blast
  qed
qed

section \<open>Two approvals in a backfill\<close>

text \<open>Two approvals of the configured multisig, the newer logged first; a record is rendered as its block time.\<close>

definition approval_at :: "int \<Rightarrow> v4_instruction instruction_input" where
  "approval_at t = \<lparr>ii_decoded = ProposalApprove 7, ii_program_id = 4,
     ii_metadata = demo_metadata\<lparr>im_block_time := Some t\<rparr>\<rparr>"

definition approval_lines :: "int \<Rightarrow> log_line list" where
  "approval_lines t = pi_lines (squads_process decimal_codec demo_squads_library 0 demo_multisig (V4_Input (approval_at t)))"

definition render_time :: "json \<Rightarrow> string" where
  "render_time j = (case json_get j ''block_time'' of Some (JNumber t) \<Rightarrow> show_int t | _ \<Rightarrow> [])"

definition parse_time :: "string \<Rightarrow> string + json" where
  "parse_time s = Inr (ll_record (hd (approval_lines (if s = show_int 50 then 50 else 40))))"

definition demo_program_library :: "nat program_library" where
  "demo_program_library = \<lparr>pl_serialize = (\<lambda>i. Inr (JObject [])), pl_snake_case = (\<lambda>s. s), pl_is_event = (\<lambda>i. False)\<rparr>"

abbreviation approval_runs :: "(instruction_metadata \<times> log_line list) list" where
  "approval_runs \<equiv> map (\<lambda>t. (ii_metadata (approval_at t), approval_lines t)) [50, 40]"

lemma approval_logs_one: "\<exists>l. approval_lines t = [l]"
  by (simp add: approval_lines_def approval_at_def demo_multisig_def squads_v4_process_def process_matched_def
      process_activity_def match_state_def new_resolver_def Let_def to_log_data_def demo_squads_library_def
      om_get_def om_remove_def json_as_str_def)

lemma approval_logged:
  "logged_by decimal_codec E P b demo_squads_library 0 demo_multisig (ii_metadata (approval_at t)) (approval_lines t)"
  unfolding approval_lines_def by (rule logged_v4)

lemma approval_line:
  assumes "l \<in> set (approval_lines t)"
  shows "json_get (ll_record l) ''block_time'' = Some (JNumber t)" "is_structured_target (ll_target l)"
  using logged_line [OF approval_logged assms] by (auto simp: approval_at_def json_optional_def)

lemma approval_restored:
  assumes "t \<in> {40, 50}" "l \<in> set (approval_lines t)"
  shows "render_time (ll_record l) = show_int t" "parse_time (render_time (ll_record l)) = Inr (ll_record l)"
proof -
  obtain l' where "approval_lines t = [l']" using approval_logs_one by blast
  moreover show rendered: "render_time (ll_record l) = show_int t"
    by (simp add: render_time_def approval_line [OF assms(2)])
  moreover have "show_int 40 \<noteq> show_int 50" by (simp add: show_int_def)
  ultimately show "parse_time (render_time (ll_record l)) = Inr (ll_record l)"
    using assms by (auto simp: parse_time_def)
qed

lemma approval_stamps: "stamped_lines render_time approval_runs = [(50, show_int 50), (40, show_int 40)]"
proof -
  obtain a b where ab: "approval_lines 50 = [a]" "approval_lines 40 = [b]" using approval_logs_one by blast
  moreover have "render_time (ll_record a) = show_int 50" "render_time (ll_record b) = show_int 40"
    using approval_restored(1) ab by auto
  ultimately show ?thesis
    by (simp add: stamped_lines_def record_time_def approval_at_def json_as_i64_def)
qed

theorem backfill_stamps_block_times_witness:
  "case push_records parse_time (\<lambda>n p. HttpResponse 204 []) ''run''
          (sink_records render_time (concat (map snd approval_runs))) of
     (n, accepted, r) \<Rightarrow> \<exists>k. concat (map stream_values accepted) =
       take k [(show_int 40000000000, show_int 40), (show_int 50000000000, show_int 50)]
     \<and> (\<forall>pushed. r = Inr pushed \<longrightarrow> k = pushed \<and> pushed = 2)"
proof -
  obtain n accepted r where push: "push_records parse_time (\<lambda>n p. HttpResponse 204 []) ''run''
      (sink_records render_time (concat (map snd approval_runs))) = (n, accepted, r)"
    by (rule prod_cases3)
  have runs: "\<forall>(md, ls) \<in> set approval_runs.
      logged_by decimal_codec demo_event_library demo_program_library False demo_squads_library 0 demo_multisig md ls"
    by (simp add: approval_logged)
  have restored: "\<forall>(md, ls) \<in> set approval_runs. \<forall>l \<in> set ls. parse_time (render_time (ll_record l)) = Inr (ll_record l)"
    by (auto intro: approval_restored(2) [of 50] approval_restored(2) [of 40])
  have timed: "\<not> (\<exists>(md, ls) \<in> set approval_runs. ls \<noteq> [] \<and> record_time md = None)"
    by (simp add: record_time_def approval_at_def json_as_i64_def)
  have two: "length (concat (map snd approval_runs)) = 2"
    using approval_logs_one [of 50] approval_logs_one [of 40] by auto
  show ?thesis
    using backfill_stamps_block_times [OF runs restored push, unfolded if_not_P [OF timed] two approval_stamps] push
    by simp
qed

end
